(* ===== verification/Prelude.thy ===== *)
theory Prelude
  imports Main "HOL-Library.AList" "HOL-Library.List_Lexorder" "HOL-Library.Char_ord"
begin

text \<open>
  What every part of the model shares: the dynamic values a Wafer, an event and a
  node result are made of, errors as values, the Go standard-library functions on
  strings the program calls (strconv.Itoa, strings.ReplaceAll, strings.TrimSpace,
  the decoding of []rune, fmt's quoted verb, json.Marshal), and generic lemmas on lists and
  association lists.

  A Go string is a list of bytes, here a list of 8-bit characters.
\<close>

section \<open>Collections of facts\<close>

named_theorems res_simps
  \<open>unfolding rules of the result monad\<close>

named_theorems golib
  \<open>definitions of the Go library functions, for evaluating them\<close>

section \<open>Dynamic values\<close>

text \<open>
  Go's \<^verbatim>\<open>any\<close> as YAML and JSON decoding produce it. A \<^verbatim>\<open>map[string]any\<close> is an association
  list read with \<^const>\<open>map_of\<close>; the order of the list stands for Go's unspecified
  iteration order. A float64 is represented by the shortest decimal text that
  encodes it (the text encoding/json prints), so equal floats are equal values.
\<close>

datatype "value" =
    VNull
  | VBool bool
  | VInt int
  | VFloat string
  | VStr string
  | VArr "value list"
  | VObj "(string \<times> value) list"

text \<open>A type assertion \<^verbatim>\<open>x, ok := v.(T)\<close> is an option.\<close>

fun as_str :: "value option \<Rightarrow> string option" where
  "as_str (Some (VStr s)) = Some s"
| "as_str _ = None"

fun as_obj :: "value option \<Rightarrow> (string \<times> value) list option" where
  "as_obj (Some (VObj m)) = Some m"
| "as_obj _ = None"

fun as_arr :: "value option \<Rightarrow> value list option" where
  "as_arr (Some (VArr vs)) = Some vs"
| "as_arr _ = None"

fun as_bool :: "value option \<Rightarrow> bool option" where
  "as_bool (Some (VBool b)) = Some b"
| "as_bool _ = None"

text \<open>The value with the zero value for a failed assertion (\<^verbatim>\<open>x, _ := v.(string)\<close>).\<close>

definition str_or_empty :: "value option \<Rightarrow> string" where
  "str_or_empty v = (case as_str v of Some s \<Rightarrow> s | None \<Rightarrow> '''')"

lemma as_str_Some_iff [simp]: "as_str v = Some s \<longleftrightarrow> v = Some (VStr s)"
  by (cases v rule: as_str.cases) auto

lemma as_obj_Some_iff [simp]: "as_obj v = Some m \<longleftrightarrow> v = Some (VObj m)"
  by (cases v rule: as_obj.cases) auto

lemma as_arr_Some_iff [simp]: "as_arr v = Some vs \<longleftrightarrow> v = Some (VArr vs)"
  by (cases v rule: as_arr.cases) auto

lemma as_bool_Some_iff [simp]: "as_bool v = Some b \<longleftrightarrow> v = Some (VBool b)"
  by (cases v rule: as_bool.cases) auto

section \<open>Errors as values\<close>

text \<open>
  An error carries the sentinel that errors.Is finds in its chain, when it has one
  of the sentinels of the program, and its message. Wrapping with \<^verbatim>\<open>%w\<close> keeps the kind.
\<close>

datatype ekind =
    KMissing        \<comment> \<open>secret.ErrSecretMissing\<close>
  | KUnreachable    \<comment> \<open>secret.ErrSourceUnreachable\<close>
  | KStale          \<comment> \<open>secret.ErrStale\<close>
  | KUndeclared     \<comment> \<open>secret.ErrUndeclared\<close>
  | KNoFailed       \<comment> \<open>honker.ErrNoFailedContinuation\<close>
  | KNotExist       \<comment> \<open>os.ErrNotExist\<close>
  | KOther

datatype err = Err (err_kind: ekind) (err_msg: string)

abbreviation errorf :: "string \<Rightarrow> err" where
  "errorf \<equiv> Err KOther"

definition wrap :: "string \<Rightarrow> err \<Rightarrow> err" where
  "wrap pre e = Err (err_kind e) (pre @ err_msg e)"

lemma wrap_kind [simp]: "err_kind (wrap p e) = err_kind e"
  by (simp add: wrap_def)

type_synonym 'a res = "err + 'a"

definition rbind :: "'a res \<Rightarrow> ('a \<Rightarrow> 'b res) \<Rightarrow> 'b res" where
  "rbind m k = (case m of Inl e \<Rightarrow> Inl e | Inr a \<Rightarrow> k a)"

lemma rbind_Inl [simp, res_simps]: "rbind (Inl e) k = Inl e"
  by (simp add: rbind_def)

lemma rbind_Inr [simp, res_simps]: "rbind (Inr a) k = k a"
  by (simp add: rbind_def)

lemma rbind_eq_Inr: "rbind m k = Inr b \<longleftrightarrow> (\<exists>a. m = Inr a \<and> k a = Inr b)"
  by (cases m) auto

definition map_err :: "(err \<Rightarrow> err) \<Rightarrow> 'a res \<Rightarrow> 'a res" where
  "map_err f m = (case m of Inl e \<Rightarrow> Inl (f e) | Inr a \<Rightarrow> Inr a)"

lemma map_err_simps [simp, res_simps]:
  "map_err f (Inl e) = Inl (f e)" "map_err f (Inr a) = Inr a"
  by (simp_all add: map_err_def)

lemma map_err_eq_Inr [simp]: "map_err f m = Inr a \<longleftrightarrow> m = Inr a"
  by (cases m) auto

text \<open>The loop \<^verbatim>\<open>for _, x := range xs { if err := f(x); err != nil { return err } }\<close>,
  collecting the results.\<close>

fun rmap :: "('a \<Rightarrow> 'b res) \<Rightarrow> 'a list \<Rightarrow> 'b list res" where
  "rmap f [] = Inr []"
| "rmap f (x # xs) = rbind (f x) (\<lambda>y. rbind (rmap f xs) (\<lambda>ys. Inr (y # ys)))"

lemma rmap_eq_Inr:
  "rmap f xs = Inr ys \<longleftrightarrow> list_all2 (\<lambda>x y. f x = Inr y) xs ys"
proof (induction xs arbitrary: ys)
  case (Cons x xs)
  show ?case
    by (cases ys) (auto simp: rbind_eq_Inr Cons.IH)
qed auto

section \<open>Lists without repetition, in the order of first use\<close>

text \<open>
  The idiom \<^verbatim>\<open>if !seen[x] { seen[x] = true; out = append(out, x) }\<close> keeps the first
  occurrence of every element.
\<close>

fun first_uses_from :: "'a list \<Rightarrow> 'a list \<Rightarrow> 'a list" where
  "first_uses_from seen [] = []"
| "first_uses_from seen (x # xs) =
     (if x \<in> set seen then first_uses_from seen xs
      else x # first_uses_from (x # seen) xs)"

definition first_uses :: "'a list \<Rightarrow> 'a list" where
  "first_uses = first_uses_from []"

lemma set_first_uses_from: "set (first_uses_from seen xs) = set xs - set seen"
  by (induction xs arbitrary: seen) auto

lemma distinct_first_uses_from: "distinct (first_uses_from seen xs)"
  by (induction xs arbitrary: seen) (auto simp: set_first_uses_from)

lemma set_first_uses [simp]: "set (first_uses xs) = set xs"
  by (simp add: first_uses_def set_first_uses_from)

lemma distinct_first_uses [simp]: "distinct (first_uses xs)"
  by (simp add: first_uses_def distinct_first_uses_from)

lemma first_uses_id: "distinct xs \<Longrightarrow> set xs \<inter> set seen = {} \<Longrightarrow> first_uses_from seen xs = xs"
  by (induction xs arbitrary: seen) auto

lemma set_map_filter: "set (List.map_filter f xs) = {y. \<exists>x\<in>set xs. f x = Some y}"
  by (induction xs) (auto simp: List.map_filter_simps split: option.splits)

section \<open>Association lists\<close>

lemma map_of_update [simp]: "map_of (AList.update k v m) = (map_of m)(k \<mapsto> v)"
  by (rule AList.update_conv')

lemma map_of_delete [simp]: "map_of (AList.delete k m) = (map_of m)(k := None)"
  by (rule AList.delete_conv')

lemma map_of_filter_key:
  "map_of (filter (\<lambda>(k, v). P k) m) k = (if P k then map_of m k else None)"
  by (induction m) auto

end
