(* ===== verification/GoLib.thy ===== *)
theory GoLib
  imports Prelude
begin

text \<open>
  The functions of Go's standard library the modelled code calls on strings:
  strconv.Itoa, strings.ReplaceAll, strings.Index, strings.Cut, strings.HasPrefix,
  strings.TrimSpace, strings.Join, the conversion []rune(s), fmt's quoted verb and json.Marshal.
\<close>

section \<open>Numbers\<close>

definition digit :: "nat \<Rightarrow> char" where
  "digit n = ''0123456789abcdef'' ! n"

function show_nat :: "nat \<Rightarrow> string" where
  "show_nat n = (if n < 10 then [digit n] else show_nat (n div 10) @ [digit (n mod 10)])"
  by auto
termination by (relation "measure id") auto

declare show_nat.simps [simp del, golib]

definition itoa :: "int \<Rightarrow> string" where
  "itoa i = (if i < 0 then ''-'' @ show_nat (nat (- i)) else show_nat (nat i))"

section \<open>Searching and replacing\<close>

fun has_prefix :: "string \<Rightarrow> string \<Rightarrow> bool" where
  "has_prefix s [] = True"
| "has_prefix [] (p # ps) = False"
| "has_prefix (c # s) (p # ps) = (c = p \<and> has_prefix s ps)"

lemma has_prefix_iff: "has_prefix s p \<longleftrightarrow> (\<exists>r. s = p @ r)"
  by (induction s p rule: has_prefix.induct) auto

text \<open>strings.ReplaceAll with a non-empty \<^verbatim>\<open>old\<close> (every caller passes one): the leftmost
  occurrence is replaced and the search goes on behind it.\<close>

function replace_all :: "string \<Rightarrow> string \<Rightarrow> string \<Rightarrow> string" where
  "replace_all [] old new = []"
| "replace_all (c # s) old new =
     (if old \<noteq> [] \<and> has_prefix (c # s) old
      then new @ replace_all (drop (length old) (c # s)) old new
      else c # replace_all s old new)"
  by pat_completeness auto
termination
  by (relation "measure (\<lambda>(s, _, _). length s)")
     (auto simp: has_prefix_iff Suc_diff_le)

lemma replace_all_one:
  "replace_all (x # s) [c] new =
     (if x = c then new @ replace_all s [c] new else x # replace_all s [c] new)"
  by (subst replace_all.simps) simp

lemma replace_all_single:
  "replace_all s [c] new = concat (map (\<lambda>x. if x = c then new else [x]) s)"
  by (induction s) (simp_all add: replace_all_one del: replace_all.simps(2))

text \<open>strings.Cut at a one-character separator.\<close>

fun cut_at :: "char \<Rightarrow> string \<Rightarrow> (string \<times> string) option" where
  "cut_at c [] = None"
| "cut_at c (x # xs) =
     (if x = c then Some ([], xs)
      else map_option (\<lambda>(a, b). (x # a, b)) (cut_at c xs))"

lemma cut_at_Some: "cut_at c s = Some (a, b) \<longleftrightarrow> s = a @ c # b \<and> c \<notin> set a"
proof (induction s arbitrary: a)
  case (Cons x xs)
  show ?case
    by (cases a) (auto simp: Cons.IH)
qed simp

lemma cut_at_None: "cut_at c s = None \<longleftrightarrow> c \<notin> set s"
  by (induction s) auto

lemma cut_at_append [simp]: "c \<notin> set a \<Longrightarrow> cut_at c (a @ c # b) = Some (a, b)"
  by (simp add: cut_at_Some)

fun join_with :: "string \<Rightarrow> string list \<Rightarrow> string" where
  "join_with sep [] = []"
| "join_with sep [x] = x"
| "join_with sep (x # y # zs) = x @ sep @ join_with sep (y # zs)"

section \<open>UTF-8\<close>

definition byte :: "char \<Rightarrow> int" where
  "byte c = of_char c"

definition cont_byte :: "int \<Rightarrow> bool" where
  "cont_byte b \<longleftrightarrow> 128 \<le> b \<and> b \<le> 191"

text \<open>utf8.DecodeRune: the rune and its width; an invalid encoding is RuneError (65533)
  of width 1.\<close>

definition decode_rune2 :: "int \<Rightarrow> int list \<Rightarrow> (int \<times> nat) option" where
  "decode_rune2 b bs = (case bs of
      c1 # _ \<Rightarrow> if 194 \<le> b \<and> b \<le> 223 \<and> cont_byte c1
                then Some ((b - 192) * 64 + (c1 - 128), 2) else None
    | _ \<Rightarrow> None)"

definition decode_rune3 :: "int \<Rightarrow> int list \<Rightarrow> (int \<times> nat) option" where
  "decode_rune3 b bs = (case bs of
      c1 # c2 # _ \<Rightarrow>
        if 224 \<le> b \<and> b \<le> 239 \<and> cont_byte c1 \<and> cont_byte c2
           \<and> (b = 224 \<longrightarrow> 160 \<le> c1) \<and> (b = 237 \<longrightarrow> c1 \<le> 159)
        then Some ((b - 224) * 4096 + (c1 - 128) * 64 + (c2 - 128), 3) else None
    | _ \<Rightarrow> None)"

definition decode_rune4 :: "int \<Rightarrow> int list \<Rightarrow> (int \<times> nat) option" where
  "decode_rune4 b bs = (case bs of
      c1 # c2 # c3 # _ \<Rightarrow>
        if 240 \<le> b \<and> b \<le> 244 \<and> cont_byte c1 \<and> cont_byte c2 \<and> cont_byte c3
           \<and> (b = 240 \<longrightarrow> 144 \<le> c1) \<and> (b = 244 \<longrightarrow> c1 \<le> 143)
        then Some ((b - 240) * 262144 + (c1 - 128) * 4096 + (c2 - 128) * 64 + (c3 - 128), 4)
        else None
    | _ \<Rightarrow> None)"

definition decode_rune :: "int \<Rightarrow> int list \<Rightarrow> int \<times> nat" where
  "decode_rune b bs =
     (if b < 128 then (b, 1)
      else case decode_rune2 b bs of Some r \<Rightarrow> r
      | None \<Rightarrow> (case decode_rune3 b bs of Some r \<Rightarrow> r
      | None \<Rightarrow> (case decode_rune4 b bs of Some r \<Rightarrow> r
      | None \<Rightarrow> (65533, 1))))"

text \<open>A string cut into its runes, each with the bytes that encode it.\<close>

function segments :: "string \<Rightarrow> (int \<times> string) list" where
  "segments [] = []"
| "segments (c # cs) =
     (let (r, w) = decode_rune (byte c) (map byte cs)
      in (r, c # take (w - 1) cs) # segments (drop (w - 1) cs))"
  by pat_completeness auto
termination by (relation "measure length") auto

definition runes :: "string \<Rightarrow> int list" where
  "runes s = map fst (segments s)"

lemma concat_segments [simp]: "concat (map snd (segments s)) = s"
  by (induction s rule: segments.induct) (auto simp: Let_def split: prod.splits)

definition is_ascii :: "string \<Rightarrow> bool" where
  "is_ascii s \<longleftrightarrow> list_all (\<lambda>c. byte c < 128) s"

lemma segments_ascii: "is_ascii s \<Longrightarrow> segments s = map (\<lambda>c. (byte c, [c])) s"
  by (induction s) (auto simp: is_ascii_def decode_rune_def)

lemma runes_ascii: "is_ascii s \<Longrightarrow> runes s = map byte s"
  by (simp add: runes_def segments_ascii)

text \<open>unicode.IsSpace.\<close>

definition is_space :: "int \<Rightarrow> bool" where
  "is_space r \<longleftrightarrow> (9 \<le> r \<and> r \<le> 13) \<or> (8192 \<le> r \<and> r \<le> 8202)
     \<or> r \<in> set [32, 133, 160, 5760, 8232, 8233, 8239, 8287, 12288]"

definition trim_space :: "string \<Rightarrow> string" where
  "trim_space s =
     concat (map snd (rev (dropWhile (\<lambda>p. is_space (fst p))
       (rev (dropWhile (\<lambda>p. is_space (fst p)) (segments s))))))"

section \<open>Quoting\<close>

definition hex2 :: "int \<Rightarrow> string" where
  "hex2 n = [digit (nat (n div 16)), digit (nat (n mod 16))]"

text \<open>fmt's quoted verb on a string whose runes above 127 are printable (they are kept).\<close>

definition quote_seg :: "int \<times> string \<Rightarrow> string" where
  "quote_seg p = (let (r, bs) = p in
     if r = 34 then [CHR 0x5C, CHR 0x22]
     else if r = 92 then [CHR 0x5C, CHR 0x5C]
     else if r = 7 then CHR 0x5C # ''a''
     else if r = 8 then CHR 0x5C # ''b''
     else if r = 12 then CHR 0x5C # ''f''
     else if r = 10 then CHR 0x5C # ''n''
     else if r = 13 then CHR 0x5C # ''r''
     else if r = 9 then CHR 0x5C # ''t''
     else if r = 11 then CHR 0x5C # ''v''
     else if r < 32 \<or> r = 127 then CHR 0x5C # ''x'' @ hex2 r
     else if r = 65533 \<and> length bs = 1 then CHR 0x5C # ''x'' @ hex2 (byte (hd bs))
     else bs)"

definition quote :: "string \<Rightarrow> string" where
  "quote s = CHR 0x22 # concat (map quote_seg (segments s)) @ [CHR 0x22]"

section \<open>json.Marshal\<close>

definition json_seg :: "int \<times> string \<Rightarrow> string" where
  "json_seg p = (let (r, bs) = p in
     if r = 34 then [CHR 0x5C, CHR 0x22]
     else if r = 92 then [CHR 0x5C, CHR 0x5C]
     else if r = 8 then CHR 0x5C # ''b''
     else if r = 12 then CHR 0x5C # ''f''
     else if r = 10 then CHR 0x5C # ''n''
     else if r = 13 then CHR 0x5C # ''r''
     else if r = 9 then CHR 0x5C # ''t''
     else if r < 32 \<or> r = 60 \<or> r = 62 \<or> r = 38 then CHR 0x5C # ''u00'' @ hex2 r
     else if r = 8232 then CHR 0x5C # ''u2028''
     else if r = 8233 then CHR 0x5C # ''u2029''
     else if r = 65533 \<and> length bs = 1 then CHR 0x5C # ''ufffd''
     else bs)"

definition json_string :: "string \<Rightarrow> string" where
  "json_string s = CHR 0x22 # concat (map json_seg (segments s)) @ [CHR 0x22]"

text \<open>A map is printed with its keys sorted; NaN and the infinities cannot be encoded.\<close>

definition json_float :: "string \<Rightarrow> string res" where
  "json_float t = (if t \<in> {''NaN'', ''+Inf'', ''-Inf''}
     then Inl (errorf (''json: unsupported value: '' @ t)) else Inr t)"

primrec json_marshal :: "value \<Rightarrow> string res" where
  "json_marshal VNull = Inr ''null''"
| "json_marshal (VBool b) = Inr (if b then ''true'' else ''false'')"
| "json_marshal (VInt i) = Inr (itoa i)"
| "json_marshal (VFloat t) = json_float t"
| "json_marshal (VStr s) = Inr (json_string s)"
| "json_marshal (VArr vs) =
     rbind (rmap id (map json_marshal vs)) (\<lambda>ts.
     Inr (''['' @ join_with '','' ts @ '']''))"
| "json_marshal (VObj m) =
     rbind (rmap (\<lambda>(k, r). rbind r (\<lambda>t. Inr (json_string k @ '':'' @ t)))
              (sort_key fst (AList.clearjunk (map (\<lambda>p. map_prod id json_marshal p) m)))) (\<lambda>ts.
     Inr (''{'' @ join_with '','' ts @ ''}''))"

end
