(* ===== verification/Wafer.thy ===== *)
theory Wafer
  imports GoLib
begin

text \<open>
  The workflow artifact (internal/wafer/wafer.go): the parsed model, its decoding from
  the YAML tree, and the secret names it refers to. The YAML decoder is a parameter.
\<close>

section \<open>The parsed workflow\<close>

record trigger =
  tr_type :: string
  tr_config :: "(string \<times> value) list"

record node =
  n_type :: string
  n_name :: string
  n_dedupe_key :: string
  n_depends_on :: "string list"
  n_secrets :: "string list"
  n_config :: "(string \<times> value) list"

record wafer =
  w_name :: string
  w_on :: "trigger list"
  w_nodes :: "node list"
  w_on_failure :: string

section \<open>Decoding\<close>

definition copyMap :: "(string \<times> value) list \<Rightarrow> string list \<Rightarrow> (string \<times> value) list" where
  "copyMap m skip = filter (\<lambda>(k, v). k \<notin> set skip) m"

text \<open>The elements of a list that are strings, the others skipped.\<close>

definition strings_of :: "value option \<Rightarrow> string list" where
  "strings_of v = (case as_arr v of
      None \<Rightarrow> []
    | Some vs \<Rightarrow> List.map_filter (\<lambda>x. as_str (Some x)) vs)"

definition trigger_of :: "(string \<times> value) list \<Rightarrow> trigger" where
  "trigger_of m = \<lparr> tr_type = str_or_empty (map_of m ''type''),
                    tr_config = copyMap m [''type''] \<rparr>"

definition node_of :: "(string \<times> value) list \<Rightarrow> node" where
  "node_of m = \<lparr>
     n_type = str_or_empty (map_of m ''type''),
     n_name = str_or_empty (map_of m ''name''),
     n_dedupe_key = str_or_empty (map_of m ''dedupe_key''),
     n_depends_on = strings_of (map_of m ''depends_on''),
     n_secrets = strings_of (map_of m ''secrets''),
     n_config = copyMap m [''type'', ''name'', ''dedupe_key'', ''depends_on'', ''secrets''] \<rparr>"

definition objects_of :: "value option \<Rightarrow> (string \<times> value) list list" where
  "objects_of v = (case as_arr v of
      None \<Rightarrow> []
    | Some vs \<Rightarrow> List.map_filter (\<lambda>x. as_obj (Some x)) vs)"

definition fromRaw :: "(string \<times> value) list \<Rightarrow> wafer" where
  "fromRaw raw = \<lparr>
     w_name = str_or_empty (map_of raw ''name''),
     w_on = map trigger_of (objects_of (map_of raw ''triggers'')),
     w_nodes = map node_of (objects_of (map_of raw ''nodes'')),
     w_on_failure = str_or_empty (map_of raw ''on_failure'') \<rparr>"

text \<open>The decoder into a map is the parameter \<^verbatim>\<open>unmarshal\<close>.\<close>

definition Parse :: "(string \<Rightarrow> (string \<times> value) list res) \<Rightarrow> string \<Rightarrow> wafer res" where
  "Parse unmarshal data =
     rbind (map_err (wrap ''parse wafer: '') (unmarshal data)) (\<lambda>raw. Inr (fromRaw raw))"

section \<open>Referenced secrets\<close>

definition ReferencedSecrets :: "wafer \<Rightarrow> string list" where
  "ReferencedSecrets w = first_uses (filter (\<lambda>s. s \<noteq> [])
     (concat (map n_secrets (w_nodes w)) @
      List.map_filter (\<lambda>tr. as_str (map_of (tr_config tr) ''secret'')) (w_on w)))"

section \<open>Lemmas\<close>

lemma map_of_copyMap: "map_of (copyMap m skip) k = (if k \<in> set skip then None else map_of m k)"
  unfolding copyMap_def by (subst map_of_filter_key) simp

lemma set_strings_of: "set (strings_of v) = {s. \<exists>vs. v = Some (VArr vs) \<and> VStr s \<in> set vs}"
  by (auto simp: strings_of_def set_map_filter split: option.splits)
     (metis as_arr_Some_iff option.distinct(1))

lemma set_ReferencedSecrets:
  "set (ReferencedSecrets w) =
     {s. s \<noteq> '''' \<and> ((\<exists>n\<in>set (w_nodes w). s \<in> set (n_secrets n))
        \<or> (\<exists>tr\<in>set (w_on w). map_of (tr_config tr) ''secret'' = Some (VStr s)))}"
  by (auto simp: ReferencedSecrets_def set_map_filter)

end
