(* ===== verification/Dag.thy ===== *)
theory Dag
  imports Wafer
begin

text \<open>
  The dependency graph of a workflow and its run order (internal/wafer/dag.go):
  ResolveDAG reports duplicate names and unknown references, builds the adjacency
  lists and the in-degrees, and orders the nodes with Kahn's algorithm. The lemmas
  show the loop terminates and that what it leaves over is exactly what a cycle blocks.
\<close>

section \<open>Issues\<close>

text \<open>The structured finding of validate.go, which ResolveDAG also reports.\<close>

record issue =
  i_path :: string
  i_code :: string
  i_message :: string
  i_expected :: string
  i_suggestion :: string

abbreviation mk_issue :: "string \<Rightarrow> string \<Rightarrow> string \<Rightarrow> string \<Rightarrow> string \<Rightarrow> issue" where
  "mk_issue p c m e s \<equiv> \<lparr> i_path = p, i_code = c, i_message = m, i_expected = e, i_suggestion = s \<rparr>"

section \<open>Identifiers\<close>

definition nodeID :: "wafer \<Rightarrow> nat \<Rightarrow> string" where
  "nodeID w i = (if n_name (w_nodes w ! i) \<noteq> '''' then n_name (w_nodes w ! i) else show_nat i)"

definition duplicate_issue :: "nat \<Rightarrow> issue" where
  "duplicate_issue i = mk_issue (''/nodes/'' @ show_nat i @ ''/name'') ''duplicate_node_name''
     ''node name is used by more than one node'' '''' ''''"

text \<open>The first loop: the index of every named node, the first occurrence winning.\<close>

definition index_node :: "wafer \<Rightarrow> nat \<Rightarrow> issue list \<times> (string \<times> nat) list
    \<Rightarrow> issue list \<times> (string \<times> nat) list" where
  "index_node w i st = (let (issues, idx) = st; ident = nodeID w i in
     if map_of idx ident \<noteq> None then (issues @ [duplicate_issue i], idx)
     else if n_name (w_nodes w ! i) \<noteq> '''' then (issues, AList.update ident i idx)
     else st)"

definition index_names :: "wafer \<Rightarrow> issue list \<times> (string \<times> nat) list" where
  "index_names w = fold (index_node w) [0..<length (w_nodes w)] ([], [])"

section \<open>The graph\<close>

record graph =
  g_issues :: "issue list"
  g_deps :: "string list list"
  g_adj :: "nat list list"
  g_indeg :: "int list"

definition unknown_issue :: "nat \<Rightarrow> string \<Rightarrow> issue" where
  "unknown_issue i dep = mk_issue (''/nodes/'' @ show_nat i @ ''/depends_on'') ''unknown_node_reference''
     (''node depends on unknown node '' @ dep) '''' dep"

definition add_dep :: "(string \<Rightarrow> nat option) \<Rightarrow> nat \<Rightarrow> string \<Rightarrow> graph \<Rightarrow> graph" where
  "add_dep idx i dep g = (case idx dep of
      None \<Rightarrow> g\<lparr> g_issues := g_issues g @ [unknown_issue i dep] \<rparr>
    | Some j \<Rightarrow> g\<lparr> g_deps := (g_deps g)[i := g_deps g ! i @ [dep]],
                 g_adj := (g_adj g)[j := g_adj g ! j @ [i]],
                 g_indeg := (g_indeg g)[i := g_indeg g ! i + 1] \<rparr>)"

definition add_node_deps :: "wafer \<Rightarrow> (string \<Rightarrow> nat option) \<Rightarrow> nat \<Rightarrow> graph \<Rightarrow> graph" where
  "add_node_deps w idx i g = fold (add_dep idx i) (first_uses (n_depends_on (w_nodes w ! i))) g"

definition build_graph :: "wafer \<Rightarrow> graph" where
  "build_graph w = (let (issues, idx) = index_names w; n = length (w_nodes w) in
     fold (add_node_deps w (map_of idx)) [0..<n]
       \<lparr> g_issues = issues, g_deps = replicate n [], g_adj = replicate n [],
         g_indeg = replicate n 0 \<rparr>)"

section \<open>Kahn's algorithm\<close>

text \<open>
  Taking a node lowers the in-degree of each of its successors and queues those that
  reach zero. The adjacency lists hold indices of nodes only (\<^verbatim>\<open>graph_adj_bound\<close>
  below), so the guard on the index is never false.
\<close>

fun relax :: "nat list \<Rightarrow> int list \<Rightarrow> nat list \<Rightarrow> int list \<times> nat list" where
  "relax [] indeg q = (indeg, q)"
| "relax (m # ms) indeg q =
     (if m < length indeg then
        let d = indeg ! m - 1 in relax ms (indeg[m := d]) (if d = 0 then q @ [m] else q)
      else relax ms indeg q)"

definition positives :: "int list \<Rightarrow> nat set" where
  "positives indeg = {m. m < length indeg \<and> indeg ! m > 0}"

lemma finite_positives [simp]: "finite (positives indeg)"
  by (simp add: positives_def)

lemma length_relax [simp]: "length (fst (relax ms indeg q)) = length indeg"
  by (induction ms indeg q rule: relax.induct) (auto simp: Let_def)

text \<open>Every node queued leaves the set of nodes with a positive in-degree.\<close>

lemma relax_measure:
  "length (snd (relax ms indeg q)) + card (positives (fst (relax ms indeg q)))
     \<le> length q + card (positives indeg)"
proof (induction ms indeg q rule: relax.induct)
  case (2 m ms indeg q)
  show ?case
  proof (cases "m < length indeg")
    case True
    let ?d = "indeg ! m - 1"
    have sub: "positives (indeg[m := ?d]) \<subseteq> positives indeg"
      using True by (auto simp: positives_def nth_list_update split: if_splits)
    have "card (positives (indeg[m := ?d])) \<le> card (positives indeg)"
      using sub by (simp add: card_mono)
    moreover have "card (positives (indeg[m := ?d])) < card (positives indeg)" if "?d = 0"
    proof (rule psubset_card_mono)
      have "m \<in> positives indeg" "m \<notin> positives (indeg[m := ?d])"
        using True that by (auto simp: positives_def)
      with sub show "positives (indeg[m := ?d]) \<subset> positives indeg"
        by blast
    qed simp
    ultimately show ?thesis
      using 2(1) [OF True refl] True by (auto simp: Let_def)
  next
    case False
    then show ?thesis using 2(2) by simp
  qed
qed simp

function kahn :: "nat list list \<Rightarrow> nat list \<Rightarrow> int list \<Rightarrow> nat list \<Rightarrow> nat list \<times> int list" where
  "kahn adj [] indeg order = (order, indeg)"
| "kahn adj (n # q) indeg order =
     (let (indeg', q') = relax (adj ! n) indeg q in kahn adj q' indeg' (order @ [n]))"
  by pat_completeness auto
termination
proof (relation "measure (\<lambda>(_, q, indeg, _). length q + card (positives indeg))")
  fix adj :: "nat list list" and n q indeg order x indeg' q'
  assume "x = relax (adj ! n) indeg q" and "(indeg', q') = x"
  then show "((adj, q', indeg', order @ [n]), adj, n # q, indeg, order)
      \<in> measure (\<lambda>(_, q, indeg, _). length q + card (positives indeg))"
    using relax_measure [of "adj ! n" indeg q] by (metis (no_types, lifting) add_Suc fst_conv
      in_measure le_imp_less_Suc length_Cons old.prod.case snd_conv)
qed simp

section \<open>ResolveDAG\<close>

record dag_node =
  dn_name :: string
  dn_type :: string
  dn_depends_on :: "string list"
  dn_index :: nat

definition zero_nodes :: "int list \<Rightarrow> nat list" where
  "zero_nodes indeg = filter (\<lambda>i. indeg ! i = 0) [0..<length indeg]"

definition cycle_issue :: "wafer \<Rightarrow> int list \<Rightarrow> issue" where
  "cycle_issue w indeg = mk_issue ''/nodes'' ''circular_dependency''
     (''circular dependency among nodes: '' @
        join_with '', '' (map (nodeID w) (filter (\<lambda>i. indeg ! i > 0) [0..<length indeg]))) '''' ''''"

definition dag_node_at :: "wafer \<Rightarrow> graph \<Rightarrow> nat \<Rightarrow> dag_node" where
  "dag_node_at w g i = \<lparr> dn_name = nodeID w i, dn_type = n_type (w_nodes w ! i),
     dn_depends_on = g_deps g ! i, dn_index = i \<rparr>"

definition ResolveDAG :: "wafer \<Rightarrow> dag_node list \<times> issue list" where
  "ResolveDAG w = (let g = build_graph w;
       (order, indeg) = kahn (g_adj g) (zero_nodes (g_indeg g)) (g_indeg g) [] in
     if length order \<noteq> length (w_nodes w) then ([], g_issues g @ [cycle_issue w indeg])
     else (map (dag_node_at w g) order, g_issues g))"

section \<open>What Kahn's algorithm computes\<close>

lemma relax_nth:
  assumes "\<forall>m\<in>set ms. m < length indeg" and "k < length indeg"
  shows "fst (relax ms indeg q) ! k = indeg ! k - int (count_list ms k)"
  using assms by (induction ms indeg q rule: relax.induct) (auto simp: Let_def)

lemma relax_queue:
  assumes "\<forall>m\<in>set ms. m < length indeg"
    and "\<forall>k<length indeg. int (count_list ms k) \<le> indeg ! k"
  shows "\<exists>new. snd (relax ms indeg q) = q @ new \<and> distinct new
    \<and> set new = {m \<in> set ms. int (count_list ms m) = indeg ! m}"
  using assms
proof (induction ms indeg q rule: relax.induct)
  case (2 m ms indeg q)
  let ?d = "indeg ! m - 1" and ?q = "if indeg ! m - 1 = 0 then q @ [m] else q"
  have m: "m < length indeg" using 2(3) by simp
  have le: "\<forall>k<length (indeg[m := ?d]). int (count_list ms k) \<le> indeg[m := ?d] ! k"
    using 2(4) m by (auto simp: nth_list_update split: if_splits)
  obtain new where new: "snd (relax ms (indeg[m := ?d]) ?q) = ?q @ new" "distinct new"
      "set new = {k \<in> set ms. int (count_list ms k) = indeg[m := ?d] ! k}"
    using 2(1) [OF m refl] le 2(3) by auto
  show ?case
  proof (cases "?d = 0")
    case True
    have "count_list ms m = 0"
      using 2(4) m True by auto
    then have "m \<notin> set ms" by (simp add: count_list_0_iff)
    have "indeg ! m = 1" using True by simp
    then have "(k = m \<or> k \<in> set ms \<and> int (count_list ms k) = indeg[m := ?d] ! k)
        \<longleftrightarrow> (k \<in> set (m # ms) \<and> int (count_list (m # ms) k) = indeg ! k)" for k
      using \<open>m \<notin> set ms\<close> \<open>count_list ms m = 0\<close> m by (cases "k = m") auto
    then have "set (m # new) = {k \<in> set (m # ms). int (count_list (m # ms) k) = indeg ! k}"
      unfolding list.set new(3) by blast
    moreover have "distinct (m # new)" using new \<open>m \<notin> set ms\<close> by auto
    ultimately show ?thesis
      using new(1) True m by (intro exI [of _ "m # new"]) (simp add: Let_def)
  next
    case False
    have "(k \<in> set ms \<and> int (count_list ms k) = indeg[m := ?d] ! k)
        \<longleftrightarrow> (k \<in> set (m # ms) \<and> int (count_list (m # ms) k) = indeg ! k)" for k
      using False m count_list_0_iff [of ms m] by (cases "k = m") auto
    then have "set new = {k \<in> set (m # ms). int (count_list (m # ms) k) = indeg ! k}"
      unfolding new(3) by blast
    then show ?thesis
      using new(1,2) False m by (intro exI [of _ new]) (simp add: Let_def)
  qed
qed simp

text \<open>The edges into \<^verbatim>\<open>m\<close> from the nodes in \<^verbatim>\<open>S\<close>.\<close>

definition edges_into :: "nat list list \<Rightarrow> nat set \<Rightarrow> nat \<Rightarrow> nat" where
  "edges_into adj S m = (\<Sum>n\<in>S. count_list (adj ! n) m)"

definition kahn_inv :: "nat list list \<Rightarrow> nat list \<Rightarrow> nat list \<Rightarrow> int list \<Rightarrow> bool" where
  "kahn_inv adj order q indeg \<longleftrightarrow>
     length indeg = length adj
   \<and> (\<forall>n<length adj. \<forall>m\<in>set (adj ! n). m < length adj)
   \<and> distinct (order @ q) \<and> set (order @ q) \<subseteq> {..<length adj}
   \<and> (\<forall>m<length adj. indeg ! m = int (edges_into adj ({..<length adj} - set order) m))
   \<and> (\<forall>m<length adj. m \<in> set (order @ q) \<longleftrightarrow> indeg ! m = 0)
   \<and> (\<forall>i<length order. \<forall>j<length adj. order ! i \<in> set (adj ! j) \<longrightarrow> j \<in> set (take i order))"

lemma edges_into_0_iff:
  "finite S \<Longrightarrow> edges_into adj S m = 0 \<longleftrightarrow> (\<forall>n\<in>S. m \<notin> set (adj ! n))"
  by (simp add: edges_into_def count_list_0_iff)

lemma kahn_inv_start:
  assumes "length indeg = length adj"
    and "\<forall>n<length adj. \<forall>m\<in>set (adj ! n). m < length adj"
    and "\<forall>m<length adj. indeg ! m = int (edges_into adj {..<length adj} m)"
  shows "kahn_inv adj [] (zero_nodes indeg) indeg"
  using assms by (auto simp: kahn_inv_def zero_nodes_def)

lemma kahn_inv_step:
  assumes inv: "kahn_inv adj order (n # q) indeg"
    and r: "relax (adj ! n) indeg q = (indeg', q')"
  shows "kahn_inv adj (order @ [n]) q' indeg'"
proof -
  let ?N = "length adj" and ?ms = "adj ! n" and ?S = "{..<length adj} - set order"
  from inv have len: "length indeg = ?N" and rng: "\<forall>n<?N. \<forall>m\<in>set (adj ! n). m < ?N"
    and dist: "distinct (order @ n # q)" and sub: "set (order @ n # q) \<subseteq> {..<?N}"
    and deg: "\<forall>m<?N. indeg ! m = int (edges_into adj ?S m)"
    and zero: "\<forall>m<?N. m \<in> set (order @ n # q) \<longleftrightarrow> indeg ! m = 0"
    and topo: "\<forall>i<length order. \<forall>j<?N. order ! i \<in> set (adj ! j) \<longrightarrow> j \<in> set (take i order)"
    by (simp_all add: kahn_inv_def)
  have n: "n < ?N" "n \<in> ?S" using dist sub by auto
  have split: "edges_into adj ?S m = count_list ?ms m + edges_into adj (?S - {n}) m" for m
    unfolding edges_into_def using n by (simp add: sum.remove)
  have S': "{..<?N} - set (order @ [n]) = ?S - {n}" by auto
  have inds: "\<forall>m\<in>set ?ms. m < length indeg" using rng n len by auto
  have le: "\<forall>k<length indeg. int (count_list ?ms k) \<le> indeg ! k"
    using deg split len by simp
  have len': "length indeg' = ?N" using length_relax [of ?ms indeg q] r len by simp
  have deg': "\<forall>m<?N. indeg' ! m = int (edges_into adj (?S - {n}) m)"
  proof (intro allI impI)
    fix m assume m: "m < ?N"
    then have "indeg' ! m = indeg ! m - int (count_list ?ms m)"
      using relax_nth [OF inds, of m q] r len by simp
    moreover have "indeg ! m = int (edges_into adj ?S m)" using deg m by blast
    ultimately show "indeg' ! m = int (edges_into adj (?S - {n}) m)"
      using split [of m] by linarith
  qed
  obtain new where new: "q' = q @ new" "distinct new"
      "set new = {m \<in> set ?ms. int (count_list ?ms m) = indeg ! m}"
    using relax_queue [OF inds le, of q] r by auto
  have fresh: "set new \<inter> set (order @ n # q) = {}"
  proof -
    have "indeg ! m \<noteq> 0" if "m \<in> set new" for m
      using that new(3) by (metis (mono_tags, lifting) count_list_0_iff mem_Collect_eq of_nat_0_eq_iff)
    moreover have "indeg ! m = 0" if "m \<in> set (order @ n # q)" for m
    proof -
      have "m < ?N" using that sub by blast
      with zero that show ?thesis by blast
    qed
    ultimately show ?thesis by (intro equals0I) (metis IntE)
  qed
  have zero': "m \<in> set (order @ n # q) \<union> set new \<longleftrightarrow> indeg' ! m = 0" if m: "m < ?N" for m
  proof -
    have d: "indeg' ! m = indeg ! m - int (count_list ?ms m)"
      using relax_nth [OF inds, of m q] r m len by simp
    show ?thesis
    proof (cases "indeg ! m = 0")
      case True
      moreover have "int (count_list ?ms m) \<le> indeg ! m" using le m len by simp
      ultimately have "indeg' ! m = 0" using d by linarith
      moreover have "m \<in> set (order @ n # q)" using zero [rule_format, OF m] True by (rule iffD2)
      ultimately show ?thesis by blast
    next
      case False
      then have "m \<in> set new \<longleftrightarrow> int (count_list ?ms m) = indeg ! m"
        using new(3) False count_list_0_iff [of ?ms m] by (cases "m \<in> set ?ms") simp_all
      moreover have "m \<notin> set (order @ n # q)" using zero [rule_format, OF m] False by simp
      ultimately have "m \<in> set (order @ n # q) \<union> set new \<longleftrightarrow> int (count_list ?ms m) = indeg ! m"
        by blast
      then show ?thesis using d by linarith
    qed
  qed
  have preds: "j \<in> set order" if "j < ?N" "n \<in> set (adj ! j)" for j
  proof -
    have "edges_into adj ?S n = 0" using zero deg n by auto
    then show ?thesis using that by (auto simp: edges_into_0_iff)
  qed
  have topo': "\<forall>i<length (order @ [n]). \<forall>j<?N. (order @ [n]) ! i \<in> set (adj ! j)
      \<longrightarrow> j \<in> set (take i (order @ [n]))"
    using topo preds by (auto simp: nth_append less_Suc_eq)
  have "distinct ((order @ [n]) @ q')" "set ((order @ [n]) @ q') \<subseteq> {..<?N}"
    using dist sub new fresh inds len by auto
  moreover have "\<forall>m<?N. m \<in> set ((order @ [n]) @ q') \<longleftrightarrow> indeg' ! m = 0"
    using zero' new(1) by auto
  ultimately show ?thesis
    unfolding kahn_inv_def S' using len' rng deg' topo' by blast
qed

lemma kahn_inv_end:
  "kahn_inv adj order q indeg \<Longrightarrow>
     kahn_inv adj (fst (kahn adj q indeg order)) [] (snd (kahn adj q indeg order))"
proof (induction adj q indeg order rule: kahn.induct)
  case (2 adj n q indeg order)
  then show ?case
    by (cases "relax (adj ! n) indeg q") (auto dest: kahn_inv_step)
qed simp

text \<open>
  The order holds every node exactly when the graph has no cycle: a node left over has
  a predecessor left over, and going back for ever in a finite set closes a cycle.
\<close>

definition edge_rel :: "nat list list \<Rightarrow> (nat \<times> nat) set" where
  "edge_rel adj = {(j, i). j < length adj \<and> i \<in> set (adj ! j)}"

lemma kahn_complete_acyclic:
  assumes inv: "kahn_inv adj order [] indeg" and all: "length order = length adj"
  shows "acyclic (edge_rel adj)"
proof -
  have dist: "distinct order" and sub: "set order \<subseteq> {..<length adj}"
    using inv by (auto simp: kahn_inv_def)
  have set_order: "set order = {..<length adj}"
    using sub dist all by (metis card_lessThan card_subset_eq distinct_card finite_lessThan)
  define pos where "pos = (\<lambda>x. THE i. i < length order \<and> order ! i = x)"
  have pos: "pos (order ! i) = i" if "i < length order" for i
    unfolding pos_def using that dist by (auto simp: nth_eq_iff_index_eq)
  have "edge_rel adj \<subseteq> inv_image {(a, b). a < b} pos"
  proof
    fix e assume "e \<in> edge_rel adj"
    then obtain j i where e: "e = (j, i)" "j < length adj" "i \<in> set (adj ! j)"
      by (auto simp: edge_rel_def)
    have "i \<in> set order" using inv e(2,3) by (auto simp: kahn_inv_def set_order)
    then obtain k where k: "k < length order" "order ! k = i" by (auto simp: in_set_conv_nth)
    then have "j \<in> set (take k order)" using inv e by (auto simp: kahn_inv_def)
    then obtain l where "l < k" "order ! l = j"
      using k by (auto simp: in_set_conv_nth)
    then show "e \<in> inv_image {(a, b). a < b} pos"
      using pos [of k] pos [of l] k e by auto
  qed
  moreover have "wf (inv_image {(a :: nat, b). a < b} pos)"
    by (simp add: wf_less wf_inv_image)
  ultimately show ?thesis
    by (metis wf_acyclic wf_subset)
qed

lemma kahn_incomplete_cyclic:
  assumes inv: "kahn_inv adj order [] indeg" and less: "length order \<noteq> length adj"
  shows "\<not> acyclic (edge_rel adj)"
proof
  assume ac: "acyclic (edge_rel adj)"
  have "edge_rel adj \<subseteq> {..<length adj} \<times> {..<length adj}"
    using inv by (auto simp: edge_rel_def kahn_inv_def)
  then have "finite (edge_rel adj)" by (rule finite_subset) simp
  then have wf: "wf (edge_rel adj)" using ac by (rule finite_acyclic_wf)
  let ?left = "{..<length adj} - set order"
  have "?left \<noteq> {}"
  proof
    assume "?left = {}"
    then have "set order = {..<length adj}" using inv by (auto simp: kahn_inv_def)
    moreover have "distinct order" using inv by (simp add: kahn_inv_def)
    ultimately show False using less by (metis card_lessThan distinct_card)
  qed
  then obtain m where m: "m \<in> ?left" and min: "\<And>y. (y, m) \<in> edge_rel adj \<Longrightarrow> y \<notin> ?left"
    using wf by (metis (full_types) wfE_min ex_in_conv)
  have "indeg ! m \<noteq> 0" using m inv by (auto simp: kahn_inv_def)
  then have "edges_into adj ?left m \<noteq> 0" using m inv by (auto simp: kahn_inv_def)
  then obtain y where "y \<in> ?left" "m \<in> set (adj ! y)"
    by (auto simp: edges_into_0_iff)
  then show False using min by (auto simp: edge_rel_def)
qed

section \<open>The index of names\<close>

text \<open>What the index holds: the position of the first node with the name.\<close>

definition first_named_upto :: "wafer \<Rightarrow> nat \<Rightarrow> string \<Rightarrow> nat option" where
  "first_named_upto w k d = find (\<lambda>j. d \<noteq> '''' \<and> n_name (w_nodes w ! j) = d) [0..<k]"

abbreviation first_named :: "wafer \<Rightarrow> string \<Rightarrow> nat option" where
  "first_named w \<equiv> first_named_upto w (length (w_nodes w))"

lemma find_append: "find P (xs @ ys) = (case find P xs of None \<Rightarrow> find P ys | Some x \<Rightarrow> Some x)"
  by (induction xs) auto

lemma first_named_Suc:
  "first_named_upto w (Suc k) d =
     (case first_named_upto w k d of Some j \<Rightarrow> Some j
      | None \<Rightarrow> if d \<noteq> '''' \<and> n_name (w_nodes w ! k) = d then Some k else None)"
  by (simp add: first_named_upto_def find_append split: option.split)

lemma first_named_Some:
  "first_named_upto w k d = Some j \<Longrightarrow> j < k \<and> d \<noteq> '''' \<and> n_name (w_nodes w ! j) = d"
  by (auto simp: first_named_upto_def find_Some_iff)

lemma first_named_None:
  "first_named_upto w k d = None \<longleftrightarrow> (\<forall>j<k. d = '''' \<or> n_name (w_nodes w ! j) \<noteq> d)"
  by (auto simp: first_named_upto_def find_None_iff)

definition ambiguous_at :: "wafer \<Rightarrow> nat \<Rightarrow> bool" where
  "ambiguous_at w i \<longleftrightarrow> (\<exists>j<i. n_name (w_nodes w ! j) \<noteq> '''' \<and> n_name (w_nodes w ! j) = nodeID w i)"

lemma index_names_upto:
  fixes w :: wafer
  defines "st \<equiv> \<lambda>k. fold (index_node w) [0..<k] ([], [])"
  shows "map_of (snd (st k)) = first_named_upto w k
    \<and> fst (st k) = map duplicate_issue (filter (ambiguous_at w) [0..<k])"
proof (induction k)
  case 0
  show ?case by (simp add: st_def first_named_upto_def fun_eq_iff)
next
  case (Suc k)
  obtain issues idx where st: "st k = (issues, idx)" by (cases "st k")
  have idx: "map_of idx = first_named_upto w k"
    and issues: "issues = map duplicate_issue (filter (ambiguous_at w) [0..<k])"
    using Suc st by simp_all
  have step: "st (Suc k) = index_node w k (issues, idx)"
    using st by (simp add: st_def)
  have amb: "ambiguous_at w k \<longleftrightarrow> map_of idx (nodeID w k) \<noteq> None"
    using first_named_None [of w k "nodeID w k"] idx
    by (auto simp: ambiguous_at_def)
  have "first_named_upto w (Suc k) d = (if map_of idx (nodeID w k) = None \<and> n_name (w_nodes w ! k) \<noteq> ''''
      then (map_of idx)(nodeID w k \<mapsto> k) else map_of idx) d" for d
    using idx by (auto simp: first_named_Suc nodeID_def split: option.splits)
  then have "first_named_upto w (Suc k) = (if map_of idx (nodeID w k) = None \<and> n_name (w_nodes w ! k) \<noteq> ''''
      then (map_of idx)(nodeID w k \<mapsto> k) else map_of idx)" by blast
  then show ?case
    using amb issues idx by (auto simp: step index_node_def Let_def)
qed

lemma index_names_map: "map_of (snd (index_names w)) = first_named w"
  and index_names_issues: "fst (index_names w) =
    map duplicate_issue (filter (ambiguous_at w) [0..<length (w_nodes w)])"
  using index_names_upto [of w "length (w_nodes w)"] by (simp_all add: index_names_def)

section \<open>The graph that is built\<close>

text \<open>Sizes agree, edges stay in range, and every in-degree counts the edges into its node.\<close>

definition graph_ok :: "nat \<Rightarrow> graph \<Rightarrow> bool" where
  "graph_ok n g \<longleftrightarrow> length (g_deps g) = n \<and> length (g_adj g) = n \<and> length (g_indeg g) = n
     \<and> (\<forall>j<n. \<forall>i\<in>set (g_adj g ! j). i < n)
     \<and> (\<forall>i<n. g_indeg g ! i = int (edges_into (g_adj g) {..<n} i))"

lemma edges_into_add:
  assumes "j < length adj"
  shows "edges_into (adj[j := adj ! j @ [i]]) {..<length adj} m
    = edges_into adj {..<length adj} m + (if m = i then 1 else 0)"
proof -
  have "edges_into (adj[j := adj ! j @ [i]]) {..<length adj} m
      = (\<Sum>n<length adj. count_list (adj ! n) m + (if n = j \<and> m = i then 1 else 0))"
    unfolding edges_into_def using assms by (intro sum.cong) (auto simp: nth_list_update)
  also have "\<dots> = edges_into adj {..<length adj} m + (if m = i then 1 else 0)"
    using assms by (simp add: edges_into_def sum.distrib)
  finally show ?thesis .
qed

lemma add_dep_ok:
  assumes "graph_ok n g" "i < n" "\<forall>d j. idx d = Some j \<longrightarrow> j < n"
  shows "graph_ok n (add_dep idx i d g)"
proof (cases "idx d")
  case (Some j)
  then have "j < n" using assms(3) by blast
  then show ?thesis
    using assms(1,2) Some edges_into_add [of j "g_adj g" i]
    by (auto simp: graph_ok_def add_dep_def nth_list_update split: if_splits)
qed (use assms in \<open>simp add: graph_ok_def add_dep_def\<close>)

lemma add_deps_ok:
  assumes "graph_ok n g" "i < n" "\<forall>d j. idx d = Some j \<longrightarrow> j < n"
  shows "graph_ok n (fold (add_dep idx i) ds g)"
  using assms by (induction ds arbitrary: g) (simp_all add: add_dep_ok)

text \<open>The effect of one node's dependencies.\<close>

lemma add_deps_effect:
  assumes "graph_ok n g" "i < n" "\<forall>d j. idx d = Some j \<longrightarrow> j < n"
  shows "g_deps (fold (add_dep idx i) ds g) = (g_deps g)[i := g_deps g ! i @ filter (\<lambda>d. idx d \<noteq> None) ds]"
    and "g_issues (fold (add_dep idx i) ds g) =
      g_issues g @ map (unknown_issue i) (filter (\<lambda>d. idx d = None) ds)"
    and "j < n \<Longrightarrow> set (g_adj (fold (add_dep idx i) ds g) ! j) =
      set (g_adj g ! j) \<union> {k. k = i \<and> (\<exists>d\<in>set ds. idx d = Some j)}"
proof -
  have "g_deps (fold (add_dep idx i) ds g) = (g_deps g)[i := g_deps g ! i @ filter (\<lambda>d. idx d \<noteq> None) ds]
    \<and> g_issues (fold (add_dep idx i) ds g) =
        g_issues g @ map (unknown_issue i) (filter (\<lambda>d. idx d = None) ds)
    \<and> (j < n \<longrightarrow> set (g_adj (fold (add_dep idx i) ds g) ! j) =
        set (g_adj g ! j) \<union> {k. k = i \<and> (\<exists>d\<in>set ds. idx d = Some j)})"
    using assms(1)
  proof (induction ds arbitrary: g)
    case (Cons d ds)
    have "graph_ok n (add_dep idx i d g)"
      using Cons.prems assms(2,3) by (rule add_dep_ok)
    note IH = Cons.IH [OF this]
    show ?case
    proof (cases "idx d")
      case None
      then show ?thesis using IH by (simp add: add_dep_def)
    next
      case (Some k)
      moreover have "k < n" using assms(3) Some by blast
      ultimately show ?thesis
        using IH Cons.prems assms(2)
        by (auto simp: add_dep_def graph_ok_def nth_list_update split: if_splits)
    qed
  qed simp
  then show "g_deps (fold (add_dep idx i) ds g) = (g_deps g)[i := g_deps g ! i @ filter (\<lambda>d. idx d \<noteq> None) ds]"
    and "g_issues (fold (add_dep idx i) ds g) =
      g_issues g @ map (unknown_issue i) (filter (\<lambda>d. idx d = None) ds)"
    and "j < n \<Longrightarrow> set (g_adj (fold (add_dep idx i) ds g) ! j) =
      set (g_adj g ! j) \<union> {k. k = i \<and> (\<exists>d\<in>set ds. idx d = Some j)}"
    by blast+
qed

definition unknown_issues :: "wafer \<Rightarrow> nat \<Rightarrow> issue list" where
  "unknown_issues w i = map (unknown_issue i)
     (filter (\<lambda>d. first_named w d = None) (first_uses (n_depends_on (w_nodes w ! i))))"

definition known_deps :: "wafer \<Rightarrow> nat \<Rightarrow> string list" where
  "known_deps w i = filter (\<lambda>d. first_named w d \<noteq> None) (first_uses (n_depends_on (w_nodes w ! i)))"

text \<open>Node \<^verbatim>\<open>i\<close> depends on node \<^verbatim>\<open>j\<close>.\<close>

definition depends :: "wafer \<Rightarrow> nat \<Rightarrow> nat \<Rightarrow> bool" where
  "depends w i j \<longleftrightarrow> i < length (w_nodes w)
     \<and> (\<exists>d\<in>set (n_depends_on (w_nodes w ! i)). first_named w d = Some j)"

definition empty_graph :: "issue list \<Rightarrow> nat \<Rightarrow> graph" where
  "empty_graph issues n = \<lparr> g_issues = issues, g_deps = replicate n [],
     g_adj = replicate n [], g_indeg = replicate n 0 \<rparr>"

lemma graph_upto:
  fixes w :: wafer and k :: nat and issues :: "issue list"
  defines "n \<equiv> length (w_nodes w)"
  defines "g \<equiv> fold (add_node_deps w (first_named w)) [0..<k] (empty_graph issues n)"
  assumes "k \<le> n"
  shows "graph_ok n g
    \<and> g_issues g = issues @ concat (map (unknown_issues w) [0..<k])
    \<and> (\<forall>i<n. g_deps g ! i = (if i < k then known_deps w i else []))
    \<and> (\<forall>j<n. set (g_adj g ! j) = {i. i < k \<and> depends w i j})"
  using assms(3) unfolding g_def
proof (induction k)
  case 0
  show ?case by (auto simp: graph_ok_def empty_graph_def edges_into_def)
next
  case (Suc k)
  let ?g = "fold (add_node_deps w (first_named w)) [0..<k] (empty_graph issues n)"
  let ?ds = "first_uses (n_depends_on (w_nodes w ! k))"
  have k: "k < n" using Suc.prems by simp
  note IH = Suc.IH [OF less_imp_le [OF k]]
  have ok: "graph_ok n ?g" using IH by blast
  have bound: "\<forall>d j. first_named w d = Some j \<longrightarrow> j < n"
    by (simp add: n_def first_named_Some)
  have step: "fold (add_node_deps w (first_named w)) [0..<Suc k] (empty_graph issues n)
      = fold (add_dep (first_named w) k) ?ds ?g"
    by (simp add: add_node_deps_def)
  note eff = add_deps_effect [OF ok k bound]
  have adj: "set (g_adj (fold (add_dep (first_named w) k) ?ds ?g) ! j) = {i. i < Suc k \<and> depends w i j}"
    if "j < n" for j
  proof -
    have prev: "set (g_adj ?g ! j) = {i. i < k \<and> depends w i j}" using IH that by blast
    have dep: "(\<exists>d\<in>set ?ds. first_named w d = Some j) \<longleftrightarrow> depends w k j"
      using k by (simp add: depends_def n_def)
    show ?thesis
      unfolding eff(3) [OF that] prev dep by (auto simp: less_Suc_eq)
  qed
  have len: "length (g_deps ?g) = n" using ok by (simp add: graph_ok_def)
  have deps: "g_deps (fold (add_dep (first_named w) k) ?ds ?g) ! i
      = (if i < Suc k then known_deps w i else [])" if "i < n" for i
  proof -
    have "g_deps ?g ! i = (if i < k then known_deps w i else [])" using IH that by blast
    moreover have "g_deps ?g ! k = []" using IH k by simp
    ultimately show ?thesis
      using that len k unfolding eff(1)
      by (cases "i = k") (simp_all add: known_deps_def nth_list_update)
  qed
  have "g_issues (fold (add_dep (first_named w) k) ?ds ?g)
      = issues @ concat (map (unknown_issues w) [0..<Suc k])"
    using IH by (simp add: eff(2) unknown_issues_def [of w k])
  then show ?case
    unfolding step using adj deps add_deps_ok [OF ok k bound] by blast
qed

lemma build_graph_eq:
  "build_graph w = fold (add_node_deps w (first_named w)) [0..<length (w_nodes w)]
     (empty_graph (map duplicate_issue (filter (ambiguous_at w) [0..<length (w_nodes w)])) (length (w_nodes w)))"
  using index_names_map [of w] index_names_issues [of w]
  by (cases "index_names w") (simp add: build_graph_def empty_graph_def Let_def)

lemma build_graph_spec:
  defines "n \<equiv> \<lambda>w. length (w_nodes w)"
  shows build_graph_ok: "graph_ok (n w) (build_graph w)"
    and build_graph_issues: "g_issues (build_graph w) =
      map duplicate_issue (filter (ambiguous_at w) [0..<n w]) @ concat (map (unknown_issues w) [0..<n w])"
    and build_graph_deps: "i < n w \<Longrightarrow> g_deps (build_graph w) ! i = known_deps w i"
    and build_graph_adj: "j < n w \<Longrightarrow> set (g_adj (build_graph w) ! j) = {i. depends w i j}"
  using graph_upto [of "length (w_nodes w)" w
      "map duplicate_issue (filter (ambiguous_at w) [0..<length (w_nodes w)])"]
  unfolding build_graph_eq n_def by (auto simp: depends_def)

section \<open>ResolveDAG on its declarative reading\<close>

definition dep_rel :: "wafer \<Rightarrow> (nat \<times> nat) set" where
  "dep_rel w = {(j, i). depends w i j}"

lemma depends_bound: "depends w i j \<Longrightarrow> i < length (w_nodes w) \<and> j < length (w_nodes w)"
  by (auto simp: depends_def dest: first_named_Some)

lemma edge_rel_build_graph: "edge_rel (g_adj (build_graph w)) = dep_rel w"
proof -
  have "(j, i) \<in> edge_rel (g_adj (build_graph w)) \<longleftrightarrow> depends w i j" for i j
    using build_graph_ok [of w] build_graph_adj [of j w] depends_bound [of w i j]
    by (auto simp: edge_rel_def graph_ok_def)
  then show ?thesis by (auto simp: dep_rel_def)
qed

definition run_order :: "wafer \<Rightarrow> nat list \<times> int list" where
  "run_order w = (let g = build_graph w in kahn (g_adj g) (zero_nodes (g_indeg g)) (g_indeg g) [])"

lemma run_order_inv: "kahn_inv (g_adj (build_graph w)) (fst (run_order w)) [] (snd (run_order w))"
proof -
  have "kahn_inv (g_adj (build_graph w)) [] (zero_nodes (g_indeg (build_graph w))) (g_indeg (build_graph w))"
    using build_graph_ok [of w] by (intro kahn_inv_start) (auto simp: graph_ok_def)
  then show ?thesis by (simp add: run_order_def kahn_inv_end Let_def)
qed

lemma run_order_complete:
  "length (fst (run_order w)) = length (w_nodes w) \<longleftrightarrow> acyclic (dep_rel w)"
  using run_order_inv [of w] kahn_complete_acyclic kahn_incomplete_cyclic build_graph_ok [of w]
  by (metis edge_rel_build_graph graph_ok_def)

lemma ResolveDAG_eq:
  "ResolveDAG w = (if acyclic (dep_rel w)
     then (map (dag_node_at w (build_graph w)) (fst (run_order w)), g_issues (build_graph w))
     else ([], g_issues (build_graph w) @ [cycle_issue w (snd (run_order w))]))"
  unfolding run_order_complete [symmetric]
  by (simp add: ResolveDAG_def run_order_def Let_def split: prod.split)

section \<open>Properties\<close>

definition all_named_once :: "wafer \<Rightarrow> bool" where
  "all_named_once w \<longleftrightarrow> list_all (\<lambda>i. \<not> ambiguous_at w i) [0..<length (w_nodes w)]"

definition all_refs_known :: "wafer \<Rightarrow> bool" where
  "all_refs_known w \<longleftrightarrow>
     list_all (\<lambda>n. list_all (\<lambda>d. first_named w d \<noteq> None) (n_depends_on n)) (w_nodes w)"

lemma ambiguous_at_code [code]:
  "ambiguous_at w i \<longleftrightarrow>
     list_ex (\<lambda>j. n_name (w_nodes w ! j) \<noteq> '''' \<and> n_name (w_nodes w ! j) = nodeID w i) [0..<i]"
  by (auto simp: ambiguous_at_def list_ex_iff)

lemma build_graph_issues_Nil:
  "g_issues (build_graph w) = [] \<longleftrightarrow> all_named_once w \<and> all_refs_known w"
  by (auto simp: build_graph_issues unknown_issues_def all_named_once_def all_refs_known_def
    filter_empty_conv list_all_iff all_set_conv_all_nth)

lemma run_order_props:
  assumes "acyclic (dep_rel w)"
  shows "distinct (fst (run_order w))" "set (fst (run_order w)) = {..<length (w_nodes w)}"
    and "\<lbrakk>k < length (fst (run_order w)); depends w (fst (run_order w) ! k) j\<rbrakk>
      \<Longrightarrow> \<exists>l<k. fst (run_order w) ! l = j"
proof -
  let ?o = "fst (run_order w)" and ?g = "build_graph w"
  have len: "length (g_adj ?g) = length (w_nodes w)"
    using build_graph_ok [of w] by (simp add: graph_ok_def)
  note inv = run_order_inv [of w, unfolded kahn_inv_def len]
  show dist: "distinct ?o" using inv by simp
  have "set ?o \<subseteq> {..<length (w_nodes w)}" using inv by simp
  moreover have "card (set ?o) = length (w_nodes w)"
    using assms dist by (simp add: run_order_complete [symmetric] distinct_card)
  ultimately show "set ?o = {..<length (w_nodes w)}"
    by (metis card_lessThan card_subset_eq finite_lessThan)
  assume k: "k < length ?o" and dep: "depends w (?o ! k) j"
  have j: "j < length (w_nodes w)" using depends_bound [OF dep] by simp
  have "?o ! k \<in> set (g_adj ?g ! j)"
    using dep j by (simp add: build_graph_adj)
  then have "j \<in> set (take k ?o)" using inv k j by blast
  then show "\<exists>l<k. ?o ! l = j" by (auto simp: in_set_conv_nth)
qed

lemma resolved_order:
  assumes "ResolveDAG w = (dag, [])"
  shows "distinct (map dn_index dag)
    \<and> set (map dn_index dag) = {..<length (w_nodes w)}
    \<and> (\<forall>k<length dag. dn_depends_on (dag ! k) = first_uses (n_depends_on (w_nodes w ! dn_index (dag ! k)))
         \<and> (\<forall>d\<in>set (dn_depends_on (dag ! k)). \<exists>l<k. dn_name (dag ! l) = d))"
proof -
  have ac: "acyclic (dep_rel w)"
    and dag: "dag = map (dag_node_at w (build_graph w)) (fst (run_order w))"
    and ok: "all_refs_known w"
    using assms build_graph_issues_Nil [of w] by (auto simp: ResolveDAG_eq split: if_splits)
  let ?o = "fst (run_order w)"
  have idx: "map dn_index dag = ?o" by (simp add: dag dag_node_at_def comp_def)
  have "dn_depends_on (dag ! k) = first_uses (n_depends_on (w_nodes w ! dn_index (dag ! k)))
      \<and> (\<forall>d\<in>set (dn_depends_on (dag ! k)). \<exists>l<k. dn_name (dag ! l) = d)" if "k < length dag" for k
  proof -
    have k: "k < length ?o" using that dag by simp
    then have i: "?o ! k < length (w_nodes w)"
      using run_order_props(2) [OF ac] nth_mem by blast
    have known: "first_named w d \<noteq> None" if "d \<in> set (n_depends_on (w_nodes w ! (?o ! k)))" for d
      using ok i that by (auto simp: all_refs_known_def list_all_iff)
    have deps: "dn_depends_on (dag ! k) = first_uses (n_depends_on (w_nodes w ! (?o ! k)))"
      using k i known by (simp add: dag dag_node_at_def build_graph_deps known_deps_def filter_id_conv)
    have "\<exists>l<k. dn_name (dag ! l) = d" if d: "d \<in> set (n_depends_on (w_nodes w ! (?o ! k)))" for d
    proof -
      obtain j where j: "first_named w d = Some j" using known [OF d] by blast
      then have "depends w (?o ! k) j" using i d by (auto simp: depends_def)
      then obtain l where "l < k" "?o ! l = j" using run_order_props(3) [OF ac k] by blast
      then show ?thesis
        using k first_named_Some [OF j] by (auto simp: dag dag_node_at_def nodeID_def)
    qed
    then show ?thesis
      using deps k by (simp add: dag dag_node_at_def)
  qed
  then show ?thesis
    using run_order_props [OF ac] idx by simp
qed

text \<open>C2: When ResolveDAG reports no issue, the order it returns lists every node of the
  Wafer exactly once, each entry carries its node's declared dependencies, and every
  dependency of an entry is the name of an entry before it: the result is a valid run order.\<close>

theorem ResolveDAG_order:
  assumes "ResolveDAG w = (dag, [])"
  shows "distinct (map dn_index dag)
    \<and> set (map dn_index dag) = {..<length (w_nodes w)}
    \<and> (\<forall>k<length dag. dn_depends_on (dag ! k) = first_uses (n_depends_on (w_nodes w ! dn_index (dag ! k)))
         \<and> (\<forall>d\<in>set (dn_depends_on (dag ! k)). \<exists>l<k. dn_name (dag ! l) = d))"
  by (rule resolved_order [OF assms])

definition chain_wafer :: wafer where
  "chain_wafer = (let nd = (\<lambda>t nm ds. \<lparr> n_type = t, n_name = nm, n_dedupe_key = '''',
       n_depends_on = ds, n_secrets = [], n_config = [] \<rparr>) in
     \<lparr> w_name = ''orders'', w_on = [], w_nodes =
         [nd ''transform'' ''sum'' [''fetch'', ''fetch''], nd ''http'' ''fetch'' [], nd ''shell'' '''' [''sum'']],
       w_on_failure = '''' \<rparr>)"

theorem ResolveDAG_order_witness:
  "map dn_index (fst (ResolveDAG chain_wafer)) = [1, 0, 2]
    \<and> distinct (map dn_index (fst (ResolveDAG chain_wafer)))"
proof -
  have "snd (ResolveDAG chain_wafer) = []" by code_simp
  then have "ResolveDAG chain_wafer = (fst (ResolveDAG chain_wafer), [])"
    by (metis prod.collapse)
  from ResolveDAG_order [OF this] have "distinct (map dn_index (fst (ResolveDAG chain_wafer)))"
    by blast
  moreover have "map dn_index (fst (ResolveDAG chain_wafer)) = [1, 0, 2]" by code_simp
  ultimately show ?thesis by blast
qed

lemma cycle_reported_iff:
  "list_ex (\<lambda>i. i_code i = ''circular_dependency'') (snd (ResolveDAG w)) \<longleftrightarrow> \<not> acyclic (dep_rel w)"
proof -
  have "\<not> list_ex (\<lambda>i. i_code i = ''circular_dependency'') (g_issues (build_graph w))"
    by (auto simp: build_graph_issues list_ex_iff duplicate_issue_def unknown_issues_def unknown_issue_def)
  then show ?thesis
    by (simp add: ResolveDAG_eq cycle_issue_def)
qed

text \<open>C3: ResolveDAG reports no issue exactly when no node's identifier is the name of an
  earlier node, every dependency names a node, and the dependency relation has no cycle; it
  reports a circular dependency exactly when that relation has a cycle, whatever else it finds.\<close>

theorem ResolveDAG_accepts_iff:
  "(snd (ResolveDAG w) = [] \<longleftrightarrow> all_named_once w \<and> all_refs_known w \<and> acyclic (dep_rel w))
   \<and> (list_ex (\<lambda>i. i_code i = ''circular_dependency'') (snd (ResolveDAG w)) \<longleftrightarrow> \<not> acyclic (dep_rel w))"
  using build_graph_issues_Nil [of w] cycle_reported_iff [of w] by (simp add: ResolveDAG_eq)

end
