(* ===== verification/Registry.thy ===== *)
theory Registry
  imports GoLib
begin

text \<open>
  The capabilities of the runner (internal/registry): the metadata of every trigger and
  node type, registration and lookup, the spawn function that turns a node's config into
  an argv, and the JSON Schema and example derived from the same field metadata. The path
  of the running binary (selfexe.Path) is an argument of the spawn functions.
\<close>

section \<open>The data model\<close>

record field =
  f_type :: string
  f_required :: bool
  f_desc :: string
  f_examples :: "value list"

abbreviation mk_field :: "string \<Rightarrow> bool \<Rightarrow> string \<Rightarrow> value list \<Rightarrow> field" where
  "mk_field t r d e \<equiv> \<lparr> f_type = t, f_required = r, f_desc = d, f_examples = e \<rparr>"

datatype role = RoleTrigger | RoleAction | RoleFlow | RoleUnset

abbreviation "DeliveryInstant \<equiv> ''instant''"
abbreviation "DeliveryPolling \<equiv> ''polling''"
abbreviation "DeliveryScheduled \<equiv> ''scheduled''"
abbreviation "DeliveryEvent \<equiv> ''event''"
abbreviation "DeliveryManual \<equiv> ''manual''"

abbreviation "GroupCore \<equiv> ''core''"
abbreviation "GroupWebhook \<equiv> ''webhook''"
abbreviation "GroupHelper \<equiv> ''helper''"
abbreviation "GroupSinger \<equiv> ''singer''"
abbreviation "GroupMCP \<equiv> ''mcp''"

datatype run_kind = RunPlain | RunSinger | RunMCP | RunFlow | RunUnset

type_synonym config = "(string \<times> value) list"

type_synonym spawn = "string \<Rightarrow> config \<Rightarrow> string list res"

record capability =
  c_name :: string
  c_desc :: string
  c_role :: role
  c_side_effect :: bool
  c_delivery :: string
  c_group :: string
  c_fields :: "(string \<times> field) list"
  c_spawn :: "spawn option"
  c_run_kind :: run_kind

section \<open>Registration and lookup\<close>

definition isTriggerRole :: "capability \<Rightarrow> bool" where
  "isTriggerRole c \<longleftrightarrow> c_role c = RoleTrigger"

definition isNodeRole :: "capability \<Rightarrow> bool" where
  "isNodeRole c \<longleftrightarrow> c_role c = RoleAction \<or> c_role c = RoleFlow \<or> c_role c = RoleUnset"

definition Lookup :: "capability list \<Rightarrow> string \<Rightarrow> capability option" where
  "Lookup types name = find (\<lambda>t. c_name t = name) types"

definition LookupNode :: "capability list \<Rightarrow> string \<Rightarrow> capability option" where
  "LookupNode types name = find (\<lambda>t. c_name t = name \<and> isNodeRole t) types"

definition LookupTrigger :: "capability list \<Rightarrow> string \<Rightarrow> capability option" where
  "LookupTrigger types name = find (\<lambda>t. c_name t = name \<and> isTriggerRole t) types"

definition Register :: "capability \<Rightarrow> capability list \<Rightarrow> capability list" where
  "Register c types = (if Lookup types (c_name c) \<noteq> None then types else types @ [c])"

definition sortedTypes :: "capability list \<Rightarrow> capability list" where
  "sortedTypes types = sort_key c_name types"

definition Nodes :: "capability list \<Rightarrow> capability list" where
  "Nodes types = sort_key c_name (filter isNodeRole types)"

definition TriggerTypes :: "capability list \<Rightarrow> capability list" where
  "TriggerTypes types = sort_key c_name (filter isTriggerRole types)"

definition CommandFor :: "capability list \<Rightarrow> string \<Rightarrow> string \<Rightarrow> config \<Rightarrow> string list option res" where
  "CommandFor types self nodeType cfg = (case Lookup types nodeType of
      None \<Rightarrow> Inl (errorf (''node type '' @ quote nodeType @ '' has no handler built yet''))
    | Some c \<Rightarrow> (case c_spawn c of
        None \<Rightarrow> Inr None
      | Some sp \<Rightarrow> rbind (sp self cfg) (\<lambda>argv. Inr (Some argv))))"

definition RunKindFor :: "capability list \<Rightarrow> string \<Rightarrow> run_kind" where
  "RunKindFor types nodeType = (case Lookup types nodeType of
      None \<Rightarrow> RunPlain
    | Some c \<Rightarrow> if c_run_kind c = RunUnset then RunPlain else c_run_kind c)"

section \<open>Schemas\<close>

definition jsonType :: "string \<Rightarrow> string" where
  "jsonType t = (if t \<in> set [''integer'', ''number'', ''string'', ''boolean'', ''object'', ''array'']
     then t else '''')"

definition sortedFieldNames :: "(string \<times> field) list \<Rightarrow> string list" where
  "sortedFieldNames flds = sort (map fst flds)"

definition field_schema :: "field \<Rightarrow> value" where
  "field_schema f = VObj
     ((if jsonType (f_type f) \<noteq> '''' then [(''type'', VStr (jsonType (f_type f)))] else []) @
      (if f_desc f \<noteq> '''' then [(''description'', VStr (f_desc f))] else []) @
      (if f_examples f \<noteq> [] then [(''examples'', VArr (f_examples f))] else []))"

definition typeSchema :: "string \<Rightarrow> string \<Rightarrow> (string \<times> field) list \<Rightarrow> config" where
  "typeSchema name desc flds = (let
       names = sortedFieldNames flds;
       get = (\<lambda>n. the (map_of flds n));
       required = filter (\<lambda>n. f_required (get n)) names in
     [(''type'', VStr ''object''),
      (''properties'', VObj (map (\<lambda>n. (n, field_schema (get n))) names)),
      (''additionalProperties'', VBool False)] @
     (if name \<noteq> '''' then [(''title'', VStr name)] else []) @
     (if desc \<noteq> '''' then [(''description'', VStr desc)] else []) @
     (if required \<noteq> [] then [(''required'', VArr (map VStr required))] else []))"

definition JSONSchema :: "capability \<Rightarrow> config" where
  "JSONSchema t = typeSchema (c_name t) (c_desc t) (c_fields t)"

definition WaferSchema :: "capability list \<Rightarrow> config" where
  \<open>WaferSchema types = (let
      nodeNames = map (\<lambda>t. VStr (c_name t)) (Nodes types);
      triggerNames = map (\<lambda>t. VStr (c_name t)) (TriggerTypes types);
      str = (\<lambda>d. VObj [(''type'', VStr ''string''), (''description'', VStr d)]);
      strs = (\<lambda>d. VObj [(''type'', VStr ''array''), (''items'', VObj [(''type'', VStr ''string'')]),
                         (''description'', VStr d)]);
      node = VObj [
        (''type'', VStr ''object''),
        (''properties'', VObj [
          (''type'', VObj [(''type'', VStr ''string''), (''enum'', VArr nodeNames), (''description'', VStr ''The node type.'')]),
          (''name'', str ''A name for this node, for referencing from other nodes.''),
          (''dedupe_key'', str ''A key making the node run at most once per value (SPEC: Idempotency).''),
          (''depends_on'', strs ''Node names this node depends on.''),
          (''secrets'', strs ''Secret names this node declares; only these are passed to its subprocess (SPEC: Varlock).'')]),
        (''required'', VArr [VStr ''type'']),
        (''additionalProperties'', VBool True)];
      trigger = VObj [
        (''type'', VStr ''object''),
        (''properties'', VObj [
          (''type'', VObj [(''type'', VStr ''string''), (''enum'', VArr triggerNames), (''description'', VStr ''The trigger type.'')])]),
        (''required'', VArr [VStr ''type'']),
        (''additionalProperties'', VBool True)] in
     [(''$schema'', VStr ''https://json-schema.org/draft/2020-12/schema''),
      (''title'', VStr ''Wafer''),
      (''type'', VStr ''object''),
      (''properties'', VObj [
        (''name'', str ''The workflow name.''),
        (''triggers'', VObj [(''type'', VStr ''array''), (''items'', trigger), (''description'', VStr ''Triggers that start the workflow.'')]),
        (''nodes'', VObj [(''type'', VStr ''array''), (''items'', node), (''minItems'', VInt 1), (''description'', VStr ''The nodes the workflow runs.'')])]),
      (''required'', VArr [VStr ''name'', VStr ''nodes'']),
      (''additionalProperties'', VBool False)])\<close>

section \<open>Examples\<close>

definition sampleValue :: "field \<Rightarrow> value" where
  "sampleValue f = (case f_examples f of
      e # _ \<Rightarrow> e
    | [] \<Rightarrow> if f_type f = ''string'' then VStr ''''
           else if f_type f = ''integer'' then VInt 0
           else if f_type f = ''number'' then VFloat ''0''
           else if f_type f = ''boolean'' then VBool False
           else if f_type f = ''object'' then VObj []
           else if f_type f = ''array'' then VArr []
           else VNull)"

definition exampleForType :: "string \<Rightarrow> bool \<Rightarrow> (string \<times> field) list \<Rightarrow> config" where
  "exampleForType name asNode flds =
     fold (\<lambda>fname out. AList.update fname (sampleValue (the (map_of flds fname))) out)
       (sortedFieldNames flds)
       ([(''type'', VStr name)] @ (if asNode then [(''name'', VStr (name @ ''-1''))] else []))"

definition NodeExample :: "capability \<Rightarrow> config" where
  "NodeExample t = exampleForType (c_name t) True (c_fields t)"

definition TriggerExample :: "capability \<Rightarrow> config" where
  "TriggerExample t = exampleForType (c_name t) False (c_fields t)"

section \<open>Spawn functions\<close>

text \<open>A spawn function that demands one non-empty string field.\<close>

definition spawn_string :: "string \<Rightarrow> string \<Rightarrow> (string \<Rightarrow> string \<Rightarrow> string list) \<Rightarrow> spawn" where
  "spawn_string fname msg argv self cfg = (case as_str (map_of cfg fname) of
      None \<Rightarrow> Inl (errorf msg)
    | Some s \<Rightarrow> if s = '''' then Inl (errorf msg) else Inr (argv self s))"

definition spawn_shell :: spawn where
  "spawn_shell = spawn_string ''command'' ''shell requires a string command''
     (\<lambda>self cmd. [''/bin/sh'', ''-c'', cmd])"

definition spawn_transform :: spawn where
  "spawn_transform = spawn_string ''expression'' ''transform requires a string expression''
     (\<lambda>self expr. [self, ''__transform'', expr])"

definition spawn_switch :: spawn where
  "spawn_switch = spawn_string ''expression'' ''switch requires a string expression''
     (\<lambda>self expr. [self, ''__switch'', expr])"

definition spawn_foreach :: spawn where
  "spawn_foreach = spawn_string ''over'' ''foreach requires a string `over` expression''
     (\<lambda>self expr. [self, ''__foreach'', expr])"

definition spawn_tap :: spawn where
  "spawn_tap = spawn_string ''tap'' ''singer-tap requires a `tap` name'' (\<lambda>self tap. [tap])"

definition spawn_target :: spawn where
  "spawn_target = spawn_string ''target'' ''singer-target requires a `target` name'' (\<lambda>self t. [t])"

definition spawn_mcp_stdio :: spawn where
  "spawn_mcp_stdio = spawn_string ''server'' ''mcp-stdio requires a `server` name'' (\<lambda>self s. [s])"

definition spawn_http :: spawn where
  "spawn_http self cfg =
     (if str_or_empty (map_of cfg ''url'') = '''' then Inl (errorf ''http requires a string url'')
      else if str_or_empty (map_of cfg ''method'') = '''' then Inl (errorf ''http requires a string method'')
      else rbind (map_err (wrap ''http: encode config: '') (json_marshal (VObj cfg))) (\<lambda>config.
           Inr [self, ''__http'', config]))"

section \<open>The mechanisms\<close>

definition cap_core_completed :: capability where
  \<open>cap_core_completed = \<lparr> c_name = ''completed'',
     c_desc = ''Fired by another workflow's completion.'',
     c_role = RoleTrigger, c_side_effect = False, c_delivery = DeliveryEvent, c_group = GroupCore,
     c_fields = [(''workflow'', mk_field ''string'' True
          (''The workflow that fires this.'')
          [VStr ''upstream-workflow''])],
     c_spawn = None, c_run_kind = RunUnset \<rparr>\<close>

definition cap_core_cron :: capability where
  \<open>cap_core_cron = \<lparr> c_name = ''cron'',
     c_desc = ''Run on the Honker scheduler.'',
     c_role = RoleTrigger, c_side_effect = False, c_delivery = DeliveryScheduled, c_group = GroupCore,
     c_fields = [(''schedule'', mk_field ''string'' True
          (''Cron expression.'')
          [VStr ''0 * * * *''])],
     c_spawn = None, c_run_kind = RunUnset \<rparr>\<close>

definition cap_core_failed :: capability where
  \<open>cap_core_failed = \<lparr> c_name = ''failed'',
     c_desc = ''Fired by another workflow's failure.'',
     c_role = RoleTrigger, c_side_effect = False, c_delivery = DeliveryEvent, c_group = GroupCore,
     c_fields = [(''workflow'', mk_field ''string'' True
          (''The workflow that fires this.'')
          [VStr ''upstream-workflow''])],
     c_spawn = None, c_run_kind = RunUnset \<rparr>\<close>

definition cap_core_foreach :: capability where
  \<open>cap_core_foreach = \<lparr> c_name = ''foreach'',
     c_desc = ''Fan a node out over a list.'',
     c_role = RoleFlow, c_side_effect = False, c_delivery = '''', c_group = GroupCore,
     c_fields = [(''over'', mk_field ''string'' True
          (''A JSONata expression over the step's `{event, steps}` input yielding the list to iterate (ADR-0020, ADR-0024).'')
          [VStr ''steps.fetch_ids'']),
       (''as'', mk_field ''string'' False
          (''Name for each element in the loop, exposed in each iteration's input. Defaults to `item`.'')
          [VStr ''item'']),
       (''body'', mk_field ''string'' True
          (''Name of the top-level node to run once per element (ADR-0024).'')
          [VStr ''process_one''])],
     c_spawn = Some spawn_foreach, c_run_kind = RunFlow \<rparr>\<close>

definition cap_core_http :: capability where
  \<open>cap_core_http = \<lparr> c_name = ''http'',
     c_desc = ''Make an HTTP request and capture the response.'',
     c_role = RoleAction, c_side_effect = True, c_delivery = '''', c_group = GroupCore,
     c_fields = [(''url'', mk_field ''string'' True
          (''The URL to request.'')
          [VStr ''https://api.example.com/things'']),
       (''method'', mk_field ''string'' True
          (''HTTP method.'')
          [VStr ''GET'']),
       (''headers'', mk_field ''object'' False
          (''Request headers as a map; values may reference a declared secret as `$NAME`.'')
          [VObj [(''Content-Type'', VStr ''application/json''), (''Authorization'', VStr ''Bearer $API_TOKEN'')]]),
       (''body'', mk_field ''any'' False
          (''Request body.'')
          [VObj [(''query'', VStr ''SELECT * FROM things'')]]),
       (''timeout'', mk_field ''integer'' False
          (''Request timeout in seconds.'')
          [VInt 30])],
     c_spawn = Some spawn_http, c_run_kind = RunPlain \<rparr>\<close>

definition cap_core_manual :: capability where
  \<open>cap_core_manual = \<lparr> c_name = ''manual'',
     c_desc = ''Invoked via the CLI.'',
     c_role = RoleTrigger, c_side_effect = False, c_delivery = DeliveryManual, c_group = GroupCore,
     c_fields = [],
     c_spawn = None, c_run_kind = RunUnset \<rparr>\<close>

definition cap_core_rerunfailed :: capability where
  \<open>cap_core_rerunfailed = \<lparr> c_name = ''rerun-failed'',
     c_desc = ''Re-run a dead-lettered (failed) run, continuing from the failed node, restarting from the top, or discarding it (ADR-0044).'',
     c_role = RoleAction, c_side_effect = False, c_delivery = '''', c_group = GroupCore,
     c_fields = [(''run_id'', mk_field ''string'' False
          (''A JSONata expression over the step's `{event, steps}` input resolving to the id of the failed run to re-run. Defaults to `event.from_run` (the run whose `failed` trigger started this workflow).'')
          [VStr ''event.from_run'']),
       (''mode'', mk_field ''string'' False
          (''How to re-run: `continue` (from the failed node), `restart` (from the top), or `discard` (drop the failed run). Default `continue`.'')
          [VStr ''continue''])],
     c_spawn = None, c_run_kind = RunFlow \<rparr>\<close>

definition cap_core_sendsignal :: capability where
  \<open>cap_core_sendsignal = \<lparr> c_name = ''send-signal'',
     c_desc = ''Wake a parked run in another workflow by named signal (ADR-0042).'',
     c_role = RoleAction, c_side_effect = False, c_delivery = '''', c_group = GroupCore,
     c_fields = [(''signal'', mk_field ''string'' True
          (''A JSONata expression over the step's `{event, steps}` input resolving to the effective signal name of the parked run to wake.'')
          [VStr ''approval_gate.${event.order_id}'']),
       (''payload'', mk_field ''any'' False
          (''A JSONata expression for the payload delivered to the parked run's wait node result. Omit for no payload.'')
          [VObj [(''approved'', VBool True)]])],
     c_spawn = None, c_run_kind = RunFlow \<rparr>\<close>

definition cap_core_shell :: capability where
  \<open>cap_core_shell = \<lparr> c_name = ''shell'',
     c_desc = ''Execute a command on the runner host.'',
     c_role = RoleAction, c_side_effect = True, c_delivery = '''', c_group = GroupCore,
     c_fields = [(''command'', mk_field ''string'' True
          (''The command to run.'')
          [VStr ''echo hello''])],
     c_spawn = Some spawn_shell, c_run_kind = RunPlain \<rparr>\<close>

definition cap_core_switch :: capability where
  \<open>cap_core_switch = \<lparr> c_name = ''switch'',
     c_desc = ''Route to one named branch based on a value.'',
     c_role = RoleFlow, c_side_effect = False, c_delivery = '''', c_group = GroupCore,
     c_fields = [(''expression'', mk_field ''string'' True
          (''A JSONata expression over the step's `{event, steps}` input producing the routing value (ADR-0020, ADR-0022).'')
          [VStr ''steps.check'']),
       (''cases'', mk_field ''object'' True
          (''Map of value to the name of the top-level node to route to.'')
          [VObj [(''high'', VStr ''notify_finance''), (''low'', VStr ''log_and_done'')]]),
       (''default'', mk_field ''string'' False
          (''Name of the top-level node to route to when no `cases` key matches.'')
          [VStr ''log_unknown''])],
     c_spawn = Some spawn_switch, c_run_kind = RunFlow \<rparr>\<close>

definition cap_core_transform :: capability where
  \<open>cap_core_transform = \<lparr> c_name = ''transform'',
     c_desc = ''Reshape, extract, or compute over previous nodes' JSON output.'',
     c_role = RoleAction, c_side_effect = False, c_delivery = '''', c_group = GroupCore,
     c_fields = [(''expression'', mk_field ''string'' True
          (''A JSONata expression over the step's `{event, steps}` input (ADR-0020, ADR-0021).'')
          [VStr ''$sum(steps.fetch.items[active=true].amount)''])],
     c_spawn = Some spawn_transform, c_run_kind = RunPlain \<rparr>\<close>

definition cap_core_wait :: capability where
  \<open>cap_core_wait = \<lparr> c_name = ''wait'',
     c_desc = ''Park the run and resume it later, via a timer or a named signal, resolving on whichever fires first (ADR-0041).'',
     c_role = RoleFlow, c_side_effect = False, c_delivery = '''', c_group = GroupCore,
     c_fields = [(''signal'', mk_field ''string'' False
          (''A JSONata expression over the step's `{event, steps}` input resolved at park time to the effective signal name (ADR-0042). A signal resumes the run with the payload; the result reports `source: '' @ [CHR 0x22] @ ''signal'' @ [CHR 0x22] @ ''`.'')
          [VStr ''approval_gate.${event.order_id}'']),
       (''timer'', mk_field ''object'' False
          (''A timer that resumes the run: `after` (a duration, for example `48h`) or `at` (an absolute time). The result reports `source: '' @ [CHR 0x22] @ ''timer'' @ [CHR 0x22] @ ''` (ADR-0043).'')
          [VObj [(''after'', VStr ''48h'')]])],
     c_spawn = None, c_run_kind = RunFlow \<rparr>\<close>

definition cap_helper_email :: capability where
  \<open>cap_helper_email = \<lparr> c_name = ''email_received'',
     c_desc = ''Inbound email parsed into a structured payload.'',
     c_role = RoleTrigger, c_side_effect = False, c_delivery = DeliveryPolling, c_group = GroupHelper,
     c_fields = [(''host'', mk_field ''string'' True
          (''IMAP host of the mailbox, for example imap.gmail.com.'')
          [VStr ''imap.gmail.com'']),
       (''username'', mk_field ''string'' True
          (''Mailbox account, for example me@company.com.'')
          [VStr ''me@company.com'']),
       (''secret'', mk_field ''string'' True
          (''Varlock secret name holding the app password.'')
          [VStr ''GMAIL_APP_PASSWORD'']),
       (''poll'', mk_field ''string'' False
          (''Cron schedule to poll for new mail; default every 5 minutes.'')
          [VStr ''*/5 * * * *''])],
     c_spawn = None, c_run_kind = RunUnset \<rparr>\<close>

definition cap_mcp_http :: capability where
  \<open>cap_mcp_http = \<lparr> c_name = ''mcp-http'',
     c_desc = ''Invoke one named tool on one named MCP server over Streamable HTTP (ADR-0047).'',
     c_role = RoleAction, c_side_effect = True, c_delivery = '''', c_group = GroupMCP,
     c_fields = [(''server'', mk_field ''string'' True
          (''The declared MCP server to connect to, resolved from its URL in the config.'')
          [VStr ''atomic'']),
       (''tool'', mk_field ''string'' True
          (''The named tool to invoke.'')
          [VStr ''search'']),
       (''input'', mk_field ''object'' False
          (''The tool arguments.'')
          [VObj [(''query'', VStr ''meeting notes'')]]),
       (''mode'', mk_field ''string'' False
          (''The MCP protocol mode the server speaks, `classic` or `stateless`, copied from capabilities. Omit to probe once at run time.'')
          [VStr ''stateless''])],
     c_spawn = None, c_run_kind = RunMCP \<rparr>\<close>

definition cap_mcp_stdio :: capability where
  \<open>cap_mcp_stdio = \<lparr> c_name = ''mcp-stdio'',
     c_desc = ''Invoke one named tool on one named MCP server over stdio (ADR-0015).'',
     c_role = RoleAction, c_side_effect = True, c_delivery = '''', c_group = GroupMCP,
     c_fields = [(''server'', mk_field ''string'' True
          (''The MCP server executable to run.'')
          [VStr ''atomic-server'']),
       (''tool'', mk_field ''string'' True
          (''The named tool to invoke.'')
          [VStr ''search'']),
       (''input'', mk_field ''object'' False
          (''The tool arguments.'')
          [VObj [(''query'', VStr ''meeting notes'')]]),
       (''mode'', mk_field ''string'' False
          (''The MCP protocol mode the server speaks, `classic` or `stateless`, copied from capabilities. Omit to probe once at run time.'')
          [VStr ''stateless''])],
     c_spawn = Some spawn_mcp_stdio, c_run_kind = RunMCP \<rparr>\<close>

definition cap_singer_tap :: capability where
  \<open>cap_singer_tap = \<lparr> c_name = ''singer-tap'',
     c_desc = ''Run a Singer tap and capture records and state.'',
     c_role = RoleAction, c_side_effect = True, c_delivery = '''', c_group = GroupSinger,
     c_fields = [(''tap'', mk_field ''string'' True
          (''The tap to run.'')
          [VStr ''tap-stripe'']),
       (''config'', mk_field ''object'' False
          (''Tap config.'')
          []),
       (''catalog'', mk_field ''array'' False
          (''The selected streams to sync, copied from the tap's catalog in capabilities. Each entry is one stream with its schema and a `selected: true` metadata. Omit to sync all streams.'')
          [VArr [VObj [(''stream'', VStr ''customers''), (''tap_stream_id'', VStr ''customers''), (''schema'', VObj [(''type'', VStr ''object'')]), (''metadata'', VArr [VObj [(''breadcrumb'', VArr []), (''metadata'', VObj [(''selected'', VBool True)])]])]]])],
     c_spawn = Some spawn_tap, c_run_kind = RunSinger \<rparr>\<close>

definition cap_singer_target :: capability where
  \<open>cap_singer_target = \<lparr> c_name = ''singer-target'',
     c_desc = ''Run a Singer target consuming records.'',
     c_role = RoleAction, c_side_effect = True, c_delivery = '''', c_group = GroupSinger,
     c_fields = [(''target'', mk_field ''string'' True
          (''The target to run.'')
          [VStr ''target-grist'']),
       (''config'', mk_field ''object'' False
          (''Target config.'')
          [])],
     c_spawn = Some spawn_target, c_run_kind = RunSinger \<rparr>\<close>

definition cap_webhook_hmacwebhook :: capability where
  \<open>cap_webhook_hmacwebhook = \<lparr> c_name = ''hmac-webhook'',
     c_desc = ''Inbound HTTP receiver that verifies an HMAC-SHA256 signature over the raw body (or a timestamped form of it) and delivers the body.'',
     c_role = RoleTrigger, c_side_effect = False, c_delivery = DeliveryInstant, c_group = GroupWebhook,
     c_fields = [(''path'', mk_field ''string'' True
          (''Path of the declared receiver to receive on.'')
          [VStr ''/hooks/things''])],
     c_spawn = None, c_run_kind = RunUnset \<rparr>\<close>

definition cap_webhook_standardwebhook :: capability where
  \<open>cap_webhook_standardwebhook = \<lparr> c_name = ''standard-webhook'',
     c_desc = ''Inbound HTTP receiver that verifies the Standard Webhooks envelope (timestamped, replay-bounded) and delivers the body.'',
     c_role = RoleTrigger, c_side_effect = False, c_delivery = DeliveryInstant, c_group = GroupWebhook,
     c_fields = [(''path'', mk_field ''string'' True
          (''Path of the declared receiver to receive on.'')
          [VStr ''/hooks/std''])],
     c_spawn = None, c_run_kind = RunUnset \<rparr>\<close>

text \<open>The registry after every mechanism package has run its init function, in the order of
  their import paths (mechanisms.go).\<close>

definition mechanisms :: "capability list" where
  "mechanisms = [cap_core_completed, cap_core_cron, cap_core_failed, cap_core_foreach, cap_core_http,
     cap_core_manual, cap_core_rerunfailed, cap_core_sendsignal, cap_core_shell, cap_core_switch,
     cap_core_transform, cap_core_wait, cap_helper_email, cap_mcp_http, cap_mcp_stdio,
     cap_singer_tap, cap_singer_target, cap_webhook_hmacwebhook, cap_webhook_standardwebhook]"

definition all_types :: "capability list" where
  "all_types = fold Register mechanisms []"

section \<open>Lemmas\<close>

lemma Register_Lookup:
  "Lookup (Register c types) n = (case Lookup types n of Some x \<Rightarrow> Some x
     | None \<Rightarrow> if c_name c = n then Some c else None)"
proof -
  have app: "find P (xs @ [y]) = (case find P xs of Some x \<Rightarrow> Some x | None \<Rightarrow> if P y then Some y else None)"
    for P and xs :: "capability list" and y
    by (induction xs) auto
  show ?thesis
    by (auto simp: Register_def Lookup_def app split: option.split)
qed

lemma Register_idem: "Register c (Register c types) = Register c types"
  using Register_Lookup [of c types "c_name c"]
  by (cases "Lookup types (c_name c)") (simp_all add: Register_def)

lemma distinct_Register:
  "distinct (map c_name types) \<Longrightarrow> distinct (map c_name (Register c types))"
  by (auto simp: Register_def Lookup_def find_None_iff)

lemma distinct_registered: "distinct (map c_name types) \<Longrightarrow> distinct (map c_name (fold Register cs types))"
  by (induction cs arbitrary: types) (simp_all add: distinct_Register)

lemma fold_Register_fresh:
  "distinct (map c_name (types @ cs)) \<Longrightarrow> fold Register cs types = types @ cs"
proof (induction cs arbitrary: types)
  case (Cons c cs)
  have "c_name c \<notin> c_name ` set types" using Cons.prems by auto
  then have "Lookup types (c_name c) = None"
    by (auto simp: Lookup_def find_None_iff image_iff)
  then have "Register c types = types @ [c]" by (simp add: Register_def)
  then show ?case
    using Cons.IH [of "types @ [c]"] Cons.prems by simp
qed simp

lemma distinct_mechanisms: "distinct (map c_name mechanisms)"
  by code_simp

text \<open>No mechanism is dropped as a duplicate.\<close>

lemma all_types_mechanisms [code]: "all_types = mechanisms"
  using fold_Register_fresh [of "[]" mechanisms] distinct_mechanisms by (simp add: all_types_def)

end
