(* ===== verification/Validate.thy ===== *)
theory Validate
  imports Dag Registry
begin

text \<open>
  Structured validation (internal/wafer/validate.go) and the dry run
  (internal/wafer/dryrun.go): the issues of a YAML tree against the registry, the edit
  distance behind the suggestions, JSON pointers, and the dry run that validates, parses,
  resolves the graph and looks up the declared secrets. The YAML decoders and the process
  environment are parameters; a map's fields are visited in the order of its list.
\<close>

section \<open>JSON pointers\<close>

definition ptr :: "string \<Rightarrow> string \<Rightarrow> string" where
  "ptr base segment = (let seg = replace_all (replace_all segment ''~'' ''~0'') ''/'' ''~1'' in
     if base = '''' then ''/'' @ seg else base @ ''/'' @ seg)"

section \<open>Edit distance\<close>

definition min3 :: "nat \<Rightarrow> nat \<Rightarrow> nat \<Rightarrow> nat" where
  "min3 a b c = (let m = a; m = (if b < m then b else m) in if c < m then c else m)"

text \<open>The inner loop fills \<^verbatim>\<open>cur[j]\<close> for \<^verbatim>\<open>j = 1..len(db)\<close>.\<close>

definition ed_cell :: "int \<Rightarrow> int list \<Rightarrow> nat list \<Rightarrow> nat \<Rightarrow> nat list \<Rightarrow> nat list" where
  "ed_cell x db prev j cur =
     cur[j := min3 (prev ! j + 1) (cur ! (j - 1) + 1) (prev ! (j - 1) + (if x = db ! (j - 1) then 0 else 1))]"

definition ed_row :: "int \<Rightarrow> int list \<Rightarrow> nat \<Rightarrow> nat list \<Rightarrow> nat list \<Rightarrow> nat list" where
  "ed_row x db i prev cur = fold (ed_cell x db prev) [1..<Suc (length db)] (cur[0 := i])"

text \<open>The outer loop swaps the two rows.\<close>

definition ed_loop :: "int list \<Rightarrow> int list \<Rightarrow> nat list \<times> nat list" where
  "ed_loop da db = fold (\<lambda>i (prev, cur). (ed_row (da ! (i - 1)) db i prev cur, prev))
     [1..<Suc (length da)] ([0..<Suc (length db)], replicate (Suc (length db)) 0)"

definition editDistance :: "string \<Rightarrow> string \<Rightarrow> nat" where
  "editDistance a b = fst (ed_loop (runes a) (runes b)) ! length (runes b)"

definition nearest_step :: "string \<Rightarrow> string \<Rightarrow> string \<times> int \<Rightarrow> string \<times> int" where
  "nearest_step unknown c st = (let (best, bestDist) = st; d = int (editDistance unknown c) in
     if bestDist < 0 \<or> d < bestDist then (c, d) else (best, bestDist))"

definition nearest :: "string \<Rightarrow> string list \<Rightarrow> string" where
  "nearest unknown candidates = (let (best, bestDist) = fold (nearest_step unknown) candidates ('''', - 1) in
     if bestDist \<le> 2 then best else '''')"

definition nearestNode :: "capability list \<Rightarrow> string \<Rightarrow> string" where
  "nearestNode types unknown = nearest unknown (map c_name (Nodes types))"

definition nearestTrigger :: "capability list \<Rightarrow> string \<Rightarrow> string" where
  "nearestTrigger types unknown = nearest unknown (map c_name (TriggerTypes types))"

section \<open>Field types\<close>

fun is_string where "is_string (VStr _) = True" | "is_string _ = False"
fun is_int where "is_int (VInt _) = True" | "is_int _ = False"
fun is_number where "is_number (VInt _) = True" | "is_number (VFloat _) = True" | "is_number _ = False"
fun is_bool where "is_bool (VBool _) = True" | "is_bool _ = False"
fun is_object where "is_object (VObj _) = True" | "is_object _ = False"
fun is_array where "is_array (VArr _) = True" | "is_array _ = False"

definition typeMatches :: "string \<Rightarrow> value \<Rightarrow> bool" where
  "typeMatches t v =
     (if t = ''string'' then is_string v
      else if t = ''integer'' then is_int v
      else if t = ''number'' then is_number v
      else if t = ''boolean'' then is_bool v
      else if t = ''object'' then is_object v
      else if t = ''array'' then is_array v
      else True)"

fun yamlKind :: "value \<Rightarrow> string" where
  "yamlKind (VStr _) = ''string''"
| "yamlKind (VInt _) = ''integer''"
| "yamlKind (VFloat _) = ''number''"
| "yamlKind (VBool _) = ''boolean''"
| "yamlKind (VObj _) = ''object''"
| "yamlKind (VArr _) = ''array''"
| "yamlKind VNull = ''null''"

section \<open>Validation\<close>

definition rerunModes :: "string list" where
  "rerunModes = [''continue'', ''restart'', ''discard'']"

definition validateField :: "string \<Rightarrow> string \<Rightarrow> config \<Rightarrow> string \<Rightarrow> string \<times> field \<Rightarrow> issue list" where
  "validateField typeName objPath m kind nf = (let (name, f) = nf in
     case map_of m name of
       None \<Rightarrow> if f_required f
         then [mk_issue (ptr objPath name) ''missing_required_field''
                (''field '' @ quote name @ '' is required for '' @ kind @ '' type '' @ quote typeName) (f_type f) '''']
         else []
     | Some v \<Rightarrow> if \<not> typeMatches (f_type f) v
         then [mk_issue (ptr objPath name) ''type_mismatch''
                (''field '' @ quote name @ '' expects '' @ f_type f @ '', got '' @ yamlKind v) (f_type f) '''']
         else [])"

definition validateConfig :: "string \<Rightarrow> (string \<times> field) list \<Rightarrow> string \<Rightarrow> config \<Rightarrow> string \<Rightarrow> issue list" where
  "validateConfig typeName flds objPath m kind =
     concat (map (validateField typeName objPath m kind) flds)"

definition validateWait :: "string \<Rightarrow> config \<Rightarrow> issue list" where
  "validateWait p m = (if map_of m ''signal'' = None \<and> map_of m ''timer'' = None
     then [mk_issue p ''wait_requires_source''
            ''a wait node needs at least one of `signal` or `timer`, else it would park forever''
            ''signal or timer'' ''''] else [])"

definition validateMode :: "string \<Rightarrow> config \<Rightarrow> issue list" where
  "validateMode p m = (case as_str (map_of m ''mode'') of
      None \<Rightarrow> []
    | Some mode \<Rightarrow> if mode \<noteq> '''' \<and> mode \<notin> set rerunModes
        then [mk_issue (ptr p ''mode'') ''unknown_rerun_mode''
               (''field '' @ quote ''mode'' @ '' must be one of continue, restart, discard, got '' @ quote mode)
               '''' ''continue''] else [])"

definition validateDedupe :: "string \<Rightarrow> config \<Rightarrow> capability \<Rightarrow> issue list" where
  "validateDedupe p m st = (if c_side_effect st \<and> map_of m ''dedupe_key'' = None
     then [mk_issue p ''missing_dedupe_key''
            (''Node '' @ quote (c_name st) @ '' performs an external side effect and has no dedupe_key; this node may run more than once on retry'')
            '''' ''''] else [])"

text \<open>Errors and warnings of one node.\<close>

definition validateNode :: "capability list \<Rightarrow> string \<Rightarrow> value \<Rightarrow> issue list \<times> issue list" where
  "validateNode types p s = (case as_obj (Some s) of
      None \<Rightarrow> ([mk_issue p ''type_mismatch'' ''node must be an object'' ''object'' ''''], [])
    | Some m \<Rightarrow> (case as_str (map_of m ''type'') of
        None \<Rightarrow> ([mk_issue (ptr p ''type'') ''missing_required_field'' (''node must declare a 'type'' @ [CHR 0x27]) ''string'' ''''], [])
      | Some typ \<Rightarrow> (case LookupNode types typ of
          None \<Rightarrow> ([mk_issue (ptr p ''type'') ''unknown_node_type'' (''unknown node type '' @ quote typ)
                     '''' (nearestNode types typ)], [])
        | Some st \<Rightarrow>
            (validateConfig (c_name st) (c_fields st) p m ''node''
               @ (if c_name st = ''wait'' then validateWait p m else [])
               @ (if c_name st = ''rerun-failed'' then validateMode p m else []),
             validateDedupe p m st))))"

definition validateTrigger :: "capability list \<Rightarrow> string \<Rightarrow> value \<Rightarrow> issue list" where
  "validateTrigger types p t = (case as_obj (Some t) of
      None \<Rightarrow> [mk_issue p ''type_mismatch'' ''trigger must be an object'' ''object'' '''']
    | Some m \<Rightarrow> (case as_str (map_of m ''type'') of
        None \<Rightarrow> [mk_issue (ptr p ''type'') ''missing_required_field'' (''trigger must declare a 'type'' @ [CHR 0x27]) ''string'' '''']
      | Some typ \<Rightarrow> (case LookupTrigger types typ of
          None \<Rightarrow> [mk_issue (ptr p ''type'') ''unknown_trigger_type'' (''unknown trigger type '' @ quote typ)
                     '''' (nearestTrigger types typ)]
        | Some tt \<Rightarrow> validateConfig (c_name tt) (c_fields tt) p m ''trigger'')))"

definition validateTriggers :: "capability list \<Rightarrow> value \<Rightarrow> issue list" where
  "validateTriggers types on = (case as_arr (Some on) of
      None \<Rightarrow> [mk_issue ''/on'' ''type_mismatch'' ''field 'on' must be a list of triggers'' ''array'' '''']
    | Some ts \<Rightarrow> concat (map (\<lambda>(i, t). validateTrigger types (ptr ''/on'' (show_nat i)) t) (enumerate 0 ts)))"

definition validateName :: "config \<Rightarrow> issue list" where
  "validateName root = (case map_of root ''name'' of
      None \<Rightarrow> [mk_issue ''/name'' ''missing_required_field'' ''field 'name' is required'' ''string'' '''']
    | Some VNull \<Rightarrow> [mk_issue ''/name'' ''missing_required_field'' ''field 'name' is required'' ''string'' '''']
    | Some (VStr v) \<Rightarrow> if trim_space v = ''''
        then [mk_issue ''/name'' ''missing_name'' ''field 'name' must not be empty'' ''non-empty string'' ''''] else []
    | _ \<Rightarrow> [mk_issue ''/name'' ''type_mismatch'' ''field 'name' must be a string'' ''string'' ''''])"

definition validateOnFailure :: "config \<Rightarrow> issue list" where
  "validateOnFailure root = (case map_of root ''on_failure'' of
      None \<Rightarrow> []
    | Some v \<Rightarrow> (case as_str (Some v) of
        None \<Rightarrow> [mk_issue ''/on_failure'' ''type_mismatch'' ''field 'on_failure' must be a string'' ''string'' '''']
      | Some s \<Rightarrow> if s \<notin> set rerunModes
          then [mk_issue ''/on_failure'' ''unknown_rerun_mode''
                 (''field 'on_failure' must be one of continue, restart, discard, got '' @ quote s) '''' ''continue'']
          else []))"

record result =
  r_errors :: "issue list"
  r_warnings :: "issue list"

definition Valid :: "result \<Rightarrow> bool" where
  "Valid r \<longleftrightarrow> r_errors r = []"

definition validateValue :: "capability list \<Rightarrow> value \<Rightarrow> result" where
  "validateValue types raw = (case as_obj (Some raw) of
      None \<Rightarrow> \<lparr> r_errors = [mk_issue '''' ''type_mismatch'' ''wafer must be a YAML object'' ''object'' ''''],
               r_warnings = [] \<rparr>
    | Some root \<Rightarrow> (let
        errs = validateName root @ validateOnFailure root @
          (case map_of root ''triggers'' of None \<Rightarrow> [] | Some trigs \<Rightarrow> validateTriggers types trigs) in
        case as_arr (map_of root ''nodes'') of
          None \<Rightarrow> \<lparr> r_errors = errs @ [mk_issue ''/nodes'' ''missing_nodes''
                      ''field 'nodes' is required and must be a list'' ''array'' ''''], r_warnings = [] \<rparr>
        | Some nodes \<Rightarrow>
            if nodes = [] then \<lparr> r_errors = errs @ [mk_issue ''/nodes'' ''missing_nodes''
                      ''field 'nodes' must contain at least one node'' ''non-empty array'' ''''], r_warnings = [] \<rparr>
            else let rs = map (\<lambda>(i, s). validateNode types (ptr ''/nodes'' (show_nat i)) s) (enumerate 0 nodes) in
              \<lparr> r_errors = errs @ concat (map fst rs), r_warnings = concat (map snd rs) \<rparr>))"

definition Validate :: "capability list \<Rightarrow> (string \<Rightarrow> value res) \<Rightarrow> string \<Rightarrow> result" where
  "Validate types unmarshal data = (case unmarshal data of
      Inl e \<Rightarrow> \<lparr> r_errors = [mk_issue '''' ''invalid_yaml'' (''invalid YAML: '' @ err_msg e) '''' ''''],
                r_warnings = [] \<rparr>
    | Inr raw \<Rightarrow> validateValue types raw)"

section \<open>Dry run\<close>

record dry_run_result =
  dr_result :: result
  dr_name :: string
  dr_triggers :: "trigger list"
  dr_dag :: "dag_node list option"
  dr_secrets :: "string list"

definition declaredSecretNames :: "wafer \<Rightarrow> string list" where
  "declaredSecretNames w = first_uses (concat (map n_secrets (w_nodes w)))"

definition secret_warning :: "string \<Rightarrow> issue" where
  "secret_warning s = mk_issue ''/nodes'' ''missing_secret''
     (''declared secret '' @ [CHR 0x22] @ s @ [CHR 0x22] @ '' is not present in the environment'') '''' ''''"

text \<open>The decoders into \<^verbatim>\<open>any\<close> and into a map, and os.Getenv (empty when unset), are parameters.\<close>

definition DryRun :: "capability list \<Rightarrow> (string \<Rightarrow> value res) \<Rightarrow> (string \<Rightarrow> config res)
    \<Rightarrow> (string \<Rightarrow> string) \<Rightarrow> string \<Rightarrow> dry_run_result" where
  "DryRun types unmarshal unmarshal_map getenv data = (let
      res = Validate types unmarshal data;
      out = \<lparr> dr_result = res, dr_name = '''', dr_triggers = [], dr_dag = None, dr_secrets = [] \<rparr> in
    if \<not> Valid res then out
    else case Parse unmarshal_map data of
      Inl _ \<Rightarrow> out
    | Inr w \<Rightarrow> (let
        out = out\<lparr> dr_name := w_name w, dr_triggers := w_on w \<rparr>;
        (dag, issues) = ResolveDAG w in
      if issues \<noteq> [] then out\<lparr> dr_result := res\<lparr> r_errors := r_errors res @ issues \<rparr> \<rparr>
      else let secrets = declaredSecretNames w in
        out\<lparr> dr_dag := Some dag, dr_secrets := secrets,
             dr_result := res\<lparr> r_warnings := r_warnings res @
               map secret_warning (filter (\<lambda>s. getenv s = '''') secrets) \<rparr> \<rparr>))"

section \<open>The edit distance is the length of a shortest edit script\<close>

text \<open>
  \<^verbatim>\<open>align xs ys k\<close>: \<^verbatim>\<open>k\<close> insertions, deletions and substitutions turn \<^verbatim>\<open>xs\<close> into \<^verbatim>\<open>ys\<close>.
\<close>

inductive align :: "int list \<Rightarrow> int list \<Rightarrow> nat \<Rightarrow> bool" where
  align_nil: "align [] [] 0"
| align_del: "align xs ys k \<Longrightarrow> align (xs @ [x]) ys (Suc k)"
| align_ins: "align xs ys k \<Longrightarrow> align xs (ys @ [y]) (Suc k)"
| align_keep: "align xs ys k \<Longrightarrow> align (xs @ [x]) (ys @ [x]) k"
| align_sub: "align xs ys k \<Longrightarrow> align (xs @ [x]) (ys @ [y]) (Suc k)"

text \<open>The recurrence over prefixes.\<close>

fun lev :: "int list \<Rightarrow> int list \<Rightarrow> nat \<Rightarrow> nat \<Rightarrow> nat" where
  "lev a b 0 j = j"
| "lev a b (Suc i) 0 = Suc i"
| "lev a b (Suc i) (Suc j) =
     min3 (lev a b i (Suc j) + 1) (lev a b (Suc i) j + 1) (lev a b i j + (if a ! i = b ! j then 0 else 1))"

lemma min3_min: "min3 a b c = min a (min b c)"
  by (auto simp: min3_def Let_def)

lemma lev_0 [simp]: "lev a b i 0 = i"
  by (cases i) auto

lemma lev_del: "lev a b (Suc i) j \<le> Suc (lev a b i j)"
  by (cases j) (auto simp: min3_min)

lemma lev_ins: "lev a b i (Suc j) \<le> Suc (lev a b i j)"
  by (cases i) (auto simp: min3_min)

lemma lev_diag: "lev a b (Suc i) (Suc j) \<le> lev a b i j + (if a ! i = b ! j then 0 else 1)"
  by (simp add: min3_min)

lemma take_snoc_eq:
  assumes "take (length (xs @ [x])) a = xs @ [x]"
  shows "take (length xs) a = xs" "a ! length xs = x"
proof -
  have "xs @ [x] @ drop (length (xs @ [x])) a = a"
    using assms by (metis append_assoc append_take_drop_id)
  then have a: "a = xs @ x # drop (length (xs @ [x])) a" by simp
  show "take (length xs) a = xs" by (subst a) simp
  show "a ! length xs = x" by (subst a) simp
qed

lemma align_lower_bound:
  "align xs ys k \<Longrightarrow> take (length xs) a = xs \<Longrightarrow> take (length ys) b = ys \<Longrightarrow>
     lev a b (length xs) (length ys) \<le> k"
proof (induction rule: align.induct)
  case (align_del xs ys k x)
  then show ?case
    using lev_del [of a b "length xs" "length ys"] take_snoc_eq(1) [OF align_del.prems(1)] by simp
next
  case (align_ins xs ys k y)
  then show ?case
    using lev_ins [of a b "length xs" "length ys"] take_snoc_eq(1) [OF align_ins.prems(2)] by simp
next
  case (align_keep xs ys k x)
  then show ?case
    using lev_diag [of a b "length xs" "length ys"]
      take_snoc_eq [OF align_keep.prems(1)] take_snoc_eq [OF align_keep.prems(2)] by simp
next
  case (align_sub xs ys k x y)
  then show ?case
    using lev_diag [of a b "length xs" "length ys"]
      take_snoc_eq [OF align_sub.prems(1)] take_snoc_eq [OF align_sub.prems(2)]
    by (simp split: if_splits)
qed simp

lemma lev_align: "i \<le> length a \<Longrightarrow> j \<le> length b \<Longrightarrow> align (take i a) (take j b) (lev a b i j)"
proof (induction a b i j rule: lev.induct)
  case (1 a b j)
  have "align [] (take j b) j" if "j \<le> length b" for j
    using that
  proof (induction j)
    case (Suc j)
    then show ?case using align_ins [of "[]" "take j b" j "b ! j"] by (simp add: take_Suc_conv_app_nth)
  qed (simp add: align_nil)
  then show ?case using 1 by simp
next
  case (2 a b i)
  have "align (take i a) [] i" if "i \<le> length a" for i
    using that
  proof (induction i)
    case (Suc i)
    then show ?case using align_del [of "take i a" "[]" i "a ! i"] by (simp add: take_Suc_conv_app_nth)
  qed (simp add: align_nil)
  then show ?case using 2 by (metis lev.simps(2) take0)
next
  case (3 a b i j)
  have i: "take (Suc i) a = take i a @ [a ! i]" and j: "take (Suc j) b = take j b @ [b ! j]"
    using 3 by (simp_all add: take_Suc_conv_app_nth)
  have del: "align (take (Suc i) a) (take (Suc j) b) (Suc (lev a b i (Suc j)))"
    using align_del [OF 3(1)] 3(4,5) i by simp
  have ins: "align (take (Suc i) a) (take (Suc j) b) (Suc (lev a b (Suc i) j))"
    using align_ins [OF 3(2)] 3(4,5) j by simp
  have diag: "align (take (Suc i) a) (take (Suc j) b) (lev a b i j + (if a ! i = b ! j then 0 else 1))"
    using align_keep [OF 3(3)] align_sub [OF 3(3)] 3(4,5) i j by simp
  show ?case
    using del ins diag by (auto simp: min3_min min_def)
qed

text \<open>The two rows hold the recurrence.\<close>

lemma ed_cells:
  assumes prev: "prev = map (lev a b i) [0..<Suc (length b)]"
    and cur: "length cur = Suc (length b)" "k \<le> length b"
  shows "length (fold (ed_cell (a ! i) b prev) [1..<Suc k] (cur[0 := Suc i])) = Suc (length b)
    \<and> (\<forall>j\<le>k. fold (ed_cell (a ! i) b prev) [1..<Suc k] (cur[0 := Suc i]) ! j = lev a b (Suc i) j)"
  using cur(2)
proof (induction k)
  case 0
  then show ?case using cur by (cases cur) auto
next
  case (Suc k)
  let ?c = "fold (ed_cell (a ! i) b prev) [1..<Suc k] (cur[0 := Suc i])"
  have IH: "length ?c = Suc (length b)" "\<And>j. j \<le> k \<Longrightarrow> ?c ! j = lev a b (Suc i) j"
    using Suc by auto
  have step: "fold (ed_cell (a ! i) b prev) [1..<Suc (Suc k)] (cur[0 := Suc i]) = ed_cell (a ! i) b prev (Suc k) ?c"
    by simp
  have p: "prev ! Suc k = lev a b i (Suc k)" "prev ! k = lev a b i k"
    using Suc.prems unfolding prev by (simp_all del: upt_Suc)
  show ?case
    unfolding step using IH Suc.prems p
    by (auto simp: ed_cell_def nth_list_update le_Suc_eq)
qed

lemma ed_row_lev:
  assumes "prev = map (lev a b i) [0..<Suc (length b)]" "length cur = Suc (length b)"
  shows "ed_row (a ! i) b (Suc i) prev cur = map (lev a b (Suc i)) [0..<Suc (length b)]"
  using ed_cells [OF assms order.refl]
  by (intro nth_equalityI) (auto simp: ed_row_def simp del: upt_Suc)

lemma ed_loop_upto:
  fixes a b :: "int list"
  defines "F \<equiv> \<lambda>i (prev, cur). (ed_row (a ! (i - 1)) b i prev cur, prev)"
    and "s \<equiv> ([0..<Suc (length b)], replicate (Suc (length b)) (0::nat))"
  shows "i \<le> length a \<Longrightarrow> fst (fold F [1..<Suc i] s) = map (lev a b i) [0..<Suc (length b)]
    \<and> length (snd (fold F [1..<Suc i] s)) = Suc (length b)"
proof (induction i)
  case 0
  show ?case by (auto simp: s_def intro: nth_equalityI simp del: upt_Suc)
next
  case (Suc i)
  obtain prev cur where f: "fold F [1..<Suc i] s = (prev, cur)" by fastforce
  have step: "fold F [1..<Suc (Suc i)] s = F (Suc i) (prev, cur)"
    using f by (simp add: upt_Suc_append [of "Suc 0" "Suc i"] del: upt_Suc)
  have "prev = map (lev a b i) [0..<Suc (length b)]" "length cur = Suc (length b)"
    using Suc f by auto
  then show ?case
    unfolding step using ed_row_lev [of prev a b i cur] by (simp add: F_def del: upt_Suc)
qed

lemma editDistance_lev:
  "editDistance a b = lev (runes a) (runes b) (length (runes a)) (length (runes b))"
  using ed_loop_upto [of "length (runes a)" "runes a" "runes b"]
  by (simp add: editDistance_def ed_loop_def del: upt_Suc)

section \<open>Properties of the edit distance\<close>

text \<open>The distance computed with two rolling rows over the runes of the two strings is
  attained by an edit script of insertions, deletions and substitutions, and no edit script
  is shorter: editDistance is the Levenshtein distance.\<close>

theorem editDistance_least:
  "align (runes a) (runes b) (editDistance a b)
    \<and> (\<forall>k. align (runes a) (runes b) k \<longrightarrow> editDistance a b \<le> k)"
  using lev_align [of "length (runes a)" "runes a" "length (runes b)" "runes b"]
    align_lower_bound [of "runes a" "runes b" _ "runes a" "runes b"]
  by (simp add: editDistance_lev)

theorem editDistance_least_witness:
  "editDistance ''slak'' ''slack'' = 1 \<and> editDistance ''slak'' ''slack'' \<le> 2"
proof -
  have d: "editDistance ''slak'' ''slack'' = 1" by code_simp
  have r: "runes ''slak'' = map byte ''slak''" "runes ''slack'' = map byte ''slack''"
    by (simp_all add: runes_ascii is_ascii_def byte_def)
  have "align (map byte ''sla'') (map byte ''slac'') 1"
    using align_ins [of "map byte ''sla''" "map byte ''sla''" 0 "byte (CHR ''c'')"]
      align_keep [OF align_keep [OF align_keep [OF align_nil]], of "byte (CHR ''s'')" "byte (CHR ''l'')" "byte (CHR ''a'')"]
    by simp
  then have "align (runes ''slak'') (runes ''slack'') 1"
    using align_keep [of "map byte ''sla''" "map byte ''slac''" 1 "byte (CHR ''k'')"] by (simp add: r)
  then have "editDistance ''slak'' ''slack'' \<le> 1"
    using editDistance_least [of "''slak''" "''slack''"] by blast
  with d show ?thesis by simp
qed

section \<open>Suggestions\<close>

lemma nearest_fold:
  assumes "fold (nearest_step u) cs ('''', -1) = (best, d)"
  shows "(cs = [] \<longrightarrow> best = '''' \<and> d = -1)
    \<and> (cs \<noteq> [] \<longrightarrow> best \<in> set cs \<and> d = int (editDistance u best)
         \<and> (\<forall>c\<in>set cs. editDistance u best \<le> editDistance u c))"
  using assms
proof (induction cs arbitrary: best d rule: rev_induct)
  case (snoc c cs)
  obtain best0 d0 where f: "fold (nearest_step u) cs ('''', -1) = (best0, d0)" by fastforce
  then have step: "nearest_step u c (best0, d0) = (best, d)" using snoc.prems by simp
  show ?case
  proof (cases "cs = []")
    case True
    then show ?thesis using step f by (auto simp: nearest_step_def)
  next
    case False
    then have IH: "best0 \<in> set cs" "d0 = int (editDistance u best0)"
        "\<forall>x\<in>set cs. editDistance u best0 \<le> editDistance u x"
      using snoc.IH [OF f] by auto
    show ?thesis
    proof (cases "editDistance u c < editDistance u best0")
      case True
      then have "best = c" "d = int (editDistance u c)"
        using step IH(2) by (auto simp: nearest_step_def Let_def split: if_splits)
      then show ?thesis using IH True by force
    next
      case no: False
      then have "best = best0" "d = d0"
        using step IH(2) by (auto simp: nearest_step_def Let_def split: if_splits)
      then show ?thesis using IH no by auto
    qed
  qed
qed simp

text \<open>A suggestion is empty, or a candidate within two edits of the unknown name that no
  other candidate beats; and when some candidate is within two edits, the suggestion is one
  of the candidates.\<close>

theorem nearest_best:
  "(nearest u cs = '''' \<or> (nearest u cs \<in> set cs \<and> editDistance u (nearest u cs) \<le> 2
     \<and> list_all (\<lambda>c. editDistance u (nearest u cs) \<le> editDistance u c) cs))
   \<and> (list_ex (\<lambda>c. editDistance u c \<le> 2) cs \<longrightarrow> nearest u cs \<in> set cs)"
proof -
  obtain best d where f: "fold (nearest_step u) cs ('''', -1) = (best, d)" by fastforce
  have "nearest u cs = '''' \<or> (nearest u cs \<in> set cs \<and> editDistance u (nearest u cs) \<le> 2
     \<and> list_all (\<lambda>c. editDistance u (nearest u cs) \<le> editDistance u c) cs)"
    using nearest_fold [OF f] f by (cases "cs = []") (auto simp: nearest_def list_all_iff)
  moreover have "nearest u cs \<in> set cs" if "list_ex (\<lambda>c. editDistance u c \<le> 2) cs"
    using nearest_fold [OF f] f that
    by (cases "cs = []") (auto simp: nearest_def list_ex_iff intro: order.trans)
  ultimately show ?thesis by blast
qed

theorem nearest_best_witness:
  "nearest ''slak'' [''http'', ''shell'', ''slack''] = ''slack''"
proof -
  have "list_ex (\<lambda>c. editDistance ''slak'' c \<le> 2) [''http'', ''shell'', ''slack'']" by code_simp
  then have "nearest ''slak'' [''http'', ''shell'', ''slack''] \<in> set [''http'', ''shell'', ''slack'']"
    using nearest_best [of "''slak''" "[''http'', ''shell'', ''slack'']"] by blast
  moreover have "nearest ''slak'' [''http'', ''shell'', ''slack''] = ''slack''" by code_simp
  ultimately show ?thesis by simp
qed

section \<open>What a valid Wafer is\<close>

definition config_ok :: "(string \<times> field) list \<Rightarrow> config \<Rightarrow> bool" where
  "config_ok flds m \<longleftrightarrow> list_all (\<lambda>(name, f). case map_of m name of
     None \<Rightarrow> \<not> f_required f | Some v \<Rightarrow> typeMatches (f_type f) v) flds"

definition node_ok :: "capability list \<Rightarrow> value \<Rightarrow> bool" where
  "node_ok types s \<longleftrightarrow> (\<exists>m typ st. s = VObj m \<and> map_of m ''type'' = Some (VStr typ)
     \<and> LookupNode types typ = Some st \<and> config_ok (c_fields st) m
     \<and> (c_name st = ''wait'' \<longrightarrow> map_of m ''signal'' \<noteq> None \<or> map_of m ''timer'' \<noteq> None)
     \<and> (c_name st = ''rerun-failed'' \<longrightarrow>
          (\<forall>mode. map_of m ''mode'' = Some (VStr mode) \<longrightarrow> mode \<in> {''''} \<union> set rerunModes)))"

definition trigger_ok :: "capability list \<Rightarrow> value \<Rightarrow> bool" where
  "trigger_ok types t \<longleftrightarrow> (\<exists>m typ tt. t = VObj m \<and> map_of m ''type'' = Some (VStr typ)
     \<and> LookupTrigger types typ = Some tt \<and> config_ok (c_fields tt) m)"

definition wafer_ok :: "capability list \<Rightarrow> value \<Rightarrow> bool" where
  "wafer_ok types raw \<longleftrightarrow> (\<exists>root name nodes. raw = VObj root
     \<and> map_of root ''name'' = Some (VStr name) \<and> trim_space name \<noteq> ''''
     \<and> (\<forall>v. map_of root ''on_failure'' = Some v \<longrightarrow> (\<exists>s\<in>set rerunModes. v = VStr s))
     \<and> (\<forall>v. map_of root ''triggers'' = Some v \<longrightarrow> (\<exists>ts. v = VArr ts \<and> list_all (trigger_ok types) ts))
     \<and> map_of root ''nodes'' = Some (VArr nodes) \<and> nodes \<noteq> [] \<and> list_all (node_ok types) nodes)"

lemma as_str_None: "as_str v = None \<longleftrightarrow> (\<forall>s. v \<noteq> Some (VStr s))"
  by (cases v rule: as_str.cases) auto

lemma as_arr_None: "as_arr v = None \<longleftrightarrow> (\<forall>vs. v \<noteq> Some (VArr vs))"
  by (cases v rule: as_arr.cases) auto

lemma as_obj_None: "as_obj v = None \<longleftrightarrow> (\<forall>m. v \<noteq> Some (VObj m))"
  by (cases v rule: as_obj.cases) auto

lemma validateConfig_Nil: "validateConfig t flds p m k = [] \<longleftrightarrow> config_ok flds m"
  by (auto simp: validateConfig_def validateField_def config_ok_def list_all_iff
    split: option.splits if_splits prod.splits)

lemma validateWait_Nil: "validateWait p m = [] \<longleftrightarrow> map_of m ''signal'' \<noteq> None \<or> map_of m ''timer'' \<noteq> None"
  by (simp add: validateWait_def)

lemma validateMode_Nil: "validateMode p m = [] \<longleftrightarrow>
    (\<forall>mode. map_of m ''mode'' = Some (VStr mode) \<longrightarrow> mode \<in> {''''} \<union> set rerunModes)"
proof (cases "as_str (map_of m ''mode'')")
  case None
  then have "\<forall>mode. map_of m ''mode'' \<noteq> Some (VStr mode)" by auto
  with None show ?thesis by (simp add: validateMode_def)
next
  case (Some mode)
  then show ?thesis by (simp add: validateMode_def)
qed

lemma validateNode_Nil: "fst (validateNode types p s) = [] \<longleftrightarrow> node_ok types s"
proof (cases "as_obj (Some s)")
  case None
  then have "\<not> node_ok types s" by (auto simp: node_ok_def)
  with None show ?thesis by (simp add: validateNode_def)
next
  case (Some m)
  then have s: "s = VObj m" by simp
  show ?thesis
  proof (cases "as_str (map_of m ''type'')")
    case None
    then have "\<not> node_ok types s" by (auto simp: s node_ok_def)
    with None show ?thesis by (simp add: s validateNode_def)
  next
    case (Some ty)
    then have m: "map_of m ''type'' = Some (VStr ty)" by simp
    show ?thesis
    proof (cases "LookupNode types ty")
      case None
      with m show ?thesis by (simp add: s validateNode_def node_ok_def)
    next
      case (Some st)
      with m show ?thesis
        by (simp add: s validateNode_def node_ok_def validateConfig_Nil validateWait_Nil validateMode_Nil)
    qed
  qed
qed

lemma validateTrigger_Nil: "validateTrigger types p t = [] \<longleftrightarrow> trigger_ok types t"
proof (cases "as_obj (Some t)")
  case None
  then have "\<not> trigger_ok types t" by (auto simp: trigger_ok_def)
  with None show ?thesis by (simp add: validateTrigger_def)
next
  case (Some m)
  then have t: "t = VObj m" by simp
  show ?thesis
  proof (cases "as_str (map_of m ''type'')")
    case None
    then have "\<not> trigger_ok types t" by (auto simp: t trigger_ok_def)
    with None show ?thesis by (simp add: t validateTrigger_def)
  next
    case (Some ty)
    then show ?thesis
      by (auto simp: t validateTrigger_def trigger_ok_def validateConfig_Nil split: option.splits)
  qed
qed

lemma set_enumerate_snd: "snd ` set (enumerate n xs) = set xs"
  by (metis map_snd_enumerate set_map)

lemma validateTriggers_Nil:
  "validateTriggers types on = [] \<longleftrightarrow> (\<exists>ts. on = VArr ts \<and> list_all (trigger_ok types) ts)"
proof (cases "as_arr (Some on)")
  case None
  then have "\<nexists>ts. on = VArr ts" by auto
  with None show ?thesis by (simp add: validateTriggers_def)
next
  case (Some ts)
  have "(\<forall>p\<in>set (enumerate 0 ts). trigger_ok types (snd p)) \<longleftrightarrow> (\<forall>t\<in>set ts. trigger_ok types t)"
    by (metis (no_types, lifting) image_iff set_enumerate_snd)
  then show ?thesis
    using Some by (auto simp: validateTriggers_def validateTrigger_Nil list_all_iff split_beta)
qed

lemma validateName_Nil:
  "validateName root = [] \<longleftrightarrow> (\<exists>name. map_of root ''name'' = Some (VStr name) \<and> trim_space name \<noteq> '''')"
  by (auto simp: validateName_def split: option.splits "value.splits")

lemma validateOnFailure_Nil:
  "validateOnFailure root = [] \<longleftrightarrow>
     (\<forall>v. map_of root ''on_failure'' = Some v \<longrightarrow> (\<exists>s\<in>set rerunModes. v = VStr s))"
proof (cases "map_of root ''on_failure''")
  case (Some v)
  then show ?thesis
    by (cases v) (auto simp: validateOnFailure_def)
qed (simp add: validateOnFailure_def)

text \<open>C4: Validation finds no blocking error exactly in the well-formed Wafers: an object with
  a non-blank name, a known on_failure mode if any, triggers of registered trigger types and
  a non-empty list of nodes of registered node types whose fields are present when required
  and of the declared types, with the extra rules for wait and rerun-failed.\<close>

theorem validateValue_Valid_iff: "Valid (validateValue types raw) \<longleftrightarrow> wafer_ok types raw"
proof (cases "as_obj (Some raw)")
  case None
  then have "\<not> wafer_ok types raw" by (auto simp: wafer_ok_def)
  with None show ?thesis by (simp add: validateValue_def Valid_def)
next
  case (Some root)
  then have raw: "raw = VObj root" by simp
  show ?thesis
  proof (cases "as_arr (map_of root ''nodes'')")
    case None
    then have "\<not> wafer_ok types raw" by (auto simp: raw wafer_ok_def)
    with None show ?thesis by (simp add: raw validateValue_def Valid_def)
  next
    case (Some nodes)
    have "(\<forall>p\<in>set (enumerate 0 nodes). node_ok types (snd p)) \<longleftrightarrow> (\<forall>s\<in>set nodes. node_ok types s)"
      by (metis (no_types, lifting) image_iff set_enumerate_snd)
    then show ?thesis
      using Some
      by (auto simp: raw validateValue_def wafer_ok_def Valid_def validateName_Nil validateOnFailure_Nil
        validateTriggers_Nil validateNode_Nil list_all_iff split_beta Let_def split: option.splits)
  qed
qed

section \<open>Validation and parsing agree\<close>

lemma map_filter_all:
  "list_all (\<lambda>x. f x \<noteq> None) xs \<Longrightarrow> List.map_filter f xs = map (\<lambda>x. the (f x)) xs"
  by (induction xs) (auto simp: List.map_filter_simps)

lemma LookupNode_Some: "LookupNode types n = Some c \<Longrightarrow> c \<in> set types \<and> c_name c = n \<and> isNodeRole c"
  by (auto simp: LookupNode_def find_Some_iff)


definition sample_raw :: config where
  "sample_raw = [(''name'', VStr ''orders''), (''triggers'', VArr [VObj [(''type'', VStr ''manual'')]]),
     (''nodes'', VArr [VObj [(''type'', VStr ''shell''), (''name'', VStr ''fetch''), (''command'', VStr ''true'')]])]"


section \<open>Pointer segments\<close>

text \<open>How a JSON Pointer segment is read back (RFC 6901): first ~1, then ~0.\<close>

definition unescape :: "string \<Rightarrow> string" where
  "unescape seg = replace_all (replace_all seg ''~1'' ''/'') ''~0'' ''~''"

definition escape :: "string \<Rightarrow> string" where
  "escape seg = replace_all (replace_all seg ''~'' ''~0'') ''/'' ''~1''"

definition esc_char :: "char \<Rightarrow> string" where
  "esc_char c = (if c = CHR ''~'' then ''~0'' else if c = CHR ''/'' then ''~1'' else [c])"

lemma escape_chars: "escape s = concat (map esc_char s)"
  unfolding escape_def replace_all_single
  by (induction s) (auto simp: esc_char_def)

lemma unescape_slash: "replace_all (escape s) ''~1'' ''/'' = concat (map (\<lambda>c. if c = CHR ''~'' then ''~0'' else [c]) s)"
  unfolding escape_chars by (induction s) (auto simp: esc_char_def)

lemma unescape_tilde: "replace_all (concat (map (\<lambda>c. if c = CHR ''~'' then ''~0'' else [c]) s)) ''~0'' ''~'' = s"
  by (induction s) auto

text \<open>A pointer's segment is escaped reversibly: the pointer is the base followed by a slash
  and a segment without a slash, and reading that segment back gives the original name. So
  two different fields of an object never share a path.\<close>

theorem ptr_segment_roundtrip:
  "\<exists>seg. ptr base s = base @ ''/'' @ seg \<and> CHR ''/'' \<notin> set seg \<and> unescape seg = s"
proof -
  have "ptr base s = base @ ''/'' @ escape s" by (simp add: ptr_def escape_def Let_def)
  moreover have "CHR ''/'' \<notin> set (escape s)" by (auto simp: escape_chars esc_char_def split: if_splits)
  moreover have "unescape (escape s) = s" by (simp add: unescape_def unescape_slash unescape_tilde)
  ultimately show ?thesis by blast
qed

section \<open>The generated examples\<close>

text \<open>The example a capability derives from its own schema validates: for every registered
  node type the example fragment gives no validation error, and for every registered trigger
  type likewise.\<close>

theorem examples_validate:
  "list_all (\<lambda>t. fst (validateNode all_types ''/nodes/0'' (VObj (NodeExample t))) = []) (Nodes all_types)
   \<and> list_all (\<lambda>t. validateTrigger all_types ''/on/0'' (VObj (TriggerExample t)) = []) (TriggerTypes all_types)"
  by (intro conjI) code_simp+

section \<open>Dry run\<close>

text \<open>A dry run resolves a graph exactly when the document validates, parses and ResolveDAG
  finds no issue; then the graph is ResolveDAG's, the errors are empty, and there is one
  extra warning for every declared secret the environment lacks. Otherwise it reports errors,
  when the document decodes in both ways.\<close>

theorem DryRun_dag:
  fixes types getenv
  assumes "unmarshal data = Inr (VObj raw)" "unmarshal_map data = Inr raw"
  defines "out \<equiv> DryRun types unmarshal unmarshal_map getenv data" and "w \<equiv> fromRaw raw"
  shows "(dr_dag out = Some dag \<longleftrightarrow> wafer_ok types (VObj raw) \<and> ResolveDAG w = (dag, []))
    \<and> (dr_dag out = None \<longleftrightarrow> r_errors (dr_result out) \<noteq> [])
    \<and> (dr_dag out \<noteq> None \<longrightarrow> r_warnings (dr_result out) = r_warnings (validateValue types (VObj raw))
         @ map secret_warning (filter (\<lambda>s. getenv s = '''') (declaredSecretNames w)))"
proof -
  have v: "Validate types unmarshal data = validateValue types (VObj raw)"
    and p: "Parse unmarshal_map data = Inr w"
    using assms by (simp_all add: Validate_def Parse_def)
  show ?thesis
  proof (cases "Valid (validateValue types (VObj raw))")
    case False
    then show ?thesis
      by (simp add: out_def DryRun_def v Let_def validateValue_Valid_iff) (simp add: Valid_def flip: validateValue_Valid_iff)
  next
    case True
    obtain d issues where r: "ResolveDAG w = (d, issues)" by fastforce
    have e: "r_errors (validateValue types (VObj raw)) = []" using True by (simp add: Valid_def)
    show ?thesis
      using True by (auto simp: out_def DryRun_def v p r e Let_def simp flip: validateValue_Valid_iff)
  qed
qed

theorem DryRun_dag_witness:
  "dr_dag (DryRun all_types (\<lambda>_. Inr (VObj sample_raw)) (\<lambda>_. Inr sample_raw) (\<lambda>_. '''') ''doc'')
    = Some (fst (ResolveDAG (fromRaw sample_raw)))"
proof -
  have "Valid (validateValue all_types (VObj sample_raw))" by code_simp
  moreover have "snd (ResolveDAG (fromRaw sample_raw)) = []" by code_simp
  ultimately show ?thesis
    using DryRun_dag [of "\<lambda>_. Inr (VObj sample_raw)" "''doc''" sample_raw "\<lambda>_. Inr sample_raw"
      all_types "\<lambda>_. ''''" "fst (ResolveDAG (fromRaw sample_raw))"]
    by (simp add: validateValue_Valid_iff prod_eq_iff)
qed

end
