(* ===== verification/Refs.thy ===== *)
theory Refs
  imports GoLib
begin

text \<open>
  Secret references in templates (internal/components/refs): \<^verbatim>\<open>$NAME\<close> tokens are listed by
  EachRef, substituted by Substitute, and resolved in header templates against a
  subprocess's NAME=value environment by ResolveHeaders.
\<close>

section \<open>The model\<close>

definition ref_char :: "char \<Rightarrow> bool" where
  "ref_char ch \<longleftrightarrow> ch = CHR ''_'' \<or> (CHR ''A'' \<le> ch \<and> ch \<le> CHR ''Z'')
     \<or> (CHR ''a'' \<le> ch \<and> ch \<le> CHR ''z'') \<or> (CHR ''0'' \<le> ch \<and> ch \<le> CHR ''9'')"

lemma cut_at_shorter: "cut_at c s = Some (a, b) \<Longrightarrow> length b < length s"
  by (auto simp: cut_at_Some)

lemma dropWhile_shorter: "length b < n \<Longrightarrow> length (dropWhile P b) < n"
  by (rule le_less_trans [OF length_dropWhile_le])

text \<open>The names EachRef calls its function with, in order.\<close>

function EachRef :: "string \<Rightarrow> string list" where
  "EachRef rest = (case cut_at (CHR ''$'') rest of
      None \<Rightarrow> []
    | Some (_, after) \<Rightarrow> (let name = takeWhile ref_char after in
        if name = '''' then EachRef after else name # EachRef (dropWhile ref_char after)))"
  by auto
termination
  by (relation "measure length") (auto intro: cut_at_shorter dropWhile_shorter)

function Substitute :: "string \<Rightarrow> (string \<Rightarrow> string option) \<Rightarrow> string res" where
  "Substitute rest vals = (case cut_at (CHR ''$'') rest of
      None \<Rightarrow> Inr rest
    | Some (pre, after) \<Rightarrow> (let name = takeWhile ref_char after in
        if name = '''' then rbind (Substitute after vals) (\<lambda>s. Inr (pre @ ''$'' @ s))
        else case vals name of
          None \<Rightarrow> Inl (errorf (''references undeclared secret '' @ quote name))
        | Some val \<Rightarrow> rbind (Substitute (dropWhile ref_char after) vals) (\<lambda>s. Inr (pre @ val @ s))))"
  by auto
termination
  by (relation "measure (\<lambda>(s, _). length s)") (auto intro: cut_at_shorter dropWhile_shorter)

declare EachRef.simps [simp del] Substitute.simps [simp del]

text \<open>The environment as a map: a later entry of the same name wins.\<close>

definition env_vals :: "string list \<Rightarrow> (string \<times> string) list" where
  "env_vals env = fold (\<lambda>kv m. case cut_at (CHR ''='') kv of
     None \<Rightarrow> m | Some (name, value) \<Rightarrow> AList.update name value m) env []"

definition ResolveHeaders :: "(string \<times> string) list \<Rightarrow> string list \<Rightarrow> (string \<times> string) list res" where
  "ResolveHeaders headers env =
     (if headers = [] then Inr headers
      else rmap (\<lambda>(k, v). rbind (map_err (wrap (''header '' @ k @ '': '')) (Substitute v (map_of (env_vals env))))
             (\<lambda>r. Inr (k, r))) headers)"

definition ReferencedRefs :: "(string \<times> string) list \<Rightarrow> string list" where
  "ReferencedRefs templates = first_uses (concat (map (\<lambda>(_, v). EachRef v) templates))"

section \<open>Templates as literals and references\<close>

datatype token = Lit string | Ref string

fun show_token :: "token \<Rightarrow> string" where
  "show_token (Lit s) = s"
| "show_token (Ref n) = CHR ''$'' # n"

function tokens :: "string \<Rightarrow> token list" where
  "tokens rest = (case cut_at (CHR ''$'') rest of
      None \<Rightarrow> [Lit rest]
    | Some (pre, after) \<Rightarrow> (let name = takeWhile ref_char after in
        if name = '''' then Lit (pre @ ''$'') # tokens after
        else Lit pre # Ref name # tokens (dropWhile ref_char after)))"
  by auto
termination
  by (relation "measure length") (auto intro: cut_at_shorter dropWhile_shorter)

declare tokens.simps [simp del]

fun expand :: "(string \<Rightarrow> string option) \<Rightarrow> token \<Rightarrow> string" where
  "expand vals (Lit s) = s"
| "expand vals (Ref n) = (case vals n of None \<Rightarrow> '''' | Some v \<Rightarrow> v)"

fun ref_of :: "token \<Rightarrow> string list" where
  "ref_of (Lit s) = []"
| "ref_of (Ref n) = [n]"

lemma show_tokens: "concat (map show_token (tokens t)) = t"
proof (induction t rule: tokens.induct)
  case (1 rest)
  show ?case
  proof (cases "cut_at (CHR ''$'') rest")
    case None
    then show ?thesis by (simp add: tokens.simps [of rest])
  next
    case (Some p)
    obtain pre after where p: "p = (pre, after)" by fastforce
    have rest: "rest = pre @ CHR ''$'' # after" using Some p by (simp add: cut_at_Some)
    show ?thesis
    proof (cases "takeWhile ref_char after = ''''")
      case True
      then show ?thesis using 1(1) [OF Some p [symmetric] refl True] Some p rest
        by (simp add: tokens.simps [of "pre @ CHR ''$'' # after"] Let_def)
    next
      case False
      then show ?thesis using 1(2) [OF Some p [symmetric] refl False] Some p rest
        by (simp add: tokens.simps [of "pre @ CHR ''$'' # after"] Let_def)
    qed
  qed
qed

lemma EachRef_tokens: "EachRef t = concat (map ref_of (tokens t))"
proof (induction t rule: EachRef.induct)
  case (1 rest)
  then show ?case
    by (cases "cut_at (CHR ''$'') rest")
       (auto simp: tokens.simps [of rest] EachRef.simps [of rest] Let_def split: if_splits)
qed

lemma Substitute_tokens:
  "Substitute t vals = (if list_all (\<lambda>n. vals n \<noteq> None) (EachRef t)
     then Inr (concat (map (expand vals) (tokens t)))
     else Inl (errorf (''references undeclared secret '' @
       quote (hd (filter (\<lambda>n. vals n = None) (EachRef t))))))"
proof (induction t vals rule: Substitute.induct)
  case (1 rest vals)
  show ?case
  proof (cases "cut_at (CHR ''$'') rest")
    case None
    then show ?thesis
      by (simp add: tokens.simps [of rest] Substitute.simps [of rest] EachRef.simps [of rest])
  next
    case (Some p)
    obtain pre after where p: "p = (pre, after)" by fastforce
    let ?name = "takeWhile ref_char after"
    show ?thesis
    proof (cases "?name = ''''")
      case True
      show ?thesis using 1(1) [OF Some p [symmetric] refl True] Some p True
        by (simp add: tokens.simps [of rest] Substitute.simps [of rest] EachRef.simps [of rest] Let_def)
    next
      case False
      show ?thesis
      proof (cases "vals ?name")
        case None
        then show ?thesis using Some p False
          by (simp add: Substitute.simps [of rest] EachRef.simps [of rest] Let_def)
      next
        case val: (Some v)
        show ?thesis using 1(2) [OF Some p [symmetric] refl False val] Some p False val
          by (simp add: tokens.simps [of rest] Substitute.simps [of rest] EachRef.simps [of rest] Let_def)
      qed
    qed
  qed
qed

text \<open>C9: A template is a sequence of literals and references that spells it out; Substitute
  succeeds exactly when every reference EachRef lists has a value, and then the result is the
  literals with each reference replaced by its value. Otherwise the error names the first
  reference without one.\<close>

theorem Substitute_meaning:
  "concat (map show_token (tokens t)) = t
   \<and> EachRef t = concat (map ref_of (tokens t))
   \<and> Substitute t vals = (if list_all (\<lambda>n. vals n \<noteq> None) (EachRef t)
       then Inr (concat (map (expand vals) (tokens t)))
       else Inl (errorf (''references undeclared secret '' @
         quote (hd (filter (\<lambda>n. vals n = None) (EachRef t))))))"
  using show_tokens EachRef_tokens Substitute_tokens by blast

lemma Substitute_cong:
  "list_all (\<lambda>n. vals n = vals' n) (EachRef t) \<Longrightarrow> Substitute t vals = Substitute t vals'"
proof -
  assume *: "list_all (\<lambda>n. vals n = vals' n) (EachRef t)"
  then have all: "list_all (\<lambda>n. vals n \<noteq> None) (EachRef t) \<longleftrightarrow> list_all (\<lambda>n. vals' n \<noteq> None) (EachRef t)"
    and f: "filter (\<lambda>n. vals n = None) (EachRef t) = filter (\<lambda>n. vals' n = None) (EachRef t)"
    by (auto simp: list_all_iff intro: filter_cong)
  have "expand vals x = expand vals' x" if "x \<in> set (tokens t)" for x
    using * that by (cases x) (auto simp: EachRef_tokens list_all_iff)
  then have "map (expand vals) (tokens t) = map (expand vals') (tokens t)" by simp
  then show ?thesis by (simp only: Substitute_tokens all f)
qed

end
