(* ===== verification/Tables.thy ===== *)
theory Tables
  imports Prelude
begin

text \<open>
  A SQL table with a primary key as an association list, and the statements the store
  issues against one: INSERT OR REPLACE, SELECT by key, UPDATE by key and DELETE by key.
  The locale states the contract the store's operations rely on; it is interpreted on the
  association lists here, and the config file's sections use the same contract.
\<close>

section \<open>The contract\<close>

locale keyed_table =
  fixes empty :: "'t"
    and get :: "'k \<Rightarrow> 't \<Rightarrow> 'v option"
    and put :: "'k \<Rightarrow> 'v \<Rightarrow> 't \<Rightarrow> 't"
    and modify :: "'k \<Rightarrow> ('v \<Rightarrow> 'v) \<Rightarrow> 't \<Rightarrow> 't"
    and del :: "'k \<Rightarrow> 't \<Rightarrow> 't"
  assumes get_empty: "get k empty = None"
    and get_put: "get k (put k' v t) = (if k = k' then Some v else get k t)"
    and get_modify: "get k (modify k' f t) = (if k = k' then map_option f (get k t) else get k t)"
    and get_del: "get k (del k' t) = (if k = k' then None else get k t)"
begin

lemma get_put_same: "get k (put k v t) = Some v"
  by (simp add: get_put)

lemma get_put_other: "k \<noteq> k' \<Longrightarrow> get k (put k' v t) = get k t"
  by (simp add: get_put)

lemma get_modify_missing: "get k t = None \<Longrightarrow> get k' (modify k f t) = get k' t"
  by (simp add: get_modify)

lemma modify_commute:
  "f \<circ> g = g \<circ> f \<Longrightarrow> get k (modify a f (modify b g t)) = get k (modify b g (modify a f t))"
  by (auto simp: get_modify option.map_comp)

lemma modify_other: "k \<notin> set ks \<Longrightarrow> get k (fold (\<lambda>a. modify a f) ks t) = get k t"
  by (induction ks arbitrary: t) (auto simp: get_modify)

lemma modify_once:
  "distinct ks \<Longrightarrow> k \<in> set ks \<Longrightarrow> get k (fold (\<lambda>a. modify a f) ks t) = map_option f (get k t)"
  by (induction ks arbitrary: t) (auto simp: get_modify modify_other)

lemma puts_other:
  "k \<notin> fst ` set kvs \<Longrightarrow> get k (fold (\<lambda>(a, v). put a v) kvs t) = get k t"
  by (induction kvs arbitrary: t) (auto simp: get_put)

lemma puts_distinct:
  "distinct (map fst kvs) \<Longrightarrow> (k, v) \<in> set kvs \<Longrightarrow> get k (fold (\<lambda>(a, v). put a v) kvs t) = Some v"
proof (induction kvs arbitrary: t)
  case (Cons kv kvs)
  then show ?case
    by (cases "kv = (k, v)") (force simp: puts_other get_put)+
qed simp

end

section \<open>Association lists keep it\<close>

type_synonym ('k, 'v) table = "('k \<times> 'v) list"

definition select :: "'k \<Rightarrow> ('k, 'v) table \<Rightarrow> 'v option" where
  "select k t = map_of t k"

definition upsert :: "'k \<Rightarrow> 'v \<Rightarrow> ('k, 'v) table \<Rightarrow> ('k, 'v) table" where
  "upsert k v t = AList.update k v t"

definition modify_row :: "'k \<Rightarrow> ('v \<Rightarrow> 'v) \<Rightarrow> ('k, 'v) table \<Rightarrow> ('k, 'v) table" where
  "modify_row k f t = map (\<lambda>(k', v). if k' = k then (k', f v) else (k', v)) t"

definition delete_row :: "'k \<Rightarrow> ('k, 'v) table \<Rightarrow> ('k, 'v) table" where
  "delete_row k t = filter (\<lambda>(k', v). k' \<noteq> k) t"

lemma map_of_modify_row: "map_of (modify_row k f t) k' = (if k' = k then map_option f (map_of t k') else map_of t k')"
  by (induction t) (auto simp: modify_row_def)

lemma map_of_delete_row: "map_of (delete_row k t) k' = (if k' = k then None else map_of t k')"
  by (induction t) (auto simp: delete_row_def)

interpretation tbl: keyed_table "[]" select upsert modify_row delete_row
  by unfold_locales (auto simp: select_def upsert_def map_of_modify_row map_of_delete_row)

lemmas table_simps [simp] = tbl.get_empty tbl.get_put tbl.get_modify tbl.get_del

section \<open>Counting rows\<close>

definition count_rows :: "('k \<Rightarrow> 'v \<Rightarrow> bool) \<Rightarrow> ('k, 'v) table \<Rightarrow> nat" where
  "count_rows P t = length (filter (\<lambda>(k, v). P k v) t)"

lemma count_rows_0: "count_rows P t = 0 \<longleftrightarrow> (\<forall>(k, v)\<in>set t. \<not> P k v)"
  by (auto simp: count_rows_def filter_empty_conv)

text \<open>The primary key is unique in every table an operation builds.\<close>

definition key_unique :: "('k, 'v) table \<Rightarrow> bool" where
  "key_unique t \<longleftrightarrow> distinct (map fst t)"

lemma key_unique_upsert [simp]: "key_unique t \<Longrightarrow> key_unique (upsert k v t)"
  by (simp add: key_unique_def upsert_def distinct_update)

lemma key_unique_modify_row [simp]: "key_unique (modify_row k f t) \<longleftrightarrow> key_unique t"
proof -
  have "map fst (modify_row k f t) = map fst t"
    by (auto simp: modify_row_def)
  then show ?thesis by (simp add: key_unique_def)
qed

lemma key_unique_delete_row [simp]: "key_unique t \<Longrightarrow> key_unique (delete_row k t)"
  by (simp add: key_unique_def delete_row_def distinct_map_filter)

lemma select_in: "key_unique t \<Longrightarrow> (k, v) \<in> set t \<longleftrightarrow> select k t = Some v"
  by (simp add: key_unique_def select_def)

end
