(* ===== verification/Secrets.thy ===== *)
theory Secrets
  imports GoLib Tables
begin

text \<open>
  Secret resolution (internal/components/secret): the provider interface with its failure
  classes, the registry of providers, the resolver that routes a secret name to the provider
  of its declared source, and the providers compiled into the build: the environment, a
  fixed map, varlock's loaded copy and the on-box ciphertext store. The process environment,
  the output of the varlock command, the file system's answers, random bytes and the AES-GCM
  and base64 primitives are parameters.
\<close>

section \<open>Providers and the registry (secret.go)\<close>

type_synonym provider = "string \<Rightarrow> string \<Rightarrow> string res"   \<comment> \<open>node name, secret name\<close>

type_synonym registry = "(string, provider) table"

definition NewRegistry :: registry where
  "NewRegistry = []"

definition Registry_Register :: "string \<Rightarrow> provider \<Rightarrow> registry \<Rightarrow> registry" where
  "Registry_Register source p r = upsert source p r"

definition Registry_Provider :: "registry \<Rightarrow> string \<Rightarrow> provider option" where
  "Registry_Provider r source = select source r"

definition SourceNames :: "registry \<Rightarrow> string list" where
  "SourceNames r = sort (map fst r)"

record resolver =
  rs_providers :: registry
  rs_sources :: "(string, string) table"

definition NewResolver :: "registry option \<Rightarrow> (string, string) table option \<Rightarrow> resolver" where
  "NewResolver reg sources = \<lparr>
     rs_providers = (case reg of None \<Rightarrow> [] | Some r \<Rightarrow> r),
     rs_sources = (case sources of None \<Rightarrow> [] | Some s \<Rightarrow> s) \<rparr>"

text \<open>The values found or the error, and the names found missing on the way.\<close>

fun resolve_names :: "resolver \<Rightarrow> string \<Rightarrow> string list \<Rightarrow> (string, string) table \<Rightarrow> string list
    \<Rightarrow> (string, string) table res \<times> string list" where
  "resolve_names r nodeName [] vals missing = (Inr vals, missing)"
| "resolve_names r nodeName (name # names) vals missing = (case select name (rs_sources r) of
      None \<Rightarrow> (Inl (Err KUndeclared (''secret not declared: '' @ name)), missing)
    | Some source \<Rightarrow> (case select source (rs_providers r) of
        None \<Rightarrow> (Inl (Err KUnreachable (''secret source unreachable: '' @ name @ '' (no provider for source '' @ quote source @ '')'')), missing)
      | Some prov \<Rightarrow> (case prov nodeName name of
          Inr v \<Rightarrow> if v = '''' then resolve_names r nodeName names vals (missing @ [name])
                  else resolve_names r nodeName names (upsert name v vals) missing
        | Inl e \<Rightarrow> if err_kind e = KMissing then resolve_names r nodeName names vals (missing @ [name])
                  else (Inl e, missing))))"

definition Resolve :: "resolver \<Rightarrow> string \<Rightarrow> string list \<Rightarrow> (string, string) table res \<times> string list" where
  "Resolve r nodeName names = resolve_names r nodeName names [] []"

definition Declared :: "resolver \<Rightarrow> string \<Rightarrow> bool" where
  "Declared r name \<longleftrightarrow> select name (rs_sources r) \<noteq> None"

section \<open>The providers\<close>

abbreviation missing_error :: "string \<Rightarrow> err" where
  "missing_error name \<equiv> Err KMissing (''secret missing: '' @ name)"

text \<open>env.go: os.Getenv is the parameter.\<close>

definition EnvProvider :: "(string \<Rightarrow> string) \<Rightarrow> provider" where
  "EnvProvider getenv nodeName name =
     (if getenv name \<noteq> '''' then Inr (getenv name) else Inl (missing_error name))"

text \<open>helpers.go.\<close>

definition MapProvider :: "(string, string) table \<Rightarrow> provider" where
  "MapProvider m nodeName name = (case select name m of
      Some v \<Rightarrow> if v \<noteq> '''' then Inr v else Inl (missing_error name)
    | None \<Rightarrow> Inl (missing_error name))"

definition ResolverFromMap :: "(string, string) table \<Rightarrow> resolver" where
  "ResolverFromMap m = NewResolver (Some (Registry_Register ''test'' (MapProvider m) NewRegistry))
     (Some (map (\<lambda>(k, _). (k, ''test'')) m))"

text \<open>varlock.go: the decoded output of the varlock command (name and value of every config
  entry), or its error, is the parameter; it is loaded once.\<close>

definition varlock_load :: "(string, string) table res \<Rightarrow> (string, string) table res" where
  "varlock_load out = rbind out (\<lambda>full. Inr (filter (\<lambda>(_, v). v \<noteq> '''') full))"

definition VarlockProvider :: "(string, string) table res \<Rightarrow> provider" where
  "VarlockProvider out nodeName name = (case varlock_load out of
      Inl e \<Rightarrow> Inl (Err KUnreachable (''secret source unreachable: '' @ err_msg e))
    | Inr vals \<Rightarrow> (case select name vals of
        None \<Rightarrow> Inl (missing_error name)
      | Some v \<Rightarrow> if v = '''' then Inl (missing_error name) else Inr v))"

section \<open>The on-box store (onbox.go)\<close>

text \<open>
  The primitives the store is built on: base64, AES-GCM over a key and a nonce (seal appends
  the ciphertext to its first argument; the cipher rejects keys of a wrong size), the path
  join, and the source of random bytes.
\<close>

record crypto =
  cr_b64enc :: "string \<Rightarrow> string"
  cr_b64dec :: "string \<Rightarrow> string res"
  cr_key_ok :: "string \<Rightarrow> bool"
  cr_nonce_size :: nat
  cr_seal :: "string \<Rightarrow> string \<Rightarrow> string \<Rightarrow> string"       \<comment> \<open>key, nonce, plaintext\<close>
  cr_open :: "string \<Rightarrow> string \<Rightarrow> string \<Rightarrow> string res"   \<comment> \<open>key, nonce, ciphertext\<close>
  cr_join :: "string \<Rightarrow> string \<Rightarrow> string"

type_synonym files = "(string, string) table"

definition read_file :: "files \<Rightarrow> string \<Rightarrow> string res" where
  "read_file fs p = (case select p fs of None \<Rightarrow> Inl (Err KNotExist (''open '' @ p @ '': no such file or directory''))
     | Some s \<Rightarrow> Inr s)"

definition keyPath :: "crypto \<Rightarrow> string \<Rightarrow> string" where
  "keyPath cr dir = cr_join cr dir ''.key''"

definition loadKey :: "crypto \<Rightarrow> files \<Rightarrow> string \<Rightarrow> string res" where
  "loadKey cr fs dir = read_file fs (keyPath cr dir)"

definition encrypt :: "crypto \<Rightarrow> string \<Rightarrow> string \<Rightarrow> string \<Rightarrow> string res" where
  "encrypt cr nonce key plaintext =
     (if \<not> cr_key_ok cr key then Inl (errorf ''onbox: cipher: invalid key size'')
      else Inr (cr_b64enc cr (nonce @ cr_seal cr key nonce plaintext)))"

definition decrypt :: "crypto \<Rightarrow> string \<Rightarrow> string \<Rightarrow> string res" where
  "decrypt cr key raw =
     rbind (map_err (wrap ''decode: '') (cr_b64dec cr raw)) (\<lambda>data.
     if \<not> cr_key_ok cr key then Inl (errorf ''cipher: invalid key size'')
     else if length data < cr_nonce_size cr then Inl (errorf ''sealed value too short'')
     else map_err (wrap ''decrypt: '')
       (cr_open cr key (take (cr_nonce_size cr) data) (drop (cr_nonce_size cr) data)))"

definition OnBoxProvider :: "crypto \<Rightarrow> files \<Rightarrow> string \<Rightarrow> provider" where
  "OnBoxProvider cr fs dir nodeName name = (case loadKey cr fs dir of
      Inl e \<Rightarrow> if err_kind e = KNotExist
        then Inl (Err KUnreachable (''secret source unreachable: on-box store not initialized at '' @ dir))
        else Inl (Err KUnreachable (''secret source unreachable: '' @ err_msg e))
    | Inr key \<Rightarrow> (case read_file fs (cr_join cr dir name) of
        Inl e \<Rightarrow> if err_kind e = KNotExist then Inl (missing_error name)
          else Inl (Err KUnreachable (''secret source unreachable: '' @ err_msg e))
      | Inr raw \<Rightarrow> (case decrypt cr key raw of
          Inl e \<Rightarrow> Inl (Err KStale (''secret stale: '' @ err_msg e))
        | Inr v \<Rightarrow> Inr v)))"

text \<open>The key (random when the store has none) and the nonce come from the caller.\<close>

definition loadOrCreateKey :: "crypto \<Rightarrow> string \<Rightarrow> files \<Rightarrow> string \<Rightarrow> (string \<times> files) res" where
  "loadOrCreateKey cr newkey fs dir = (case loadKey cr fs dir of
      Inr key \<Rightarrow> Inr (key, fs)
    | Inl e \<Rightarrow> if err_kind e \<noteq> KNotExist then Inl (wrap ''onbox: read key: '' e)
        else Inr (newkey, upsert (keyPath cr dir) newkey fs))"

definition SealOnBox :: "crypto \<Rightarrow> string \<Rightarrow> string \<Rightarrow> files \<Rightarrow> string \<Rightarrow> string \<Rightarrow> string \<Rightarrow> files res" where
  "SealOnBox cr newkey nonce fs dir name value =
     rbind (loadOrCreateKey cr newkey fs dir) (\<lambda>(key, fs).
     rbind (encrypt cr nonce key value) (\<lambda>sealed.
     Inr (upsert (cr_join cr dir name) sealed fs)))"

text \<open>default.go.\<close>

definition DefaultRegistry :: "(string \<Rightarrow> string) \<Rightarrow> (string, string) table res \<Rightarrow> crypto \<Rightarrow> files \<Rightarrow> string \<Rightarrow> registry" where
  "DefaultRegistry getenv varlock cr fs dir =
     Registry_Register ''onbox'' (OnBoxProvider cr fs dir)
    (Registry_Register ''varlock'' (VarlockProvider varlock)
    (Registry_Register ''env'' (EnvProvider getenv) NewRegistry))"

section \<open>The provider contract\<close>

text \<open>A provider fails with one of the three classified errors.\<close>

locale secret_provider =
  fixes resolve :: provider
  assumes classified: "resolve node name = Inl e \<Longrightarrow> err_kind e \<in> {KMissing, KUnreachable, KStale}"
begin

lemma not_missing: "resolve node name = Inl e \<Longrightarrow> err_kind e \<noteq> KMissing \<Longrightarrow> err_kind e \<in> {KUnreachable, KStale}"
  using classified by blast

end

interpretation env: secret_provider "EnvProvider getenv"
  by unfold_locales (auto simp: EnvProvider_def split: if_splits)

interpretation fixed: secret_provider "MapProvider m"
  by unfold_locales (auto simp: MapProvider_def split: option.splits if_splits)

interpretation varlock: secret_provider "VarlockProvider out"
  by unfold_locales (auto simp: VarlockProvider_def split: sum.splits option.splits if_splits)

interpretation onbox: secret_provider "OnBoxProvider cr fs dir"
  by unfold_locales (auto simp: OnBoxProvider_def split: sum.splits if_splits)

text \<open>What a resolver may rely on when all its providers keep the contract.\<close>

locale classified_resolver =
  fixes r :: resolver
  assumes providers_classified: "select source (rs_providers r) = Some p \<Longrightarrow> secret_provider p"
begin

lemma resolve_error_kind:
  "resolve_names r node names vals missing = (Inl e, ms) \<Longrightarrow>
     err_kind e \<in> {KUndeclared, KUnreachable, KStale}"
proof (induction names arbitrary: vals missing)
  case (Cons name names)
  show ?case
  proof (cases "select name (rs_sources r)")
    case None
    then show ?thesis using Cons.prems by auto
  next
    case source: (Some source)
    show ?thesis
    proof (cases "select source (rs_providers r)")
      case None
      then show ?thesis using Cons.prems source by auto
    next
      case prov: (Some prov)
      then have ok: "secret_provider prov" by (rule providers_classified)
      show ?thesis
      proof (cases "prov node name")
        case (Inl e')
        then show ?thesis
          using Cons source prov secret_provider.classified [OF ok Inl] by (auto split: if_splits)
      next
        case (Inr v)
        then show ?thesis using Cons source prov by (auto split: if_splits)
      qed
    qed
  qed
qed simp

lemma Resolve_error_kind:
  "fst (Resolve r node names) = Inl e \<Longrightarrow> err_kind e \<in> {KUndeclared, KUnreachable, KStale}"
  using resolve_error_kind [of node names "[]" "[]" e "snd (Resolve r node names)"]
  by (simp add: Resolve_def prod_eq_iff)

end

text \<open>The providers of this build keep the contract, whatever sources are declared.\<close>

interpretation default: classified_resolver
  "NewResolver (Some (DefaultRegistry getenv varlock cr fs dir)) sources"
proof (rule classified_resolver.intro)
  fix source p
  assume "select source (rs_providers (NewResolver (Some (DefaultRegistry getenv varlock cr fs dir)) sources)) = Some p"
  then have "p \<in> {OnBoxProvider cr fs dir, VarlockProvider varlock, EnvProvider getenv}"
    by (auto simp: NewResolver_def DefaultRegistry_def Registry_Register_def NewRegistry_def split: if_splits)
  then show "secret_provider p"
    using env.secret_provider_axioms varlock.secret_provider_axioms onbox.secret_provider_axioms by auto
qed

section \<open>Properties of the resolver\<close>

lemma resolve_names_found:
  "resolve_names r node names vals missing = (Inr vs, ms) \<Longrightarrow> (\<forall>v. select n vals = Some v \<longrightarrow> v \<noteq> '''') \<Longrightarrow>
     (\<forall>v. select n vs = Some v \<longrightarrow> v \<noteq> '''')
     \<and> (n \<in> set names \<longrightarrow> select n vs \<noteq> None \<or> n \<in> set ms)
     \<and> (select n vals \<noteq> None \<longrightarrow> select n vs \<noteq> None) \<and> set missing \<subseteq> set ms
     \<and> (select n vals = None \<and> n \<notin> set names \<longrightarrow> select n vs = None)
     \<and> set ms \<subseteq> set missing \<union> set names"
proof (induction names arbitrary: vals missing)
  case (Cons name names)
  from Cons.prems(1) obtain source prov where
    sp: "select name (rs_sources r) = Some source" "select source (rs_providers r) = Some prov"
    by (auto split: option.splits)
  have miss: ?case if "resolve_names r node names vals (missing @ [name]) = (Inr vs, ms)"
    using Cons.IH [OF that Cons.prems(2)] by auto
  show ?case
  proof (cases "prov node name")
    case (Inl e)
    then show ?thesis using Cons.prems(1) sp miss by (auto split: if_splits)
  next
    case (Inr v)
    show ?thesis
    proof (cases "v = ''''")
      case True
      then show ?thesis using Cons.prems(1) sp miss Inr by simp
    next
      case False
      then have "resolve_names r node names (upsert name v vals) missing = (Inr vs, ms)"
        using Cons.prems(1) sp Inr by simp
      moreover have "\<forall>v'. select n (upsert name v vals) = Some v' \<longrightarrow> v' \<noteq> ''''"
        using Cons.prems(2) False by simp
      ultimately have IH: "(\<forall>v. select n vs = Some v \<longrightarrow> v \<noteq> '''')
          \<and> (n \<in> set names \<longrightarrow> select n vs \<noteq> None \<or> n \<in> set ms)
          \<and> (select n (upsert name v vals) \<noteq> None \<longrightarrow> select n vs \<noteq> None) \<and> set missing \<subseteq> set ms
          \<and> (select n (upsert name v vals) = None \<and> n \<notin> set names \<longrightarrow> select n vs = None)
          \<and> set ms \<subseteq> set missing \<union> set names"
        by (rule Cons.IH)
      have ms: "set ms \<subseteq> set missing \<union> set (name # names)" using IH by auto
      show ?thesis
      proof (cases "n = name")
        case True
        then have "select n vs \<noteq> None" using IH by simp
        with True IH ms show ?thesis by simp
      next
        case False
        with IH ms show ?thesis by simp
      qed
    qed
  qed
qed simp



section \<open>Sealing on the box\<close>

text \<open>The primitives' documented behaviour: decoding undoes encoding, and opening with the key
  and nonce a value was sealed with gives the value.\<close>

definition crypto_ok :: "crypto \<Rightarrow> bool" where
  "crypto_ok cr \<longleftrightarrow> (\<forall>s. cr_b64dec cr (cr_b64enc cr s) = Inr s)
     \<and> (\<forall>key nonce p. cr_key_ok cr key \<longrightarrow> length nonce = cr_nonce_size cr \<longrightarrow>
          cr_open cr key nonce (cr_seal cr key nonce p) = Inr p)"

text \<open>C11: What is sealed into the on-box store is what the provider resolves: after SealOnBox
  succeeds for a name other than the key file's, resolving that name gives the sealed value,
  and every other secret resolves as before once the store has its key.\<close>

theorem seal_then_resolve:
  assumes "crypto_ok cr" "length nonce = cr_nonce_size cr"
    and "SealOnBox cr newkey nonce fs dir name val = Inr fs'"
    and "cr_join cr dir name \<noteq> keyPath cr dir"
  shows "OnBoxProvider cr fs' dir node name = Inr val
    \<and> (\<forall>other. cr_join cr dir other \<noteq> cr_join cr dir name \<longrightarrow> loadKey cr fs dir = Inr key \<longrightarrow>
         OnBoxProvider cr fs' dir node other = OnBoxProvider cr fs dir node other)"
proof -
  from assms(3) obtain k fs1 sealed where
      k: "loadOrCreateKey cr newkey fs dir = Inr (k, fs1)"
    and sealed: "encrypt cr nonce k val = Inr sealed"
    and fs': "fs' = upsert (cr_join cr dir name) sealed fs1"
    by (auto simp: SealOnBox_def rbind_eq_Inr)
  have key1: "select (keyPath cr dir) fs1 = Some k"
    using k by (auto simp: loadOrCreateKey_def loadKey_def read_file_def split: sum.splits option.splits if_splits)
  have keyok: "cr_key_ok cr k" and s: "sealed = cr_b64enc cr (nonce @ cr_seal cr k nonce val)"
    using sealed by (auto simp: encrypt_def split: if_splits)
  have "decrypt cr k sealed = Inr val"
    using assms(1,2) keyok by (simp add: s decrypt_def crypto_ok_def)
  then have "OnBoxProvider cr fs' dir node name = Inr val"
    using key1 assms(4) by (simp add: OnBoxProvider_def loadKey_def read_file_def fs')
  moreover have "OnBoxProvider cr fs' dir node other = OnBoxProvider cr fs dir node other"
    if "cr_join cr dir other \<noteq> cr_join cr dir name" "loadKey cr fs dir = Inr key" for other
  proof -
    have "fs1 = fs" using k that(2) by (auto simp: loadOrCreateKey_def)
    then show ?thesis using that assms(4)
      by (simp add: OnBoxProvider_def loadKey_def read_file_def fs')
  qed
  ultimately show ?thesis by blast
qed

definition toy_crypto :: crypto where
  "toy_crypto = \<lparr> cr_b64enc = (\<lambda>s. s), cr_b64dec = Inr, cr_key_ok = (\<lambda>k. length k = 2), cr_nonce_size = 1,
     cr_seal = (\<lambda>key nonce p. rev p), cr_open = (\<lambda>key nonce c. Inr (rev c)),
     cr_join = (\<lambda>d n. d @ ''/'' @ n) \<rparr>"

theorem seal_then_resolve_witness:
  "OnBoxProvider toy_crypto [(''s/TOKEN'', ''xcba''), (''s/.key'', ''kk'')] ''s'' ''node'' ''TOKEN'' = Inr ''abc''"
proof -
  have "SealOnBox toy_crypto ''zz'' ''x'' [(''s/TOKEN'', ''old''), (''s/.key'', ''kk'')] ''s'' ''TOKEN'' ''abc''
      = Inr [(''s/TOKEN'', ''xcba''), (''s/.key'', ''kk'')]"
    by (simp add: SealOnBox_def loadOrCreateKey_def loadKey_def read_file_def keyPath_def encrypt_def
      toy_crypto_def select_def upsert_def)
  from seal_then_resolve [OF _ _ this] show ?thesis
    by (simp add: crypto_ok_def toy_crypto_def keyPath_def)
qed

end
