(* ===== verification/Exec.thy ===== *)
theory Exec
  imports GoLib Tables "HOL-Library.Sublist"
begin

text \<open>
  The subprocess boundary (internal/components/exec): the filtered environment, the redaction
  of captured output and Run. The operating system (what a command with this argv,
  environment and standard input prints and how it exits) and the JSON decoder are
  parameters.
\<close>

section \<open>The model\<close>

record exec_request =
  ex_command :: "string list"
  ex_env :: "string list"
  ex_input :: "value"

record proc_outcome =
  pr_error :: "err option"
  pr_stdout :: string
  pr_stderr :: string

type_synonym os = "string list \<Rightarrow> string list \<Rightarrow> string option \<Rightarrow> proc_outcome"

definition redact_one :: "string \<Rightarrow> string \<Rightarrow> string" where
  "redact_one kv out = (case cut_at (CHR ''='') kv of
      None \<Rightarrow> out
    | Some (name, value) \<Rightarrow> if name = ''PATH'' \<or> value = '''' then out
        else replace_all out value (''<redacted:'' @ name @ ''>''))"

definition redactEnv :: "string list \<Rightarrow> string \<Rightarrow> string" where
  "redactEnv env b = fold redact_one env b"

definition default_path :: string where
  "default_path = ''/usr/local/sbin:/usr/local/bin:/usr/sbin:/usr/bin:/sbin:/bin''"

definition baseEnv :: "(string \<Rightarrow> string) \<Rightarrow> (string \<times> string) list" where
  "baseEnv getenv = [(''PATH'', if getenv ''PATH'' = '''' then default_path else getenv ''PATH'')]"

definition FilteredEnv :: "(string \<Rightarrow> string) \<Rightarrow> (string, string) table \<Rightarrow> string list \<Rightarrow> string list \<times> string list" where
  "FilteredEnv getenv secrets declared =
     (map (\<lambda>(k, v). k @ ''='' @ v) (baseEnv getenv) @
        List.map_filter (\<lambda>name. map_option (\<lambda>v. name @ ''='' @ v) (select name secrets)) declared,
      filter (\<lambda>name. select name secrets = None) declared)"

definition Run :: "os \<Rightarrow> (string \<Rightarrow> value res) \<Rightarrow> exec_request \<Rightarrow> value res" where
  "Run os unmarshal req =
     (if ex_command req = [] then Inl (errorf ''exec: empty command'')
      else rbind (if ex_input req = VNull then Inr None
                  else map_err (wrap ''exec: marshal input: '') (rbind (json_marshal (ex_input req)) (\<lambda>t. Inr (Some t)))) (\<lambda>stdin.
       let p = os (ex_command req) (ex_env req) stdin;
           stderr = redactEnv (ex_env req) (pr_stderr p) in
       case pr_error p of
         Some e \<Rightarrow> Inl (Err (err_kind e) (''exec: node failed: '' @ err_msg e @ '': '' @ stderr))
       | None \<Rightarrow> (let out = redactEnv (ex_env req) (trim_space (pr_stdout p)) in
           if out = '''' then Inl (errorf (''exec: node produced no JSON output on stdout: '' @ stderr))
           else case unmarshal out of
             Inl e \<Rightarrow> Inl (Err (err_kind e) (''exec: node stdout is not valid JSON: '' @ err_msg e @ '': '' @ stderr))
           | Inr v \<Rightarrow> Inr v)))"

section \<open>The filtered environment\<close>

definition env_name :: "string \<Rightarrow> string" where
  "env_name kv = takeWhile (\<lambda>c. c \<noteq> CHR ''='') kv"

lemma env_name_append [simp]: "CHR ''='' \<notin> set n \<Longrightarrow> env_name (n @ CHR ''='' # v) = n"
  by (induction n) (auto simp: env_name_def)

text \<open>A node's subprocess sees PATH and the declared secrets that have a value, and nothing
  else: an entry of its environment is the PATH entry or \<^verbatim>\<open>NAME=value\<close> for a declared name with
  that resolved value, every declared name with a value has its entry, and the others are
  exactly the ones reported missing.\<close>

theorem FilteredEnv_exact:
  "set (fst (FilteredEnv getenv secrets declared)) =
     {''PATH='' @ (if getenv ''PATH'' = '''' then default_path else getenv ''PATH'')}
     \<union> {n @ ''='' @ v | n v. n \<in> set declared \<and> select n secrets = Some v}
   \<and> set (snd (FilteredEnv getenv secrets declared)) = {n \<in> set declared. select n secrets = None}"
  by (auto simp: FilteredEnv_def baseEnv_def set_map_filter)

section \<open>Redaction\<close>

text \<open>A value without angle brackets cannot straddle a placeholder.\<close>

definition plain :: "string \<Rightarrow> bool" where
  "plain v \<longleftrightarrow> v \<noteq> '''' \<and> CHR ''<'' \<notin> set v \<and> CHR ''>'' \<notin> set v"

definition occurs :: "string \<Rightarrow> string \<Rightarrow> bool" where
  "occurs v s \<longleftrightarrow> (\<exists>k. has_prefix (drop k s) v)"

lemma occurs_Cons: "v \<noteq> '''' \<Longrightarrow> occurs v (c # s) \<longleftrightarrow> has_prefix (c # s) v \<or> occurs v s"
proof
  assume "occurs v (c # s)"
  then obtain k where "has_prefix (drop k (c # s)) v" by (auto simp: occurs_def)
  then show "has_prefix (c # s) v \<or> occurs v s"
    by (cases k) (auto simp: occurs_def)
next
  assume "has_prefix (c # s) v \<or> occurs v s"
  then show "occurs v (c # s)"
  proof
    assume "has_prefix (c # s) v"
    then show ?thesis by (auto simp: occurs_def intro: exI [of _ 0])
  next
    assume "occurs v s"
    then obtain k where "has_prefix (drop k s) v" by (auto simp: occurs_def)
    then have "has_prefix (drop (Suc k) (c # s)) v" by simp
    then show ?thesis unfolding occurs_def by blast
  qed
qed

lemma occurs_Nil: "v \<noteq> '''' \<Longrightarrow> \<not> occurs v ''''"
  by (cases v) (auto simp: occurs_def)

text \<open>An occurrence in text cut by a bracket lies on one side.\<close>

lemma prefix_bracket:
  "c \<notin> set v \<Longrightarrow> has_prefix (a @ c # b) v \<longleftrightarrow> has_prefix a v"
proof (induction a v rule: has_prefix.induct)
  case (2 p ps)
  then show ?case by auto
qed auto

lemma occurs_bracket:
  assumes "v \<noteq> ''''" "c \<notin> set v"
  shows "occurs v (a @ c # b) \<longleftrightarrow> occurs v a \<or> occurs v b"
proof (induction a)
  case Nil
  have "\<not> has_prefix (c # b) v" using assms by (cases v) auto
  then show ?case using assms occurs_Cons [of v c b] occurs_Nil [of v] by simp
next
  case (Cons x a)
  then show ?case
    using assms occurs_Cons [of v x "a @ c # b"] occurs_Cons [of v x a] prefix_bracket [of c v "x # a" b]
    by auto
qed

text \<open>Cutting literal text off: replacement removes the value and never creates another.\<close>

lemma has_prefix_replace:
  assumes "CHR ''<'' \<notin> set u" "u \<noteq> ''''"
    and "has_prefix (replace_all s old (''<'' @ mid)) u"
  shows "has_prefix s u"
  using assms
proof (induction s arbitrary: u)
  case Nil
  then show ?case by simp
next
  case (Cons c s)
  show ?case
  proof (cases "old \<noteq> [] \<and> has_prefix (c # s) old")
    case True
    then have "replace_all (c # s) old (''<'' @ mid) = CHR ''<'' # mid @ replace_all (drop (length old) (c # s)) old (''<'' @ mid)"
      by simp
    then show ?thesis using Cons.prems by (cases u) auto
  next
    case False
    then have r: "replace_all (c # s) old (''<'' @ mid) = c # replace_all s old (''<'' @ mid)"
      by (simp only: replace_all.simps if_False)
    obtain x u' where u: "u = x # u'" using Cons.prems(2) by (cases u) auto
    show ?thesis
    proof (cases "u' = ''''")
      case True
      then show ?thesis using Cons.prems(3) unfolding r u by simp
    next
      case False
      then show ?thesis using Cons.prems Cons.IH [of u'] unfolding r u by simp
    qed
  qed
qed

lemma replace_removes:
  assumes "plain u" "\<not> occurs u (''redacted:'' @ name)" "u = old \<or> \<not> occurs u s" "old \<noteq> ''''"
  shows "\<not> occurs u (replace_all s old (''<redacted:'' @ name @ ''>''))"
  using assms(3)
proof (induction "length s" arbitrary: s rule: less_induct)
  case less
  let ?new = "''<redacted:'' @ name @ ''>''"
  have u: "u \<noteq> ''''" "CHR ''<'' \<notin> set u" "CHR ''>'' \<notin> set u" using assms(1) by (auto simp: plain_def)
  show ?case
  proof (cases s)
    case Nil
    then show ?thesis using occurs_Nil [OF u(1)] by simp
  next
    case (Cons c t)
    show ?thesis
    proof (cases "has_prefix (c # t) old")
      case True
      let ?rest = "drop (length old) s"
      have shorter: "length ?rest < length s" using assms(4) Cons by simp
      have "\<not> occurs u s \<Longrightarrow> \<not> occurs u ?rest"
        unfolding occurs_def by (metis drop_drop)
      then have "\<not> occurs u (replace_all ?rest old ?new)"
        using less.hyps [OF shorter] less.prems by blast
      moreover have "replace_all s old ?new = CHR ''<'' # (''redacted:'' @ name) @ CHR ''>'' # replace_all ?rest old ?new"
        using True Cons assms(4) by simp
      ultimately show ?thesis
        using occurs_bracket [OF u(1,2), of "[]" "(''redacted:'' @ name) @ CHR ''>'' # replace_all ?rest old ?new"]
          occurs_bracket [OF u(1,3), of "''redacted:'' @ name" "replace_all ?rest old ?new"]
          occurs_Nil [OF u(1)] assms(2) by simp
    next
      case False
      then have r: "replace_all s old ?new = c # replace_all t old ?new" using Cons by simp
      have "u = old \<or> \<not> occurs u t" using less.prems Cons occurs_Cons [OF u(1)] by blast
      then have IH: "\<not> occurs u (replace_all t old ?new)" using less.hyps [of t] Cons by simp
      have "\<not> has_prefix (c # replace_all t old ?new) u"
      proof
        assume "has_prefix (c # replace_all t old ?new) u"
        then have "has_prefix (replace_all s old (''<'' @ ''redacted:'' @ name @ ''>'')) u" using r by simp
        then have p: "has_prefix s u" by (rule has_prefix_replace [OF u(2,1)])
        then have "occurs u s" unfolding occurs_def by (metis drop0)
        then have "u = old" using less.prems by blast
        then show False using p False Cons by simp
      qed
      then show ?thesis unfolding r using IH occurs_Cons [OF u(1)] by blast
    qed
  qed
qed

definition secret_values :: "string list \<Rightarrow> (string \<times> string) list" where
  "secret_values env = List.map_filter (\<lambda>kv. case cut_at (CHR ''='') kv of
     Some (n, v) \<Rightarrow> if n = ''PATH'' \<or> v = '''' then None else Some (n, v) | None \<Rightarrow> None) env"

text \<open>No placeholder spells a secret.\<close>

definition redactable :: "string list \<Rightarrow> bool" where
  "redactable env \<longleftrightarrow> list_all (\<lambda>(_, v). plain v \<and>
     list_all (\<lambda>(n, _). \<not> occurs v (''redacted:'' @ n)) (secret_values env)) (secret_values env)"

lemma secret_values_Cons: "secret_values (kv # env) = (case cut_at (CHR ''='') kv of
     Some (n, v) \<Rightarrow> if n = ''PATH'' \<or> v = '''' then secret_values env else (n, v) # secret_values env
   | None \<Rightarrow> secret_values env)"
  by (auto simp: secret_values_def List.map_filter_simps split: option.splits)

lemma redact_keeps_out:
  assumes "plain u" "list_all (\<lambda>(n, _). \<not> occurs u (''redacted:'' @ n)) (secret_values env)"
  shows "\<not> occurs u out \<Longrightarrow> \<not> occurs u (redactEnv env out)"
  using assms(2) unfolding redactEnv_def
proof (induction env arbitrary: out)
  case (Cons kv env)
  have "\<not> occurs u (redact_one kv out)"
    using Cons.prems replace_removes [OF assms(1)]
    by (auto simp: redact_one_def secret_values_Cons split: option.splits if_splits)
  then show ?case
    using Cons.IH Cons.prems by (auto simp: secret_values_Cons split: option.splits if_splits)
qed simp

lemma redact_removes:
  assumes "plain u" "list_all (\<lambda>(n, _). \<not> occurs u (''redacted:'' @ n)) (secret_values env)"
    and "u \<in> snd ` set (secret_values env)"
  shows "\<not> occurs u (redactEnv env out)"
  using assms(2,3)
proof (induction env arbitrary: out)
  case Nil
  then show ?case by (simp add: secret_values_def List.map_filter_simps)
next
  case (Cons kv env)
  have tail: "list_all (\<lambda>(n, _). \<not> occurs u (''redacted:'' @ n)) (secret_values env)"
    using Cons.prems(1) by (auto simp: secret_values_Cons split: option.splits if_splits)
  have eq: "redactEnv (kv # env) out = redactEnv env (redact_one kv out)"
    by (simp add: redactEnv_def)
  show ?case
  proof (cases "u \<in> snd ` set (secret_values env)")
    case True
    then show ?thesis using Cons.IH [OF tail] eq by simp
  next
    case False
    then obtain n where kv: "cut_at (CHR ''='') kv = Some (n, u)" "n \<noteq> ''PATH''" "u \<noteq> ''''"
      and n: "\<not> occurs u (''redacted:'' @ n)"
      using Cons.prems by (auto simp: secret_values_Cons split: option.splits if_splits)
    then have "\<not> occurs u (redact_one kv out)"
      using replace_removes [OF assms(1) n, of u out] by (simp add: redact_one_def)
    then show ?thesis using redact_keeps_out [OF assms(1) tail] eq by simp
  qed
qed

text \<open>C12: Redaction removes the secrets: when no secret value contains an angle bracket or is
  spelled by a placeholder, no non-empty value of the environment other than PATH's occurs
  anywhere in redactEnv's result.\<close>

theorem redactEnv_removes_secrets:
  assumes "redactable env" "(n, v) \<in> set (secret_values env)"
  shows "\<not> occurs v (redactEnv env out)"
proof (rule redact_removes)
  show "plain v" using assms by (auto simp: redactable_def list_all_iff)
  show "list_all (\<lambda>(n, _). \<not> occurs v (''redacted:'' @ n)) (secret_values env)"
    using assms by (auto simp: redactable_def list_all_iff)
  show "v \<in> snd ` set (secret_values env)" using assms(2) by force
qed

lemma occurs_code [code]:
  "occurs v s \<longleftrightarrow> has_prefix s v \<or> (case s of [] \<Rightarrow> False | c # t \<Rightarrow> occurs v t)"
proof (cases s)
  case Nil
  then show ?thesis by (simp add: occurs_def)
next
  case (Cons c t)
  have "occurs v (c # t)" if "has_prefix (c # t) v" using that by (auto simp: occurs_def intro: exI [of _ 0])
  moreover have "occurs v (c # t)" if h: "occurs v t"
  proof -
    obtain k where "has_prefix (drop k t) v" using h by (auto simp: occurs_def)
    then have "has_prefix (drop (Suc k) (c # t)) v" by simp
    then show ?thesis unfolding occurs_def by blast
  qed
  moreover have "has_prefix (c # t) v \<or> occurs v t" if h: "occurs v (c # t)"
  proof -
    obtain k where "has_prefix (drop k (c # t)) v" using h by (auto simp: occurs_def)
    then show ?thesis by (cases k) (auto simp: occurs_def)
  qed
  ultimately show ?thesis using Cons by auto
qed

theorem redactEnv_removes_secrets_witness:
  "redactEnv [''PATH=/bin'', ''TOKEN=s3cr3t''] ''got s3cr3t ok'' = ''got <redacted:TOKEN> ok''
   \<and> \<not> occurs ''s3cr3t'' (redactEnv [''PATH=/bin'', ''TOKEN=s3cr3t''] ''got s3cr3t ok'')"
proof
  show "redactEnv [''PATH=/bin'', ''TOKEN=s3cr3t''] ''got s3cr3t ok'' = ''got <redacted:TOKEN> ok''"
    by code_simp
  have "redactable [''PATH=/bin'', ''TOKEN=s3cr3t'']" by code_simp
  then show "\<not> occurs ''s3cr3t'' (redactEnv [''PATH=/bin'', ''TOKEN=s3cr3t''] ''got s3cr3t ok'')"
    by (rule redactEnv_removes_secrets [where n = "''TOKEN''"])
       (simp add: secret_values_def List.map_filter_simps)
qed

end
