(* ===== verification/StoreMonad.thy ===== *)
theory StoreMonad
  imports Exec
begin

text \<open>
  The state every runner component works on, and the way its Go code works on it: the
  SQLite database of internal/honker, the outside world's answers (which statements fail,
  whether a claim is still valid, the clock) and a monad of functions that may return an
  error. A job payload (\<^verbatim>\<open>'j\<close>) and a parked continuation's payload (\<^verbatim>\<open>'w\<close>) are opaque to the
  store, as they are in Go.

  The queue itself is the Honker extension, which is not part of this repository. The calls
  the store makes of it are recorded, in order, in the database (they are part of the same
  SQLite transaction), and its answer whether a claim is still valid is a function of them.
\<close>

section \<open>The database\<close>

datatype 'j qcall =
    QEnqueue string 'j "int option"     \<comment> \<open>queue, payload, RunAt\<close>
  | QAck int string                     \<comment> \<open>job id, worker id\<close>
  | QRetry int int string               \<comment> \<open>job id, delay in seconds, message\<close>
  | QFail int string                    \<comment> \<open>job id, message\<close>
  | QDropPending string                 \<comment> \<open>delete the pending jobs of a run\<close>
  | QSchedule string string string 'j   \<comment> \<open>task, queue, schedule, payload\<close>
  | QUnschedule string                  \<comment> \<open>task\<close>

abbreviation "RunRunning \<equiv> ''running''"
abbreviation "RunCompleted \<equiv> ''completed''"
abbreviation "RunFailed \<equiv> ''failed''"
abbreviation "RunCancelled \<equiv> ''cancelled''"
abbreviation "RunWaiting \<equiv> ''waiting''"

record run_row =
  rr_workflow :: string
  rr_status :: string
  rr_pending :: int
  rr_created :: int

record workflow_row =
  wf_wafer :: string
  wf_enabled :: bool

record dedupe_row =
  dd_succeeded :: bool
  dd_result :: "value"

record 'w susp_row =
  su_workflow :: string
  su_signal :: "string option"
  su_run_at :: "int option"
  su_payload :: 'w

record 'j failed_row =
  fc_workflow :: string
  fc_event :: "(string \<times> value) list option"
  fc_payload :: 'j

record ('j, 'w) db =
  db_results :: "(string \<times> string, value) table"
  db_dedupe :: "(string \<times> string \<times> string, dedupe_row) table"
  db_workflows :: "(string, workflow_row) table"
  db_events :: "(int \<times> string \<times> string) list"
  db_event_seq :: int
  db_runs :: "(string, run_row) table"
  db_singer :: "(string \<times> string, value) table"
  db_deps :: "(string \<times> string, int) table"
  db_suspended :: "(string \<times> string, 'w susp_row) table"
  db_signals :: "(int \<times> string \<times> value) list"
  db_signal_seq :: int
  db_failed :: "(string, 'j failed_row) table"
  db_calls :: "'j qcall list"

section \<open>The world\<close>

text \<open>
  \<^verbatim>\<open>w_faults\<close> says, statement by statement, which ones fail and with which error; when it is
  used up no further statement fails. \<^verbatim>\<open>w_execs\<close> lists the subprocesses started so far
  (argv, environment and input), which no rollback undoes.
\<close>


record ('j, 'w) world =
  w_db :: "('j, 'w) db"
  w_faults :: "err option list"
  w_claim_valid :: "int \<Rightarrow> string \<Rightarrow> 'j qcall list \<Rightarrow> bool"
  w_now :: int
  w_execs :: "exec_request list"

section \<open>The monad\<close>

type_synonym ('j, 'w, 'a) sm = "('j, 'w) world \<Rightarrow> 'a res \<times> ('j, 'w) world"

named_theorems sm_eval \<open>evaluation of the monad's operations on a world\<close>

definition ret :: "'a \<Rightarrow> ('j, 'w, 'a) sm" where
  "ret a w = (Inr a, w)"

definition throw :: "err \<Rightarrow> ('j, 'w, 'a) sm" where
  "throw e w = (Inl e, w)"

definition bind :: "('j, 'w, 'a) sm \<Rightarrow> ('a \<Rightarrow> ('j, 'w, 'b) sm) \<Rightarrow> ('j, 'w, 'b) sm" where
  "bind m k w = (case m w of (Inl e, w') \<Rightarrow> (Inl e, w') | (Inr a, w') \<Rightarrow> k a w')"

abbreviation seq :: "('j, 'w, 'a) sm \<Rightarrow> ('j, 'w, 'b) sm \<Rightarrow> ('j, 'w, 'b) sm" where
  "seq m k \<equiv> bind m (\<lambda>_. k)"

text \<open>\<^verbatim>\<open>x, err := m\<close>: the result as a value; \<^verbatim>\<open>_ = m\<close>: the result dropped.\<close>

definition attempt :: "('j, 'w, 'a) sm \<Rightarrow> ('j, 'w, 'a res) sm" where
  "attempt m w = (case m w of (r, w') \<Rightarrow> (Inr r, w'))"

definition ignore :: "('j, 'w, 'a) sm \<Rightarrow> ('j, 'w, unit) sm" where
  "ignore m w = (Inr (), snd (m w))"

text \<open>\<^verbatim>\<open>fmt.Errorf("...: %w", err)\<close> around a call.\<close>

definition wrapping :: "string \<Rightarrow> ('j, 'w, 'a) sm \<Rightarrow> ('j, 'w, 'a) sm" where
  "wrapping pre m w = (case m w of (Inl e, w') \<Rightarrow> (Inl (wrap pre e), w') | (Inr a, w') \<Rightarrow> (Inr a, w'))"

definition of_res :: "'a res \<Rightarrow> ('j, 'w, 'a) sm" where
  "of_res r w = (r, w)"

definition only_if :: "bool \<Rightarrow> ('j, 'w, unit) sm \<Rightarrow> ('j, 'w, unit) sm" where
  "only_if b m = (if b then m else ret ())"

fun each :: "('a \<Rightarrow> ('j, 'w, unit) sm) \<Rightarrow> 'a list \<Rightarrow> ('j, 'w, unit) sm" where
  "each f [] = ret ()"
| "each f (x # xs) = seq (f x) (each f xs)"

text \<open>One SQL statement: it fails as a whole, or reads and writes the database.\<close>

definition stmt :: "(('j, 'w) db \<Rightarrow> 'a \<times> ('j, 'w) db) \<Rightarrow> ('j, 'w, 'a) sm" where
  "stmt f w = (case w_faults w of
      Some e # fs \<Rightarrow> (Inl e, w\<lparr> w_faults := fs \<rparr>)
    | fs \<Rightarrow> (let (a, d) = f (w_db w) in (Inr a, w\<lparr> w_db := d, w_faults := tl fs \<rparr>)))"

definition query :: "(('j, 'w) db \<Rightarrow> 'a) \<Rightarrow> ('j, 'w, 'a) sm" where
  "query f = stmt (\<lambda>d. (f d, d))"

definition exec_sql :: "(('j, 'w) db \<Rightarrow> ('j, 'w) db) \<Rightarrow> ('j, 'w, unit) sm" where
  "exec_sql f = stmt (\<lambda>d. ((), f d))"

text \<open>A call of the Honker queue, made with the same connection.\<close>

definition qcall :: "'j qcall \<Rightarrow> ('j, 'w, unit) sm" where
  "qcall c = exec_sql (\<lambda>d. d\<lparr> db_calls := db_calls d @ [c] \<rparr>)"

definition get_now :: "('j, 'w, int) sm" where
  "get_now w = (Inr (w_now w), w)"

definition log_exec :: "exec_request \<Rightarrow> ('j, 'w, unit) sm" where
  "log_exec r w = (Inr (), w\<lparr> w_execs := w_execs w @ [r] \<rparr>)"

section \<open>Transactions\<close>

text \<open>
  Store.WithTx (and Begin with a deferred Rollback): the body's writes are undone when it
  fails or the commit fails; the statements that were tried stay tried.
\<close>

definition begin_tx :: "('j, 'w, unit) sm" where
  "begin_tx = wrapping ''honker: begin: '' (query (\<lambda>_. ()))"

definition commit_tx :: "('j, 'w, unit) sm" where
  "commit_tx = query (\<lambda>_. ())"

definition rollback_on_error :: "('j, 'w) db \<Rightarrow> ('j, 'w, 'a) sm \<Rightarrow> ('j, 'w, 'a) sm" where
  "rollback_on_error d m w = (case m w of
      (Inl e, w') \<Rightarrow> (Inl e, w'\<lparr> w_db := d \<rparr>)
    | (Inr a, w') \<Rightarrow> (Inr a, w'))"

definition WithTx :: "('j, 'w, 'a) sm \<Rightarrow> ('j, 'w, 'a) sm" where
  "WithTx body = bind begin_tx (\<lambda>_ w.
     rollback_on_error (w_db w) (bind body (\<lambda>a. seq commit_tx (ret a))) w)"

section \<open>Laws\<close>

lemma bind_ret [simp]: "bind (ret a) k = k a"
  by (rule ext) (simp add: bind_def ret_def)

lemma bind_throw [simp]: "bind (throw e) k = throw e"
  by (rule ext) (simp add: bind_def throw_def)

lemma bind_assoc: "bind (bind m k) l = bind m (\<lambda>a. bind (k a) l)"
  by (rule ext) (simp add: bind_def split: prod.split sum.split)

lemma ret_apply [sm_eval]: "ret a w = (Inr a, w)" by (simp add: ret_def)
lemma throw_apply [sm_eval]: "throw e w = (Inl e, w)" by (simp add: throw_def)
lemma of_res_apply [sm_eval]: "of_res r w = (r, w)" by (simp add: of_res_def)
lemma get_now_apply [simp, sm_eval]: "get_now w = (Inr (w_now w), w)" by (simp add: get_now_def)
lemma log_exec_apply [simp, sm_eval]: "log_exec r w = (Inr (), w\<lparr> w_execs := w_execs w @ [r] \<rparr>)"
  by (simp add: log_exec_def)
lemma only_if_simps [simp]: "only_if True m = m" "only_if False m = ret ()" by (simp_all add: only_if_def)

lemma bind_Inl: "m w = (Inl e, w') \<Longrightarrow> bind m k w = (Inl e, w')"
  by (simp add: bind_def)

lemma bind_Inr: "m w = (Inr a, w') \<Longrightarrow> bind m k w = k a w'"
  by (simp add: bind_def)

lemma bind_eq_Inr: "bind m k w = (Inr b, w'') \<longleftrightarrow> (\<exists>a w'. m w = (Inr a, w') \<and> k a w' = (Inr b, w''))"
  by (auto simp: bind_def split: prod.splits sum.splits)

lemma wrapping_eq_Inr [simp]: "wrapping p m w = (Inr a, w') \<longleftrightarrow> m w = (Inr a, w')"
  by (auto simp: wrapping_def split: prod.splits sum.splits)

text \<open>A world in which no statement fails: every store operation is then a function of the
  database.\<close>

definition calm :: "('j, 'w) world \<Rightarrow> bool" where
  "calm w \<longleftrightarrow> w_faults w = []"

lemma calm_update [simp]:
  "calm (w\<lparr> w_db := d \<rparr>) = calm w" "calm (w\<lparr> w_execs := x \<rparr>) = calm w"
  by (simp_all add: calm_def)

lemma stmt_calm [simp]: "calm w \<Longrightarrow> stmt f w = (let (a, d) = f (w_db w) in (Inr a, w\<lparr> w_db := d \<rparr>))"
  by (simp add: stmt_def calm_def split: prod.split)

lemma query_calm [simp]: "calm w \<Longrightarrow> query f w = (Inr (f (w_db w)), w)"
  by (simp add: query_def)

lemma exec_sql_calm [simp]: "calm w \<Longrightarrow> exec_sql f w = (Inr (), w\<lparr> w_db := f (w_db w) \<rparr>)"
  by (simp add: exec_sql_def)

lemma qcall_calm [simp]:
  "calm w \<Longrightarrow> qcall c w = (Inr (), w\<lparr> w_db := (w_db w)\<lparr> db_calls := db_calls (w_db w) @ [c] \<rparr> \<rparr>)"
  by (simp add: qcall_def)

lemma begin_tx_calm [simp]: "calm w \<Longrightarrow> begin_tx w = (Inr (), w)"
  by (simp add: begin_tx_def)

lemma commit_tx_calm [simp]: "calm w \<Longrightarrow> commit_tx w = (Inr (), w)"
  by (simp add: commit_tx_def)

text \<open>Whatever fails inside a transaction, the database is what it was before.\<close>

lemma query_db: "query f w = (r, w') \<Longrightarrow> w_db w' = w_db w"
  by (auto simp: query_def stmt_def split: list.splits option.splits)

lemma begin_tx_db: "begin_tx w = (r, w') \<Longrightarrow> w_db w' = w_db w"
  by (auto simp: begin_tx_def wrapping_def split: prod.splits sum.splits dest: query_db)

lemma WithTx_atomic: "WithTx m w = (Inl e, w') \<Longrightarrow> w_db w' = w_db w"
proof -
  assume *: "WithTx m w = (Inl e, w')"
  obtain r w1 where b: "begin_tx w = (r, w1)" by fastforce
  have d: "w_db w1 = w_db w" using begin_tx_db [OF b] .
  show ?thesis
  proof (cases r)
    case Inl
    then show ?thesis using * b d by (simp add: WithTx_def bind_def)
  next
    case Inr
    then show ?thesis using * b d
      by (auto simp: WithTx_def bind_Inr rollback_on_error_def split: prod.splits sum.splits)
  qed
qed

lemma WithTx_calm:
  assumes "calm w"
  shows "WithTx m w = (case bind m (\<lambda>a. seq commit_tx (ret a)) w of
     (Inl e, w') \<Rightarrow> (Inl e, w'\<lparr> w_db := w_db w \<rparr>) | (Inr a, w') \<Rightarrow> (Inr a, w'))"
  using assms by (simp add: WithTx_def bind_Inr [OF begin_tx_calm] rollback_on_error_def)

lemma WithTx_calm_Inr:
  assumes "calm w" "m w = (Inr a, w')" "calm w'"
  shows "WithTx m w = (Inr a, w')"
  using assms by (simp add: WithTx_calm bind_def sm_eval)

lemma rollback_on_error_Inr [simp]:
  "rollback_on_error d m w = (Inr a, w') \<longleftrightarrow> m w = (Inr a, w')"
  by (auto simp: rollback_on_error_def split: prod.splits sum.splits)

lemma WithTx_Inr_body:
  assumes "WithTx m w = (Inr a, w')"
  shows "\<exists>w1 w2. w_db w1 = w_db w \<and> m w1 = (Inr a, w2) \<and> w_db w' = w_db w2"
proof -
  obtain w1 where b: "begin_tx w = (Inr (), w1)"
    and m: "bind m (\<lambda>a. seq commit_tx (ret a)) w1 = (Inr a, w')"
    using assms by (auto simp: WithTx_def bind_eq_Inr)
  obtain w2 where "m w1 = (Inr a, w2)" "commit_tx w2 = (Inr (), w')"
    using m by (auto simp: bind_eq_Inr sm_eval)
  moreover from this(2) have "w_db w' = w_db w2"
    unfolding commit_tx_def by (rule query_db)
  ultimately show ?thesis
    using begin_tx_db [OF b] by metis
qed

end
