(* ===== verification/Store.thy ===== *)
theory Store
  imports StoreMonad
begin

text \<open>
  The durability layer (internal/honker): the transactional atom of a node's completion and
  its dependency fan-out (tx.go, deps.go), parked waits and buffered signals (suspend.go),
  runs (runs.go), workflows and events (registry.go), failed runs (failed.go), Singer
  bookmarks (singer.go), the claim calls (queue.go) and scheduled tasks (honker.go).
  A column holding JSON is modelled by the value encoded in it.
\<close>

section \<open>Claims and scheduled tasks (queue.go, honker.go)\<close>

record 'j hjob =
  j_id :: int
  j_worker :: string
  j_attempts :: int
  j_payload :: "'j res"       \<comment> \<open>what UnmarshalPayload gives\<close>

definition job_Ack :: "'j hjob \<Rightarrow> ('j, 'w, unit) sm" where
  "job_Ack j = qcall (QAck (j_id j) (j_worker j))"

definition job_Retry :: "'j hjob \<Rightarrow> int \<Rightarrow> string \<Rightarrow> ('j, 'w, unit) sm" where
  "job_Retry j delay msg = qcall (QRetry (j_id j) delay msg)"

definition job_Fail :: "'j hjob \<Rightarrow> string \<Rightarrow> ('j, 'w, unit) sm" where
  "job_Fail j msg = qcall (QFail (j_id j) msg)"

definition queue_Enqueue :: "string \<Rightarrow> 'j \<Rightarrow> ('j, 'w, unit) sm" where
  "queue_Enqueue q p = qcall (QEnqueue q p None)"

definition RegisterScheduledTask :: "string \<Rightarrow> string \<Rightarrow> string \<Rightarrow> 'j \<Rightarrow> ('j, 'w, unit) sm" where
  "RegisterScheduledTask name q schedule p = qcall (QSchedule name q schedule p)"

definition UnregisterScheduledTask :: "string \<Rightarrow> ('j, 'w, unit) sm" where
  "UnregisterScheduledTask name = qcall (QUnschedule name)"

section \<open>Inside a transaction (tx.go)\<close>

definition Tx_Enqueue :: "string \<Rightarrow> 'j \<Rightarrow> ('j, 'w, unit) sm" where
  "Tx_Enqueue q p = qcall (QEnqueue q p None)"

definition Tx_EnqueueAt :: "string \<Rightarrow> 'j \<Rightarrow> int \<Rightarrow> ('j, 'w, unit) sm" where
  "Tx_EnqueueAt q p runAt = qcall (QEnqueue q p (Some runAt))"

definition check_marshal :: "string \<Rightarrow> value \<Rightarrow> ('j, 'w, unit) sm" where
  "check_marshal pre v = wrapping pre (bind (of_res (json_marshal v)) (\<lambda>_. ret ()))"

definition put_result :: "string \<Rightarrow> string \<Rightarrow> value \<Rightarrow> ('j, 'w, unit) sm" where
  "put_result runID nodeID v = exec_sql (\<lambda>d. d\<lparr> db_results := upsert (runID, nodeID) v (db_results d) \<rparr>)"

definition WriteResult :: "string \<Rightarrow> string \<Rightarrow> value \<Rightarrow> ('j, 'w, unit) sm" where
  "WriteResult runID nodeID result =
     seq (check_marshal ''marshal result: '' result) (put_result runID nodeID result)"

definition Tx_Ack :: "'j hjob \<Rightarrow> ('j, 'w, unit) sm" where
  "Tx_Ack j w = (let valid = w_claim_valid w (j_id j) (j_worker j) (db_calls (w_db w));
       pre = ''honker: ack '' @ itoa (j_id j) @ '' in tx: '' in
     bind (wrapping pre (stmt (\<lambda>d. (valid, if valid
             then d\<lparr> db_calls := db_calls d @ [QAck (j_id j) (j_worker j)] \<rparr> else d))))
       (\<lambda>ok. if ok then ret () else throw (errorf (pre @ ''claim no longer valid (expired?)''))) w)"

section \<open>Dependency counts (deps.go)\<close>

record run_deps =
  rd_run :: string
  rd_remaining :: "string \<Rightarrow> int"
  rd_order :: "string list"

definition NewRunDeps :: "string \<Rightarrow> (string \<Rightarrow> int) \<Rightarrow> string list \<Rightarrow> run_deps" where
  "NewRunDeps runID depCount order =
     \<lparr> rd_run = runID, rd_remaining = (\<lambda>n. if n \<in> set order then depCount n else 0), rd_order = order \<rparr>"

definition InitRunDeps :: "run_deps \<Rightarrow> ('j, 'w, unit) sm" where
  "InitRunDeps rd = WithTx (each (\<lambda>node.
     wrapping (''honker: init run deps '' @ rd_run rd @ ''/'' @ node @ '': '')
       (exec_sql (\<lambda>d. d\<lparr> db_deps := upsert (rd_run rd, node) (rd_remaining rd node) (db_deps d) \<rparr>)))
     (rd_order rd))"

definition decrement_one :: "string \<Rightarrow> string \<Rightarrow> ('j, 'w, int) sm" where
  "decrement_one runID dep =
     seq (wrapping (''honker: decrement deps for '' @ dep @ '': '')
       (exec_sql (\<lambda>d. d\<lparr> db_deps := modify_row (runID, dep) (\<lambda>n. n - 1) (db_deps d) \<rparr>)))
     (wrapping (''honker: read remaining for '' @ dep @ '': '')
       (bind (query (\<lambda>d. select (runID, dep) (db_deps d))) (\<lambda>r. case r of
            None \<Rightarrow> throw (errorf ''sql: no rows in result set'')
          | Some n \<Rightarrow> ret n)))"

fun decrementDependents :: "string \<Rightarrow> string list \<Rightarrow> ('j, 'w, string list) sm" where
  "decrementDependents runID [] = ret []"
| "decrementDependents runID (dep # deps) =
     bind (decrement_one runID dep) (\<lambda>remaining.
     bind (decrementDependents runID deps) (\<lambda>ready.
     ret (if remaining = 0 then dep # ready else ready)))"

definition RunDepsRemaining :: "string \<Rightarrow> string \<Rightarrow> ('j, 'w, int) sm" where
  "RunDepsRemaining runID nodeID = query (\<lambda>d. case select (runID, nodeID) (db_deps d) of
     None \<Rightarrow> 0 | Some n \<Rightarrow> n)"

definition RunComplete :: "string \<Rightarrow> ('j, 'w, bool) sm" where
  "RunComplete runID = query (\<lambda>d. count_rows (\<lambda>k n. fst k = runID \<and> n > 0) (db_deps d) = 0)"

definition SetRunDepsRemaining :: "string \<Rightarrow> string \<Rightarrow> int \<Rightarrow> ('j, 'w, unit) sm" where
  "SetRunDepsRemaining runID nodeID remaining =
     wrapping (''honker: set run deps '' @ runID @ ''/'' @ nodeID @ '': '')
       (exec_sql (\<lambda>d. d\<lparr> db_deps := modify_row (runID, nodeID) (\<lambda>_. remaining) (db_deps d) \<rparr>))"

section \<open>Runs (runs.go)\<close>

definition CreateRun :: "string \<Rightarrow> string \<Rightarrow> ('j, 'w, unit) sm" where
  "CreateRun ident workflowName =
     (if ident = '''' then throw (errorf ''honker: create run: empty run id'')
      else bind get_now (\<lambda>now. wrapping (''honker: create run '' @ ident @ '': '')
        (exec_sql (\<lambda>d. d\<lparr> db_runs := upsert ident \<lparr> rr_workflow = workflowName, rr_status = RunRunning,
             rr_pending = 1, rr_created = now \<rparr> (db_runs d) \<rparr>))))"

definition RunPending :: "string \<Rightarrow> ('j, 'w, int) sm" where
  "RunPending ident = query (\<lambda>d. case select ident (db_runs d) of None \<Rightarrow> 0 | Some r \<Rightarrow> rr_pending r)"

definition AdjustPending :: "string \<Rightarrow> int \<Rightarrow> ('j, 'w, unit) sm" where
  "AdjustPending runID delta =
     wrapping (''honker: adjust pending '' @ runID @ '' by '' @ itoa delta @ '': '')
       (exec_sql (\<lambda>d. d\<lparr> db_runs := modify_row runID (\<lambda>r. r\<lparr> rr_pending := rr_pending r + delta \<rparr>) (db_runs d) \<rparr>))"

definition put_status :: "string \<Rightarrow> string \<Rightarrow> ('j, 'w) db \<Rightarrow> ('j, 'w) db" where
  "put_status ident status d = d\<lparr> db_runs := modify_row ident (\<lambda>r. r\<lparr> rr_status := status \<rparr>) (db_runs d) \<rparr>"

definition SetRunStatus :: "string \<Rightarrow> string \<Rightarrow> ('j, 'w, unit) sm" where
  "SetRunStatus ident status =
     wrapping (''honker: set run '' @ ident @ '' status '' @ status @ '': '') (exec_sql (put_status ident status))"

definition SetRunPending :: "string \<Rightarrow> int \<Rightarrow> ('j, 'w, unit) sm" where
  "SetRunPending ident n =
     wrapping (''honker: set run '' @ ident @ '' pending '' @ itoa n @ '': '')
       (exec_sql (\<lambda>d. d\<lparr> db_runs := modify_row ident (\<lambda>r. r\<lparr> rr_pending := n \<rparr>) (db_runs d) \<rparr>))"

definition status_of :: "('j, 'w) db \<Rightarrow> string \<Rightarrow> string" where
  "status_of d ident = (case select ident (db_runs d) of None \<Rightarrow> '''' | Some r \<Rightarrow> rr_status r)"

definition RunStatus :: "string \<Rightarrow> ('j, 'w, string) sm" where
  "RunStatus ident = query (\<lambda>d. status_of d ident)"

definition GetRun :: "string \<Rightarrow> ('j, 'w, run_row option) sm" where
  "GetRun ident = query (\<lambda>d. select ident (db_runs d))"

definition ListRuns :: "('j, 'w, (string \<times> run_row) list) sm" where
  "ListRuns = query (\<lambda>d. rev (sort_key (\<lambda>p. rr_created (snd p)) (sort_key fst (db_runs d))))"

definition RunNodes :: "string \<Rightarrow> ('j, 'w, (string \<times> value) list) sm" where
  "RunNodes ident = query (\<lambda>d. map (\<lambda>p. (snd (fst p), snd p)) (filter (\<lambda>p. fst (fst p) = ident) (db_results d)))"

definition CancelRun :: "string \<Rightarrow> ('j, 'w, unit) sm" where
  "CancelRun ident =
     seq (SetRunStatus ident RunCancelled)
    (seq (wrapping (''honker: cancel run '' @ ident @ '': '') (qcall (QDropPending ident)))
     (wrapping (''honker: cancel run '' @ ident @ '' (drop continuation): '')
       (exec_sql (\<lambda>d. d\<lparr> db_suspended := filter (\<lambda>p. fst (fst p) \<noteq> ident) (db_suspended d) \<rparr>))))"

section \<open>The atom (tx.go)\<close>

record 'j downstream =
  ds_queue :: string
  ds_payload :: 'j

record dedupe_record =
  dr_workflow :: string
  dr_node :: string
  dr_key :: string
  dr_succeeded :: bool
  dr_value :: "value"

record singer_state =
  ss_workflow :: string
  ss_node :: string
  ss_state :: "value"

record 'j node_atom =
  na_run :: string
  na_node :: string
  na_result :: "value"
  na_dedupe :: "dedupe_record option"
  na_dependents :: "string list"
  na_downstream :: "'j downstream list"
  na_job :: "'j hjob option"
  na_singer :: "singer_state option"

text \<open>The enqueue loop: job \<^verbatim>\<open>i\<close> is skipped when there is a dependent \<^verbatim>\<open>i\<close> that is not ready.\<close>

fun enqueue_ready :: "string list \<Rightarrow> string list \<Rightarrow> nat \<Rightarrow> 'j downstream list \<Rightarrow> ('j, 'w, int) sm" where
  "enqueue_ready dependents ready i [] = ret 0"
| "enqueue_ready dependents ready i (d # ds) =
     (if i < length dependents \<and> dependents ! i \<notin> set ready
      then enqueue_ready dependents ready (Suc i) ds
      else seq (wrapping ''enqueue downstream: '' (Tx_Enqueue (ds_queue d) (ds_payload d)))
          (bind (enqueue_ready dependents ready (Suc i) ds) (\<lambda>n. ret (n + 1))))"

definition FanOut :: "string \<Rightarrow> string list \<Rightarrow> 'j downstream list \<Rightarrow> ('j, 'w, int) sm" where
  "FanOut runID dependents downstream =
     bind (if dependents \<noteq> [] then decrementDependents runID dependents else ret []) (\<lambda>ready.
     enqueue_ready dependents ready 0 downstream)"

definition write_dedupe :: "dedupe_record \<Rightarrow> ('j, 'w, unit) sm" where
  "write_dedupe r =
     seq (check_marshal ''marshal dedupe result: '' (dr_value r))
     (wrapping ''write dedupe record: '' (exec_sql (\<lambda>d. d\<lparr> db_dedupe :=
        upsert (dr_workflow r, dr_node r, dr_key r) \<lparr> dd_succeeded = dr_succeeded r, dd_result = dr_value r \<rparr>
          (db_dedupe d) \<rparr>)))"

definition write_singer :: "singer_state \<Rightarrow> ('j, 'w, unit) sm" where
  "write_singer s =
     seq (check_marshal ''marshal singer state: '' (ss_state s))
     (wrapping ''write singer state: '' (exec_sql (\<lambda>d. d\<lparr> db_singer :=
        upsert (ss_workflow s, ss_node s) (ss_state s) (db_singer d) \<rparr>)))"

definition with_option :: "('a \<Rightarrow> ('j, 'w, unit) sm) \<Rightarrow> 'a option \<Rightarrow> ('j, 'w, unit) sm" where
  "with_option f x = (case x of None \<Rightarrow> ret () | Some a \<Rightarrow> f a)"

definition atom_body :: "'j node_atom \<Rightarrow> ('j, 'w, unit) sm" where
  "atom_body a =
     seq (check_marshal ''marshal result: '' (na_result a))
    (seq (wrapping ''write result: '' (put_result (na_run a) (na_node a) (na_result a)))
    (seq (with_option write_dedupe (na_dedupe a))
    (bind (if na_dependents a \<noteq> [] then decrementDependents (na_run a) (na_dependents a) else ret []) (\<lambda>ready.
     bind (enqueue_ready (na_dependents a) ready 0 (na_downstream a)) (\<lambda>enqueued.
     let delta = (if na_job a = None then enqueued else enqueued - 1) in
     seq (if delta \<noteq> 0 then AdjustPending (na_run a) delta else ret ())
    (seq (with_option write_singer (na_singer a))
     (with_option Tx_Ack (na_job a))))))))"

definition CommitNodeAtom :: "'j node_atom \<Rightarrow> ('j, 'w, unit) sm" where
  "CommitNodeAtom a = WithTx (atom_body a)"

definition LookupDedupe :: "string \<Rightarrow> string \<Rightarrow> string \<Rightarrow> ('j, 'w, dedupe_row option) sm" where
  "LookupDedupe workflowID nodeName key = query (\<lambda>d. select (workflowID, nodeName, key) (db_dedupe d))"

definition Result :: "string \<Rightarrow> string \<Rightarrow> ('j, 'w, value) sm" where
  "Result runID nodeID = query (\<lambda>d. case select (runID, nodeID) (db_results d) of None \<Rightarrow> VNull | Some v \<Rightarrow> v)"

definition NodeResultCount :: "('j, 'w, nat) sm" where
  "NodeResultCount = query (\<lambda>d. length (db_results d))"

definition GetSingerState :: "string \<Rightarrow> string \<Rightarrow> ('j, 'w, value) sm" where
  "GetSingerState workflowID nodeName =
     query (\<lambda>d. case select (workflowID, nodeName) (db_singer d) of None \<Rightarrow> VNull | Some v \<Rightarrow> v)"

section \<open>Parked waits and signals (suspend.go)\<close>

record 'w continuation =
  co_run :: string
  co_node :: string
  co_workflow :: string
  co_signal :: string
  co_run_at :: int
  co_payload :: 'w

definition nullable :: "string \<Rightarrow> string option" where
  "nullable s = (if s = '''' then None else Some s)"

definition nullableInt :: "int \<Rightarrow> int option" where
  "nullableInt n = (if n = 0 then None else Some n)"

definition WriteContinuation :: "'w continuation \<Rightarrow> ('j, 'w, unit) sm" where
  "WriteContinuation c =
     wrapping (''honker: write continuation '' @ co_run c @ ''/'' @ co_node c @ '': '')
       (exec_sql (\<lambda>d. d\<lparr> db_suspended := upsert (co_run c, co_node c)
          \<lparr> su_workflow = co_workflow c, su_signal = nullable (co_signal c),
            su_run_at = nullableInt (co_run_at c), su_payload = co_payload c \<rparr> (db_suspended d) \<rparr>))"

definition DeleteContinuation :: "string \<Rightarrow> string \<Rightarrow> ('j, 'w, unit) sm" where
  "DeleteContinuation runID nodeID =
     wrapping (''honker: delete continuation '' @ runID @ ''/'' @ nodeID @ '': '')
       (exec_sql (\<lambda>d. d\<lparr> db_suspended := delete_row (runID, nodeID) (db_suspended d) \<rparr>))"

definition SetRunStatusTx :: "string \<Rightarrow> string \<Rightarrow> ('j, 'w, unit) sm" where
  "SetRunStatusTx runID status =
     wrapping (''honker: set run '' @ runID @ '' status '' @ status @ '' in tx: '') (exec_sql (put_status runID status))"

definition ContinuationCount :: "string \<Rightarrow> ('j, 'w, nat) sm" where
  "ContinuationCount runID =
     wrapping (''honker: count continuations '' @ runID @ '': '')
       (query (\<lambda>d. count_rows (\<lambda>k _. fst k = runID) (db_suspended d)))"

definition GetContinuation :: "string \<Rightarrow> string \<Rightarrow> ('j, 'w, 'w continuation option) sm" where
  "GetContinuation runID nodeID = query (\<lambda>d. case select (runID, nodeID) (db_suspended d) of
      None \<Rightarrow> None
    | Some r \<Rightarrow> Some \<lparr> co_run = runID, co_node = nodeID, co_workflow = su_workflow r,
        co_signal = (case su_signal r of None \<Rightarrow> '''' | Some s \<Rightarrow> s),
        co_run_at = (case su_run_at r of None \<Rightarrow> 0 | Some n \<Rightarrow> n), co_payload = su_payload r \<rparr>)"

definition parked_for :: "string \<Rightarrow> ('j, 'w) db \<Rightarrow> (string \<times> string) list" where
  "parked_for name d = map fst (filter (\<lambda>(k, r). su_signal r = Some name \<and> status_of d (fst k) = RunWaiting)
     (db_suspended d))"

definition ParkedInstancesForSignal :: "string \<Rightarrow> ('j, 'w, (string \<times> string) list) sm" where
  "ParkedInstancesForSignal name = query (parked_for name)"

definition BufferSignal :: "string \<Rightarrow> value \<Rightarrow> ('j, 'w, unit) sm" where
  "BufferSignal name payload =
     seq (check_marshal ''honker: buffer signal: '' payload)
     (wrapping (''honker: buffer signal '' @ name @ '': '')
       (exec_sql (\<lambda>d. d\<lparr> db_signals := db_signals d @ [(db_signal_seq d + 1, name, payload)],
                     db_signal_seq := db_signal_seq d + 1 \<rparr>)))"

text \<open>The oldest signal of the name; the deletion is by name and payload text.\<close>

definition oldest_signal :: "string \<Rightarrow> ('j, 'w) db \<Rightarrow> value option" where
  "oldest_signal name d = (case sort_key fst (filter (\<lambda>(_, n, _). n = name) (db_signals d)) of
      [] \<Rightarrow> None | (_, _, p) # _ \<Rightarrow> Some p)"

definition drop_signals :: "string \<Rightarrow> value \<Rightarrow> ('j, 'w) db \<Rightarrow> ('j, 'w) db" where
  "drop_signals name payload d = d\<lparr> db_signals :=
     filter (\<lambda>(_, n, p). \<not> (n = name \<and> json_marshal p = json_marshal payload)) (db_signals d) \<rparr>"

definition TakeBufferedSignal :: "string \<Rightarrow> ('j, 'w, value option) sm" where
  "TakeBufferedSignal name =
     bind (query (oldest_signal name)) (\<lambda>found. case found of
       None \<Rightarrow> ret None
     | Some payload \<Rightarrow> seq (exec_sql (drop_signals name payload)) (ret (Some payload)))"

section \<open>Failed runs (failed.go)\<close>

record 'j failed_continuation =
  fl_run :: string
  fl_workflow :: string
  fl_event :: "(string \<times> value) list option"
  fl_payload :: 'j

definition WriteFailedContinuation :: "'j failed_continuation \<Rightarrow> ('j, 'w, unit) sm" where
  "WriteFailedContinuation c =
     seq (with_option (\<lambda>ev. check_marshal ''honker: marshal failed event: '' (VObj ev)) (fl_event c))
     (wrapping (''honker: write failed continuation '' @ fl_run c @ '': '')
       (exec_sql (\<lambda>d. d\<lparr> db_failed := upsert (fl_run c)
          \<lparr> fc_workflow = fl_workflow c, fc_event = fl_event c, fc_payload = fl_payload c \<rparr> (db_failed d) \<rparr>)))"

definition GetFailedContinuation :: "string \<Rightarrow> ('j, 'w, 'j failed_continuation option) sm" where
  "GetFailedContinuation runID = query (\<lambda>d. case select runID (db_failed d) of
      None \<Rightarrow> None
    | Some r \<Rightarrow> Some \<lparr> fl_run = runID, fl_workflow = fc_workflow r, fl_event = fc_event r, fl_payload = fc_payload r \<rparr>)"

definition DeleteFailedContinuation :: "string \<Rightarrow> ('j, 'w, unit) sm" where
  "DeleteFailedContinuation runID =
     wrapping (''honker: delete failed continuation '' @ runID @ '': '')
       (exec_sql (\<lambda>d. d\<lparr> db_failed := delete_row runID (db_failed d) \<rparr>))"

section \<open>Workflows and events (registry.go)\<close>

definition RegisterWorkflow :: "string \<Rightarrow> string \<Rightarrow> ('j, 'w, unit) sm" where
  "RegisterWorkflow name wafer =
     (if name = '''' then throw (errorf ''honker: register workflow: empty name'')
      else wrapping (''honker: register workflow '' @ name @ '': '')
        (exec_sql (\<lambda>d. d\<lparr> db_workflows := (case select name (db_workflows d) of
            None \<Rightarrow> upsert name \<lparr> wf_wafer = wafer, wf_enabled = True \<rparr> (db_workflows d)
          | Some _ \<Rightarrow> modify_row name (\<lambda>r. r\<lparr> wf_wafer := wafer \<rparr>) (db_workflows d)) \<rparr>)))"

definition SetWorkflowEnabled :: "string \<Rightarrow> bool \<Rightarrow> ('j, 'w, unit) sm" where
  "SetWorkflowEnabled name enabled =
     bind (wrapping (''honker: set workflow '' @ name @ '' enabled: '')
       (stmt (\<lambda>d. (select name (db_workflows d) \<noteq> None,
          d\<lparr> db_workflows := modify_row name (\<lambda>r. r\<lparr> wf_enabled := enabled \<rparr>) (db_workflows d) \<rparr>))))
     (\<lambda>hit. if hit then ret () else throw (errorf (''honker: workflow '' @ name @ '' is not registered'')))"

definition GetWorkflow :: "string \<Rightarrow> ('j, 'w, workflow_row option) sm" where
  "GetWorkflow name = query (\<lambda>d. select name (db_workflows d))"

definition ListWorkflows :: "('j, 'w, (string \<times> workflow_row) list) sm" where
  "ListWorkflows = query db_workflows"

definition AppendEvent :: "string \<Rightarrow> string \<Rightarrow> ('j, 'w, int) sm" where
  "AppendEvent source payload = wrapping ''honker: append event: ''
     (stmt (\<lambda>d. (db_event_seq d + 1, d\<lparr> db_events := db_events d @ [(db_event_seq d + 1, source, payload)],
                   db_event_seq := db_event_seq d + 1 \<rparr>)))"

definition EventCount :: "('j, 'w, nat) sm" where
  "EventCount = query (\<lambda>d. length (db_events d))"

end
