(* ===== verification/StoreLaws.thy ===== *)
theory StoreLaws
  imports Store
begin

text \<open>
  What the store's operations do: the relation \<^verbatim>\<open>runs\<close> between the databases before and after
  an operation that returns without an error, with a rule for every construct of the monad,
  and the functional specification of the completion atom, its dependency fan-out, the
  buffered signals and the cancellation of a run.
\<close>

section \<open>Successful executions\<close>

definition runs :: "('j, 'w, 'a) sm \<Rightarrow> ('j, 'w) db \<Rightarrow> 'a \<Rightarrow> ('j, 'w) db \<Rightarrow> bool" where
  "runs m d a d' \<longleftrightarrow> (\<exists>w w'. w_db w = d \<and> m w = (Inr a, w') \<and> w_db w' = d')"

named_theorems runs_dest \<open>what a successful execution did\<close>

lemma runsI: "m w = (Inr a, w') \<Longrightarrow> runs m (w_db w) a (w_db w')"
  by (auto simp: runs_def)

lemma runs_bind: "runs (bind m k) d b d'' \<Longrightarrow> \<exists>a d'. runs m d a d' \<and> runs (k a) d' b d''"
  by (force simp: runs_def bind_eq_Inr)

lemma runs_bindE [elim!]:
  assumes "runs (bind m k) d b d''"
  obtains a d' where "runs m d a d'" "runs (k a) d' b d''"
  using runs_bind [OF assms] by blast

lemma runs_ret [simp]: "runs (ret x) d a d' \<longleftrightarrow> a = x \<and> d' = d"
proof -
  have "\<exists>w. w_db w = d" by (metis world.select_convs(1))
  then show ?thesis by (auto simp: runs_def sm_eval)
qed

lemma runs_throw [simp]: "\<not> runs (throw e) d a d'"
  by (simp add: runs_def sm_eval)

lemma runs_wrapping [simp]: "runs (wrapping p m) d a d' \<longleftrightarrow> runs m d a d'"
  by (simp add: runs_def)

lemma runs_of_res: "runs (of_res r) d a d' \<Longrightarrow> r = Inr a \<and> d' = d"
  by (auto simp: runs_def sm_eval)

lemma runs_get_now: "runs get_now d a d' \<Longrightarrow> d' = d"
  by (auto simp: runs_def)

lemma stmt_Inr: "stmt f w = (Inr a, w') \<Longrightarrow> f (w_db w) = (a, w_db w')"
  by (cases "f (w_db w)") (auto simp: stmt_def split: list.splits option.splits)

lemma runs_stmt: "runs (stmt f) d a d' \<Longrightarrow> f d = (a, d')"
  by (auto simp: runs_def dest: stmt_Inr)

lemma runs_query: "runs (query f) d a d' \<Longrightarrow> a = f d \<and> d' = d"
  unfolding query_def by (drule runs_stmt) auto

lemma runs_exec_sql: "runs (exec_sql f) d a d' \<Longrightarrow> d' = f d"
  unfolding exec_sql_def by (drule runs_stmt) auto

lemma runs_qcall: "runs (qcall c) d a d' \<Longrightarrow> d' = d\<lparr> db_calls := db_calls d @ [c] \<rparr>"
  unfolding qcall_def by (rule runs_exec_sql)

lemma attempt_eq: "attempt m w = (Inr (Inr a), w') \<longleftrightarrow> m w = (Inr a, w')"
  by (cases "m w") (auto simp: attempt_def)

lemma runs_attempt: "runs (attempt m) d (Inr a) d' \<Longrightarrow> runs m d a d'"
  by (simp add: runs_def attempt_eq)

lemma runs_WithTx: "runs (WithTx m) d a d' \<Longrightarrow> runs m d a d'"
  unfolding runs_def by (metis WithTx_Inr_body)

lemmas runs_basic = runs_of_res runs_get_now runs_query runs_exec_sql runs_qcall

lemma runs_if: "runs (if b then m else m') d a d' \<longleftrightarrow> (if b then runs m d a d' else runs m' d a d')"
  by simp

lemma runs_each_exec:
  "runs (each (\<lambda>x. wrapping (p x) (exec_sql (g x))) xs) d a d' \<Longrightarrow> d' = fold g xs d"
  by (induction xs arbitrary: d) (auto dest!: runs_exec_sql)

lemma runs_check_marshal: "runs (check_marshal p v) d a d' \<Longrightarrow> d' = d \<and> (\<exists>t. json_marshal v = Inr t)"
  by (auto simp: check_marshal_def dest!: runs_of_res)

section \<open>The specification of the atom\<close>

definition lower :: "string \<Rightarrow> string list \<Rightarrow> (string \<times> string, int) table \<Rightarrow> (string \<times> string, int) table" where
  "lower runID deps t = fold (\<lambda>dep. modify_row (runID, dep) (\<lambda>n. n - 1)) deps t"

definition now_ready :: "string \<Rightarrow> string list \<Rightarrow> (string \<times> string, int) table \<Rightarrow> string list" where
  "now_ready runID deps t = filter (\<lambda>dep. select (runID, dep) t = Some 1) deps"

definition chosen :: "string list \<Rightarrow> string list \<Rightarrow> nat \<Rightarrow> 'j downstream list \<Rightarrow> 'j downstream list" where
  "chosen deps ready i ds = map snd (filter (\<lambda>(k, _). k < length deps \<longrightarrow> deps ! k \<in> set ready) (enumerate i ds))"

definition enqueue_calls :: "'j downstream list \<Rightarrow> 'j qcall list" where
  "enqueue_calls ds = map (\<lambda>x. QEnqueue (ds_queue x) (ds_payload x) None) ds"

definition released :: "'j node_atom \<Rightarrow> ('j, 'w) db \<Rightarrow> 'j downstream list" where
  "released a d = chosen (na_dependents a) (now_ready (na_run a) (na_dependents a) (db_deps d)) 0 (na_downstream a)"

definition put_dedupe :: "dedupe_record option \<Rightarrow> (string \<times> string \<times> string, dedupe_row) table
    \<Rightarrow> (string \<times> string \<times> string, dedupe_row) table" where
  "put_dedupe r t = (case r of None \<Rightarrow> t | Some r \<Rightarrow>
     upsert (dr_workflow r, dr_node r, dr_key r) \<lparr> dd_succeeded = dr_succeeded r, dd_result = dr_value r \<rparr> t)"

definition put_singer :: "singer_state option \<Rightarrow> (string \<times> string, value) table \<Rightarrow> (string \<times> string, value) table" where
  "put_singer s t = (case s of None \<Rightarrow> t | Some s \<Rightarrow> upsert (ss_workflow s, ss_node s) (ss_state s) t)"

definition add_pending :: "string \<Rightarrow> int \<Rightarrow> (string, run_row) table \<Rightarrow> (string, run_row) table" where
  "add_pending runID n t = modify_row runID (\<lambda>r. r\<lparr> rr_pending := rr_pending r + n \<rparr>) t"

text \<open>
  All four parts at once: the result row, the dedupe and bookmark rows, the lowered counts,
  the released jobs enqueued, the pending count moved by the jobs released less the claim
  acked, and the ack.
\<close>

definition atom_spec :: "'j node_atom \<Rightarrow> ('j, 'w) db \<Rightarrow> ('j, 'w) db" where
  "atom_spec a d = d\<lparr>
     db_results := upsert (na_run a, na_node a) (na_result a) (db_results d),
     db_dedupe := put_dedupe (na_dedupe a) (db_dedupe d),
     db_deps := lower (na_run a) (na_dependents a) (db_deps d),
     db_runs := add_pending (na_run a)
        (int (length (released a d)) - (if na_job a = None then 0 else 1)) (db_runs d),
     db_singer := put_singer (na_singer a) (db_singer d),
     db_calls := db_calls d @ enqueue_calls (released a d) @
        (case na_job a of None \<Rightarrow> [] | Some j \<Rightarrow> [QAck (j_id j) (j_worker j)]) \<rparr>"

lemma lower_other: "fst k \<noteq> runID \<or> snd k \<notin> set deps \<Longrightarrow> select k (lower runID deps t) = select k t"
  unfolding lower_def by (induction deps arbitrary: t) (auto)

lemma lower_one: "distinct deps \<Longrightarrow> dep \<in> set deps \<Longrightarrow>
    select (runID, dep) (lower runID deps t) = map_option (\<lambda>n. n - 1) (select (runID, dep) t)"
proof (induction deps arbitrary: t)
  case (Cons x xs)
  then show ?case
    using lower_other [of "(runID, dep)" runID xs "modify_row (runID, x) (\<lambda>n. n - 1) t"]
    by (auto simp: lower_def)
qed simp

lemma runs_decrement_one:
  "runs (decrement_one runID dep) d r d' \<Longrightarrow>
     d' = d\<lparr> db_deps := modify_row (runID, dep) (\<lambda>n. n - 1) (db_deps d) \<rparr>
     \<and> select (runID, dep) (db_deps d) = Some (r + 1)"
  unfolding decrement_one_def
  by (auto dest!: runs_exec_sql runs_query split: option.splits)

lemma runs_decrementDependents:
  "runs (decrementDependents runID deps) d ready d' \<Longrightarrow> distinct deps \<Longrightarrow>
     d' = d\<lparr> db_deps := lower runID deps (db_deps d) \<rparr> \<and> ready = now_ready runID deps (db_deps d)"
proof (induction deps arbitrary: d ready d')
  case Nil
  then show ?case by (simp add: lower_def now_ready_def)
next
  case (Cons dep deps)
  from Cons.prems(1) obtain r d1 rest where
      1: "runs (decrement_one runID dep) d r d1"
    and 2: "runs (decrementDependents runID deps) d1 rest d'"
    and ready: "ready = (if r = 0 then dep # rest else rest)"
    by auto
  have d1: "d1 = d\<lparr> db_deps := modify_row (runID, dep) (\<lambda>n. n - 1) (db_deps d) \<rparr>"
    and r: "select (runID, dep) (db_deps d) = Some (r + 1)"
    using runs_decrement_one [OF 1] by auto
  have IH: "d' = d1\<lparr> db_deps := lower runID deps (db_deps d1) \<rparr>" "rest = now_ready runID deps (db_deps d1)"
    using Cons.IH [OF 2] Cons.prems(2) by auto
  have "now_ready runID deps (db_deps d1) = now_ready runID deps (db_deps d)"
    unfolding now_ready_def using Cons.prems(2) by (intro filter_cong) (auto simp: d1)
  then show ?case
    using IH ready r by (auto simp: d1 lower_def now_ready_def)
qed

lemma chosen_Cons: "chosen deps ready i (x # xs) =
    (if i < length deps \<and> deps ! i \<notin> set ready then [] else [x]) @ chosen deps ready (Suc i) xs"
  by (auto simp: chosen_def)

lemma runs_enqueue_ready:
  "runs (enqueue_ready deps ready i ds) d n d' \<Longrightarrow>
     d' = d\<lparr> db_calls := db_calls d @ enqueue_calls (chosen deps ready i ds) \<rparr>
     \<and> n = int (length (chosen deps ready i ds))"
proof (induction ds arbitrary: i d n d')
  case Nil
  then show ?case by (simp add: chosen_def enqueue_calls_def)
next
  case (Cons x xs)
  show ?case
  proof (cases "i < length deps \<and> deps ! i \<notin> set ready")
    case True
    then show ?thesis using Cons by (simp add: chosen_Cons)
  next
    case False
    then obtain d1 m where "runs (Tx_Enqueue (ds_queue x) (ds_payload x)) d () d1"
        and 2: "runs (enqueue_ready deps ready (Suc i) xs) d1 m d'" and n: "n = m + 1"
      using Cons.prems by auto
    then have "d1 = d\<lparr> db_calls := db_calls d @ [QEnqueue (ds_queue x) (ds_payload x) None] \<rparr>"
      unfolding Tx_Enqueue_def using runs_qcall by blast
    with Cons.IH [OF 2] n False show ?thesis
      by (simp add: chosen_Cons enqueue_calls_def)
  qed
qed

lemma runs_with_option: "runs (with_option f x) d a d' \<Longrightarrow>
    (case x of None \<Rightarrow> d' = d | Some y \<Rightarrow> runs (f y) d a d')"
  by (auto simp: with_option_def split: option.splits)

lemma runs_Tx_Ack: "runs (Tx_Ack j) d a d' \<Longrightarrow> d' = d\<lparr> db_calls := db_calls d @ [QAck (j_id j) (j_worker j)] \<rparr>"
  unfolding runs_def Tx_Ack_def Let_def bind_eq_Inr
  by (auto simp: sm_eval dest!: stmt_Inr split: if_splits)

lemma add_pending_0 [simp]: "add_pending r 0 t = t"
  by (simp add: add_pending_def modify_row_def case_prod_unfold)

lemma runs_AdjustPending: "runs (AdjustPending r n) d a d' \<Longrightarrow> d' = d\<lparr> db_runs := add_pending r n (db_runs d) \<rparr>"
  by (auto simp: AdjustPending_def add_pending_def dest: runs_exec_sql)

lemma runs_fan_out:
  "runs (if deps \<noteq> [] then decrementDependents r deps else ret []) d ready d' \<Longrightarrow> distinct deps \<Longrightarrow>
     d' = d\<lparr> db_deps := lower r deps (db_deps d) \<rparr> \<and> ready = now_ready r deps (db_deps d)"
  by (cases "deps = []") (auto simp: lower_def now_ready_def dest: runs_decrementDependents)

lemma runs_write_dedupe: "runs (with_option write_dedupe r) d a d' \<Longrightarrow> d' = d\<lparr> db_dedupe := put_dedupe r (db_dedupe d) \<rparr>"
  by (drule runs_with_option)
     (auto simp: put_dedupe_def write_dedupe_def split: option.splits dest!: runs_check_marshal runs_exec_sql)

lemma runs_write_singer: "runs (with_option write_singer r) d a d' \<Longrightarrow> d' = d\<lparr> db_singer := put_singer r (db_singer d) \<rparr>"
  by (drule runs_with_option)
     (auto simp: put_singer_def write_singer_def split: option.splits dest!: runs_check_marshal runs_exec_sql)

lemma runs_atom_body:
  assumes "runs (atom_body a) d u d'" "distinct (na_dependents a)"
  shows "d' = atom_spec a d"
proof -
  let ?delta = "\<lambda>n. if na_job a = None then n else n - (1 :: int)"
  from assms(1) obtain d0 d1 d2 d3 d4 d5 d6 ready n where
      m: "runs (check_marshal ''marshal result: '' (na_result a)) d () d0"
    and r: "runs (put_result (na_run a) (na_node a) (na_result a)) d0 () d1"
    and dd: "runs (with_option write_dedupe (na_dedupe a)) d1 () d2"
    and dep: "runs (if na_dependents a \<noteq> [] then decrementDependents (na_run a) (na_dependents a) else ret []) d2 ready d3"
    and enq: "runs (enqueue_ready (na_dependents a) ready 0 (na_downstream a)) d3 n d4"
    and adj: "runs (if ?delta n \<noteq> 0 then AdjustPending (na_run a) (?delta n) else ret ()) d4 () d5"
    and si: "runs (with_option write_singer (na_singer a)) d5 () d6"
    and ack: "runs (with_option Tx_Ack (na_job a)) d6 () d'"
    unfolding atom_body_def Let_def by auto
  have d5: "d5 = d4\<lparr> db_runs := add_pending (na_run a) (?delta n) (db_runs d4) \<rparr>"
    using adj by (cases "?delta n = 0") (auto dest: runs_AdjustPending)
  have d6: "d6 = d5\<lparr> db_singer := put_singer (na_singer a) (db_singer d5) \<rparr>"
    using runs_write_singer [OF si] .
  have d': "d' = d6\<lparr> db_calls := db_calls d6 @ (case na_job a of None \<Rightarrow> [] | Some j \<Rightarrow> [QAck (j_id j) (j_worker j)]) \<rparr>"
    using runs_with_option [OF ack] by (auto split: option.splits dest: runs_Tx_Ack)
  have d2: "d2 = d\<lparr> db_results := upsert (na_run a, na_node a) (na_result a) (db_results d),
      db_dedupe := put_dedupe (na_dedupe a) (db_dedupe d) \<rparr>"
    using runs_check_marshal [OF m] runs_exec_sql [OF r [unfolded put_result_def]] runs_write_dedupe [OF dd] by simp
  have d3: "d3 = d2\<lparr> db_deps := lower (na_run a) (na_dependents a) (db_deps d2) \<rparr>"
    and ready: "ready = now_ready (na_run a) (na_dependents a) (db_deps d2)"
    using runs_fan_out [OF dep assms(2)] by auto
  have rel: "chosen (na_dependents a) ready 0 (na_downstream a) = released a d"
    by (simp add: released_def ready d2)
  show ?thesis
    unfolding d' d6 d5 using runs_enqueue_ready [OF enq] rel
    by (cases "na_job a") (simp_all add: atom_spec_def d3 d2)
qed

section \<open>When nothing fails\<close>

text \<open>\<^verbatim>\<open>does w m a d\<close>: from \<^verbatim>\<open>w\<close>, \<^verbatim>\<open>m\<close> returns \<^verbatim>\<open>a\<close> and leaves the database \<^verbatim>\<open>d\<close> and nothing else changed.\<close>

definition does :: "('j, 'w) world \<Rightarrow> ('j, 'w, 'a) sm \<Rightarrow> 'a \<Rightarrow> ('j, 'w) db \<Rightarrow> bool" where
  "does w m a d \<longleftrightarrow> m w = (Inr a, w\<lparr> w_db := d \<rparr>)"

lemma does_runs: "does w m a d \<Longrightarrow> runs m (w_db w) a d"
  by (metis does_def runsI world.select_convs(1) world.surjective world.update_convs(1))

lemma does_bind:
  "does w m a d \<Longrightarrow> does (w\<lparr> w_db := d \<rparr>) (k a) b d' \<Longrightarrow> does w (bind m k) b d'"
  by (simp add: does_def bind_def)

lemma does_ret [simp]: "does w (ret a) b d \<longleftrightarrow> b = a \<and> d = w_db w"
  by (auto simp: does_def sm_eval) (metis world.surjective world.update_convs(1) world.select_convs(1))+

lemma does_wrapping [simp]: "does w (wrapping p m) a d \<longleftrightarrow> does w m a d"
  by (simp add: does_def)

lemma does_exec_sql: "calm w \<Longrightarrow> does w (exec_sql f) () (f (w_db w))"
  by (simp add: does_def)

lemma does_query: "calm w \<Longrightarrow> does w (query f) (f (w_db w)) (w_db w)"
  by (simp add: does_def)

lemma does_qcall: "calm w \<Longrightarrow> does w (qcall c) () ((w_db w)\<lparr> db_calls := db_calls (w_db w) @ [c] \<rparr>)"
  by (simp add: does_def)

lemma does_check_marshal: "json_marshal v = Inr t \<Longrightarrow> does w (check_marshal p v) () (w_db w)"
  by (simp add: check_marshal_def does_bind [where a = t and d = "w_db w"] does_def sm_eval bind_def)

lemma does_WithTx: "calm w \<Longrightarrow> does w m a d \<Longrightarrow> does w (WithTx m) a d"
  by (simp add: does_def WithTx_calm_Inr)

lemma does_decrementDependents:
  assumes "calm w" "\<forall>dep\<in>set deps. select (r, dep) (db_deps (w_db w)) \<noteq> None"
  shows "\<exists>ready d. does w (decrementDependents r deps) ready d"
  using assms
proof (induction deps arbitrary: w)
  case (Cons dep deps)
  let ?d = "(w_db w)\<lparr> db_deps := modify_row (r, dep) (\<lambda>n. n - 1) (db_deps (w_db w)) \<rparr>"
  obtain n where n: "select (r, dep) (db_deps (w_db w)) = Some n" using Cons.prems(2) by auto
  have 1: "does w (decrement_one r dep) (n - 1) ?d"
    using Cons.prems(1) n by (simp add: decrement_one_def does_def bind_def sm_eval wrapping_def)
  have "\<forall>dep\<in>set deps. select (r, dep) (db_deps ?d) \<noteq> None"
    using Cons.prems(2) by simp
  then obtain ready d where "does (w\<lparr> w_db := ?d \<rparr>) (decrementDependents r deps) ready d"
    using Cons.IH [of "w\<lparr> w_db := ?d \<rparr>"] Cons.prems(1) by auto
  then have "does w (decrementDependents r (dep # deps)) (if n - 1 = 0 then dep # ready else ready) d"
    using 1 by (simp add: does_def bind_def sm_eval)
  then show ?case by blast
qed (simp, meson does_ret)

lemma does_enqueue_ready: "calm w \<Longrightarrow> \<exists>n d. does w (enqueue_ready deps ready i ds) n d"
proof (induction ds arbitrary: i w)
  case (Cons x xs)
  show ?case
  proof (cases "i < length deps \<and> deps ! i \<notin> set ready")
    case True
    then show ?thesis using Cons by simp
  next
    case False
    let ?d = "(w_db w)\<lparr> db_calls := db_calls (w_db w) @ [QEnqueue (ds_queue x) (ds_payload x) None] \<rparr>"
    obtain n d where "does (w\<lparr> w_db := ?d \<rparr>) (enqueue_ready deps ready (Suc i) xs) n d"
      using Cons.IH [of "w\<lparr> w_db := ?d \<rparr>" "Suc i"] Cons.prems by auto
    then have "does w (enqueue_ready deps ready i (x # xs)) (n + 1) d"
      using False Cons.prems by (auto simp: does_def bind_def sm_eval Tx_Enqueue_def wrapping_def)
    then show ?thesis by blast
  qed
qed (simp, meson does_ret)

definition encodable :: "value \<Rightarrow> bool" where
  "encodable v \<longleftrightarrow> (case json_marshal v of Inr _ \<Rightarrow> True | Inl _ \<Rightarrow> False)"

lemma encodable_iff: "encodable v \<longleftrightarrow> (\<exists>t. json_marshal v = Inr t)"
  by (auto simp: encodable_def split: sum.splits)

text \<open>What the completion needs of its surroundings: values JSON can encode, a count row for
  every dependent and a claim that is still valid when it is acked.\<close>

definition atom_ready :: "'j node_atom \<Rightarrow> ('j, 'w) world \<Rightarrow> bool" where
  "atom_ready a w \<longleftrightarrow> encodable (na_result a)
     \<and> (\<forall>r. na_dedupe a = Some r \<longrightarrow> encodable (dr_value r))
     \<and> (\<forall>s. na_singer a = Some s \<longrightarrow> encodable (ss_state s))
     \<and> list_all (\<lambda>dep. select (na_run a, dep) (db_deps (w_db w)) \<noteq> None) (na_dependents a)
     \<and> (\<forall>j. na_job a = Some j \<longrightarrow>
          w_claim_valid w (j_id j) (j_worker j) (db_calls (w_db w) @ enqueue_calls (released a (w_db w))))"

lemma does_put_option:
  assumes "calm w" "\<And>x w. x0 = Some x \<Longrightarrow> calm w \<Longrightarrow> \<exists>d. does w (f x) () d"
  shows "\<exists>d. does w (with_option f x0) () d"
  using assms by (cases x0) (auto simp: with_option_def)

lemma atom_body_total:
  fixes w :: "('a, 'b) world"
  assumes "calm w" "atom_ready a w" "distinct (na_dependents a)"
  shows "does w (atom_body a) () (atom_spec a (w_db w))"
proof -
  let ?u = "\<lambda>d. w\<lparr> w_db := d \<rparr>"
  obtain t where t: "json_marshal (na_result a) = Inr t" using assms(2) by (auto simp: atom_ready_def encodable_iff)
  have d0: "does w (check_marshal ''marshal result: '' (na_result a)) () (w_db w)"
    using does_check_marshal [OF t] .
  define d1 where "d1 = (w_db w)\<lparr> db_results := upsert (na_run a, na_node a) (na_result a) (db_results (w_db w)) \<rparr>"
  have 1: "does w (put_result (na_run a) (na_node a) (na_result a)) () d1"
    using assms(1) by (simp add: put_result_def does_def d1_def)
  have "\<exists>d. does (?u d1) (with_option write_dedupe (na_dedupe a)) () d"
  proof (rule does_put_option)
    fix r and w :: "('a, 'b) world" assume r: "na_dedupe a = Some r" and c: "calm w"
    obtain s where "json_marshal (dr_value r) = Inr s" using assms(2) r by (auto simp: atom_ready_def encodable_iff)
    from does_check_marshal [OF this, of w] show "\<exists>d. does w (write_dedupe r) () d"
      using c by (auto simp: write_dedupe_def does_def bind_def)
  qed (use assms(1) in simp)
  then obtain d2 where 2: "does (?u d1) (with_option write_dedupe (na_dedupe a)) () d2" ..
  have d2: "d2 = d1\<lparr> db_dedupe := put_dedupe (na_dedupe a) (db_dedupe d1) \<rparr>"
    using runs_write_dedupe [OF does_runs [OF 2]] by simp
  have rows: "\<forall>dep\<in>set (na_dependents a). select (na_run a, dep) (db_deps d2) \<noteq> None"
    using assms(2) by (auto simp: atom_ready_def list_all_iff d2 d1_def)
  obtain ready d3 where 3: "does (?u d2) (if na_dependents a \<noteq> []
      then decrementDependents (na_run a) (na_dependents a) else ret []) ready d3"
    using does_decrementDependents [of "?u d2" "na_dependents a" "na_run a"] rows assms(1)
    by (cases "na_dependents a = []") auto
  obtain n d4 where 4: "does (?u d3) (enqueue_ready (na_dependents a) ready 0 (na_downstream a)) n d4"
    using does_enqueue_ready [of "?u d3" "na_dependents a" ready 0 "na_downstream a"] assms(1) by auto
  let ?delta = "if na_job a = None then n else n - 1"
  obtain d5 where 5: "does (?u d4) (if ?delta \<noteq> 0 then AdjustPending (na_run a) ?delta else ret ()) () d5"
    using assms(1) by (cases "?delta = 0") (auto simp: AdjustPending_def does_def sm_eval)
  have "\<exists>d. does (?u d5) (with_option write_singer (na_singer a)) () d"
  proof (rule does_put_option)
    fix r and w :: "('a, 'b) world" assume r: "na_singer a = Some r" and c: "calm w"
    obtain s where "json_marshal (ss_state r) = Inr s" using assms(2) r by (auto simp: atom_ready_def encodable_iff)
    from does_check_marshal [OF this, of w] show "\<exists>d. does w (write_singer r) () d"
      using c by (auto simp: write_singer_def does_def bind_def)
  qed (use assms(1) in simp)
  then obtain d6 where 6: "does (?u d5) (with_option write_singer (na_singer a)) () d6" ..
  have deps: "d3 = d2\<lparr> db_deps := lower (na_run a) (na_dependents a) (db_deps d2) \<rparr>"
      "ready = now_ready (na_run a) (na_dependents a) (db_deps d2)"
    using runs_fan_out [OF does_runs [OF 3]] assms(3) by auto
  have rel: "chosen (na_dependents a) ready 0 (na_downstream a) = released a (w_db w)"
    by (simp add: released_def deps(2) d2 d1_def)
  have calls: "db_calls d6 = db_calls (w_db w) @ enqueue_calls (released a (w_db w))"
  proof -
    have "d6 = d5\<lparr> db_singer := put_singer (na_singer a) (db_singer d5) \<rparr>"
      using runs_write_singer [OF does_runs [OF 6]] by simp
    moreover have "db_calls d5 = db_calls d4"
      using does_runs [OF 5] by (cases "?delta = 0") (auto dest: runs_AdjustPending)
    ultimately show ?thesis
      using runs_enqueue_ready [OF does_runs [OF 4]] rel by (simp add: deps(1) d2 d1_def)
  qed
  have "\<exists>d. does (?u d6) (with_option Tx_Ack (na_job a)) () d"
  proof (cases "na_job a")
    case (Some j)
    then have "w_claim_valid w (j_id j) (j_worker j) (db_calls d6)"
      using assms(2) by (simp add: atom_ready_def calls)
    with Some assms(1) show ?thesis
      by (auto simp: with_option_def Tx_Ack_def does_def bind_def sm_eval wrapping_def)
  qed (simp add: with_option_def)
  then obtain d7 where 7: "does (?u d6) (with_option Tx_Ack (na_job a)) () d7" ..
  have "does w (atom_body a) () d7"
    unfolding atom_body_def Let_def
    apply (rule does_bind [OF d0])
    apply (rule does_bind [where d = d1]) using 1 apply simp
    apply (rule does_bind [where d = d2]) using 2 apply simp
    apply (rule does_bind [where d = d3 and a = ready]) using 3 apply simp
    apply (rule does_bind [where d = d4 and a = n]) using 4 apply simp
    apply (rule does_bind [where d = d5]) using 5 apply simp
    apply (rule does_bind [where d = d6]) using 6 apply simp
    using 7 by simp
  then show ?thesis
    using runs_atom_body [OF does_runs assms(3)] by metis
qed

section \<open>Properties of the atom\<close>

text \<open>C6: The completion of a node is all or nothing: whichever statement fails, and whether or
  not the claim is still valid, CommitNodeAtom either returns an error and leaves the database
  exactly as it was, or returns none and has written the result, the dedupe record, the
  bookmark, the lowered dependency counts, the released jobs, the pending count and the ack.\<close>

theorem CommitNodeAtom_all_or_nothing:
  assumes "distinct (na_dependents a)" "CommitNodeAtom a w = (r, w')"
  shows "w_db w' = (case r of Inl _ \<Rightarrow> w_db w | Inr _ \<Rightarrow> atom_spec a (w_db w))"
proof (cases r)
  case (Inl e)
  then show ?thesis using assms(2) by (simp add: CommitNodeAtom_def WithTx_atomic)
next
  case (Inr u)
  then have "runs (WithTx (atom_body a)) (w_db w) u (w_db w')"
    using assms(2) by (auto simp: CommitNodeAtom_def intro: runsI)
  from runs_atom_body [OF runs_WithTx [OF this] assms(1)] show ?thesis by (simp add: Inr)
qed

definition empty_db :: "('j, 'w) db" where
  "empty_db = \<lparr> db_results = [], db_dedupe = [], db_workflows = [], db_events = [], db_event_seq = 0,
     db_runs = [], db_singer = [], db_deps = [], db_suspended = [], db_signals = [], db_signal_seq = 0,
     db_failed = [], db_calls = [] \<rparr>"

definition calm_world :: "('j, 'w) db \<Rightarrow> ('j, 'w) world" where
  "calm_world d = \<lparr> w_db = d, w_faults = [], w_claim_valid = (\<lambda>_ _ _. True), w_now = 1000, w_execs = [] \<rparr>"

lemma calm_calm_world [simp]: "calm (calm_world d)" "w_db (calm_world d) = d"
  by (simp_all add: calm_world_def calm_def)

text \<open>A run with one node waiting for two others, and the completion of one of them.\<close>

definition join_db :: "(string, unit) db" where
  "join_db = empty_db\<lparr> db_runs := [(''r1'', \<lparr> rr_workflow = ''orders'', rr_status = RunRunning,
       rr_pending = 2, rr_created = 0 \<rparr>)],
     db_deps := [((''r1'', ''join''), 2)] \<rparr>"

definition join_atom :: "string \<Rightarrow> string node_atom" where
  "join_atom n = \<lparr> na_run = ''r1'', na_node = n, na_result = VBool True, na_dedupe = None,
     na_dependents = [''join''], na_downstream = [\<lparr> ds_queue = ''nodes'', ds_payload = ''run join'' \<rparr>],
     na_job = Some \<lparr> j_id = 7, j_worker = ''w1'', j_attempts = 1, j_payload = Inr n \<rparr>, na_singer = None \<rparr>"

theorem CommitNodeAtom_all_or_nothing_witness:
  "w_db (snd (CommitNodeAtom (join_atom ''a'') ((calm_world join_db)\<lparr> w_claim_valid := (\<lambda>_ _ _. False) \<rparr>))) = join_db"
proof -
  let ?w = "(calm_world join_db)\<lparr> w_claim_valid := (\<lambda>_ _ _. False) \<rparr>"
  have "isl (fst (CommitNodeAtom (join_atom ''a'') ?w))"
    by code_simp
  then obtain e where "CommitNodeAtom (join_atom ''a'') ?w = (Inl e, snd (CommitNodeAtom (join_atom ''a'') ?w))"
    by (metis prod.collapse isl_def)
  then show ?thesis
    using CommitNodeAtom_all_or_nothing [of "join_atom ''a''" ?w] by (simp add: join_atom_def calm_world_def)
qed

text \<open>C7: The completion goes through: when no statement fails, the values can be encoded, the
  dependents have count rows and the claim is still valid at the ack, CommitNodeAtom returns
  no error and its effect is the specified one.\<close>

theorem CommitNodeAtom_commits:
  assumes "calm w" "atom_ready a w" "distinct (na_dependents a)"
  shows "CommitNodeAtom a w = (Inr (), w\<lparr> w_db := atom_spec a (w_db w) \<rparr>)"
  using does_WithTx [OF assms(1) atom_body_total [OF assms]] by (simp add: CommitNodeAtom_def does_def)

theorem CommitNodeAtom_commits_witness:
  "CommitNodeAtom (join_atom ''a'') (calm_world join_db)
     = (Inr (), (calm_world join_db)\<lparr> w_db := atom_spec (join_atom ''a'') join_db \<rparr>)
   \<and> db_deps (atom_spec (join_atom ''a'') join_db) = [((''r1'', ''join''), 1)]
   \<and> map (\<lambda>p. rr_pending (snd p)) (db_runs (atom_spec (join_atom ''a'') join_db)) = [1]"
proof -
  have "atom_ready (join_atom ''a'') (calm_world join_db)"
    by (simp add: atom_ready_def join_atom_def join_db_def encodable_def calm_world_def select_def)
  moreover have "distinct (na_dependents (join_atom ''a''))" by (simp add: join_atom_def)
  ultimately have "CommitNodeAtom (join_atom ''a'') (calm_world join_db)
      = (Inr (), (calm_world join_db)\<lparr> w_db := atom_spec (join_atom ''a'') join_db \<rparr>)"
    using CommitNodeAtom_commits [of "calm_world join_db" "join_atom ''a''"] by simp
  moreover have "db_deps (atom_spec (join_atom ''a'') join_db) = [((''r1'', ''join''), 1)]" by code_simp
  moreover have "map (\<lambda>p. rr_pending (snd p)) (db_runs (atom_spec (join_atom ''a'') join_db)) = [1]" by code_simp
  ultimately show ?thesis by blast
qed

section \<open>Fan-in\<close>

primrec after :: "'j node_atom list \<Rightarrow> ('j, 'w) db \<Rightarrow> ('j, 'w) db" where
  "after [] d = d"
| "after (a # as) d = after as (atom_spec a d)"

lemma after_append: "after (as @ bs) d = after bs (after as d)"
  by (induction as arbitrary: d) simp_all

lemma after_count:
  assumes "\<forall>a\<in>set as. na_run a = r \<and> dep \<in> set (na_dependents a) \<and> distinct (na_dependents a)"
    and "select (r, dep) (db_deps d) = Some k"
  shows "select (r, dep) (db_deps (after as d)) = Some (k - int (length as))"
  using assms
proof (induction as arbitrary: d k)
  case (Cons a as)
  then have "select (r, dep) (db_deps (atom_spec a d)) = Some (k - 1)"
    by (simp add: atom_spec_def lower_one)
  then show ?case using Cons.IH [of "atom_spec a d" "k - 1"] Cons.prems(1) by simp
qed simp

lemma chosen_nth:
  assumes "distinct ds" "p < length ds" "length ds = length deps" "distinct deps"
  shows "ds ! p \<in> set (chosen deps ready 0 ds) \<longleftrightarrow> deps ! p \<in> set ready"
proof -
  have "ds ! p \<in> set (chosen deps ready 0 ds)
      \<longleftrightarrow> (\<exists>k<length ds. ds ! k = ds ! p \<and> deps ! k \<in> set ready)"
    using assms(3) by (force simp: chosen_def enumerate_eq_zip in_set_zip image_iff)
  then show ?thesis
    using assms by (auto simp: nth_eq_iff_index_eq)
qed

lemma commit_effect:
  assumes "CommitNodeAtom a w = (Inr u, w')" "distinct (na_dependents a)"
  shows "w_db w' = atom_spec a (w_db w)"
proof -
  have "runs (WithTx (atom_body a)) (w_db w) u (w_db w')"
    using assms(1) by (auto simp: CommitNodeAtom_def intro: runsI)
  from runs_atom_body [OF runs_WithTx [OF this] assms(2)] show ?thesis .
qed

lemma commits_effect:
  assumes "each CommitNodeAtom as w = (Inr u, w')" "\<forall>a\<in>set as. distinct (na_dependents a)"
  shows "w_db w' = after as (w_db w)"
  using assms
proof (induction as arbitrary: w)
  case (Cons a as)
  then obtain v w1 where 1: "CommitNodeAtom a w = (Inr v, w1)" "each CommitNodeAtom as w1 = (Inr u, w')"
    by (auto simp: bind_eq_Inr)
  with Cons show ?case using commit_effect [OF 1(1)] by simp
qed (auto simp: ret_def)

text \<open>C8: Fan-in: when several nodes of a run feed a node whose count is \<^verbatim>\<open>k\<close>, the \<^verbatim>\<open>k\<close>-th
  of their commits, in whatever order they go through, enqueues that node's job; no earlier
  commit does, and no later one does again.\<close>

theorem fan_in_releases_once:
  assumes "\<forall>a\<in>set as. na_run a = r \<and> dep \<in> set (na_dependents a) \<and> distinct (na_dependents a)"
    and "select (r, dep) (db_deps (w_db w)) = Some (int k)" and "i < length as"
    and "each CommitNodeAtom (take i as) w = (Inr u, w1)" and "CommitNodeAtom (as ! i) w1 = (Inr v, w2)"
    and "p < length (na_downstream (as ! i))" "distinct (na_downstream (as ! i))"
    and "length (na_downstream (as ! i)) = length (na_dependents (as ! i))" "na_dependents (as ! i) ! p = dep"
  shows "\<exists>ds. db_calls (w_db w2) = db_calls (w_db w1) @ enqueue_calls ds
        @ (case na_job (as ! i) of None \<Rightarrow> [] | Some j \<Rightarrow> [QAck (j_id j) (j_worker j)])
      \<and> (na_downstream (as ! i) ! p \<in> set ds \<longleftrightarrow> Suc i = k)"
proof -
  let ?a = "as ! i"
  have a: "na_run ?a = r" "dep \<in> set (na_dependents ?a)" "distinct (na_dependents ?a)"
    using assms(1,3) by auto
  have before: "\<forall>a\<in>set (take i as). na_run a = r \<and> dep \<in> set (na_dependents a) \<and> distinct (na_dependents a)"
    using assms(1) by (meson in_set_takeD)
  then have w1: "w_db w1 = after (take i as) (w_db w)" using commits_effect [OF assms(4)] by simp
  from after_count [OF before assms(2)]
  have "select (r, dep) (db_deps (w_db w1)) = Some (int k - int i)" using assms(3) w1 by simp
  then have "dep \<in> set (now_ready r (na_dependents ?a) (db_deps (w_db w1))) \<longleftrightarrow> Suc i = k"
    using a by (auto simp: now_ready_def)
  then have "na_downstream ?a ! p \<in> set (released ?a (w_db w1)) \<longleftrightarrow> Suc i = k"
    using chosen_nth [OF assms(7,6,8) a(3)] a assms(9) by (simp add: released_def)
  moreover have "w_db w2 = atom_spec ?a (w_db w1)" by (rule commit_effect [OF assms(5) a(3)])
  ultimately show ?thesis by (intro exI [of _ "released ?a (w_db w1)"]) (simp add: atom_spec_def)
qed

theorem fan_in_releases_once_witness:
  "\<exists>ds w1 w2. each CommitNodeAtom [join_atom ''a''] (calm_world join_db) = (Inr (), w1)
     \<and> CommitNodeAtom (join_atom ''b'') w1 = (Inr (), w2)
     \<and> db_calls (w_db w1) = [QAck 7 ''w1'']
     \<and> db_calls (w_db w2) = db_calls (w_db w1) @ enqueue_calls ds @ [QAck 7 ''w1'']
     \<and> na_downstream (join_atom ''b'') ! 0 \<in> set ds"
proof -
  let ?w1 = "snd (each CommitNodeAtom [join_atom ''a''] (calm_world join_db))"
  have 1: "fst (each CommitNodeAtom [join_atom ''a''] (calm_world join_db)) = Inr ()" by code_simp
  have 2: "fst (CommitNodeAtom (join_atom ''b'') ?w1) = Inr ()" by code_simp
  have c: "db_calls (w_db ?w1) = [QAck 7 ''w1'']" by code_simp
  have e1: "each CommitNodeAtom [join_atom ''a''] (calm_world join_db) = (Inr (), ?w1)"
    using 1 by (metis prod.collapse)
  have e2: "CommitNodeAtom (join_atom ''b'') ?w1 = (Inr (), snd (CommitNodeAtom (join_atom ''b'') ?w1))"
    using 2 by (metis prod.collapse)
  have "select (''r1'', ''join'') (db_deps (w_db (calm_world join_db))) = Some (int 2)"
    by (simp add: join_db_def select_def)
  then obtain ds where "db_calls (w_db (snd (CommitNodeAtom (join_atom ''b'') ?w1)))
      = db_calls (w_db ?w1) @ enqueue_calls ds @ [QAck 7 ''w1'']"
      "na_downstream (join_atom ''b'') ! 0 \<in> set ds"
    using fan_in_releases_once [of "[join_atom ''a'', join_atom ''b'']" "''r1''" "''join''" "calm_world join_db" 2 1
        "()" ?w1 "()" _ 0] e1 e2
    by (auto simp: join_atom_def)
  then show ?thesis using e1 e2 c by blast
qed

section \<open>Buffered signals\<close>

lemma oldest_signal_none: "\<forall>(i, n, p)\<in>set (db_signals d). n \<noteq> name \<Longrightarrow> oldest_signal name d = None"
proof -
  assume "\<forall>(i, n, p)\<in>set (db_signals d). n \<noteq> name"
  then have "filter (\<lambda>(_, n, _). n = name) (db_signals d) = []"
    by (auto simp: filter_empty_conv)
  then show ?thesis by (simp add: oldest_signal_def)
qed

lemma does_BufferSignal:
  assumes "calm w" "encodable p"
  shows "does w (BufferSignal name p) () ((w_db w)\<lparr>
    db_signals := db_signals (w_db w) @ [(db_signal_seq (w_db w) + 1, name, p)],
    db_signal_seq := db_signal_seq (w_db w) + 1 \<rparr>)"
proof -
  obtain t where "json_marshal p = Inr t" using assms(2) by (auto simp: encodable_iff)
  from does_check_marshal [OF this, of w] show ?thesis
    using assms(1) by (simp add: BufferSignal_def does_def bind_def)
qed

lemma does_TakeBufferedSignal:
  assumes "calm w"
  shows "does w (TakeBufferedSignal name) (oldest_signal name (w_db w))
    (case oldest_signal name (w_db w) of None \<Rightarrow> w_db w | Some p \<Rightarrow> drop_signals name p (w_db w))"
  using assms by (cases "oldest_signal name (w_db w)")
    (simp_all add: TakeBufferedSignal_def does_def bind_def sm_eval)

text \<open>Signals buffered under one name are handed out oldest first, but taking one drops
  every buffered signal with the same payload: after buffering \<^verbatim>\<open>p\<close> and then \<^verbatim>\<open>q\<close>, the first
  take gives \<^verbatim>\<open>p\<close>, and the second gives \<^verbatim>\<open>q\<close> only if their encodings differ.\<close>

theorem buffered_signals_fifo_up_to_twins:
  assumes "calm w" "encodable p" "encodable q"
    and none: "\<forall>(i, n, x)\<in>set (db_signals (w_db w)). n \<noteq> name"
  shows "fst (seq (BufferSignal name p) (seq (BufferSignal name q)
      (bind (TakeBufferedSignal name) (\<lambda>x. bind (TakeBufferedSignal name) (\<lambda>y. ret (x, y))))) w)
    = Inr (Some p, if json_marshal q = json_marshal p then None else Some q)"
proof -
  define d1 where "d1 = (w_db w)\<lparr> db_signals := db_signals (w_db w) @ [(db_signal_seq (w_db w) + 1, name, p)],
      db_signal_seq := db_signal_seq (w_db w) + 1 \<rparr>"
  define d2 where "d2 = d1\<lparr> db_signals := db_signals d1 @ [(db_signal_seq d1 + 1, name, q)],
      db_signal_seq := db_signal_seq d1 + 1 \<rparr>"
  define d3 where "d3 = drop_signals name p d2"
  have old: "filter (\<lambda>(_, n, _). n = name) (db_signals (w_db w)) = []"
    using none by (auto simp: filter_empty_conv)
  have o2: "oldest_signal name d2 = Some p"
    by (simp add: oldest_signal_def d2_def d1_def old)
  have fresh: "filter (\<lambda>(_, n, _). n = name) (filter (\<lambda>(_, n, x). \<not> (n = name \<and> P x)) (db_signals (w_db w))) = []" for P
    using none by (auto simp: filter_empty_conv)
  have o3: "oldest_signal name d3 = (if json_marshal q = json_marshal p then None else Some q)"
    using fresh [of "\<lambda>x. json_marshal x = json_marshal p"]
    by (simp add: oldest_signal_def d3_def drop_signals_def d2_def d1_def)
  have 1: "BufferSignal name p w = (Inr (), w\<lparr> w_db := d1 \<rparr>)"
    using does_BufferSignal [OF assms(1,2)] by (simp add: does_def d1_def)
  have 2: "BufferSignal name q (w\<lparr> w_db := d1 \<rparr>) = (Inr (), w\<lparr> w_db := d2 \<rparr>)"
    using does_BufferSignal [of "w\<lparr> w_db := d1 \<rparr>" q name] assms by (simp add: does_def d2_def)
  have 3: "TakeBufferedSignal name (w\<lparr> w_db := d2 \<rparr>) = (Inr (Some p), w\<lparr> w_db := d3 \<rparr>)"
    using does_TakeBufferedSignal [of "w\<lparr> w_db := d2 \<rparr>" name] assms(1) o2 by (simp add: does_def d3_def)
  obtain d4 where 4: "TakeBufferedSignal name (w\<lparr> w_db := d3 \<rparr>)
      = (Inr (if json_marshal q = json_marshal p then None else Some q), w\<lparr> w_db := d4 \<rparr>)"
    using does_TakeBufferedSignal [of "w\<lparr> w_db := d3 \<rparr>" name] assms(1) o3 by (simp add: does_def)
  show ?thesis
    by (simp add: bind_def 1 2 3 4 sm_eval)
qed

theorem buffered_signals_fifo_up_to_twins_witness:
  "fst (seq (BufferSignal ''approve'' (VBool True)) (seq (BufferSignal ''approve'' (VBool True))
      (bind (TakeBufferedSignal ''approve'') (\<lambda>x. bind (TakeBufferedSignal ''approve'') (\<lambda>y. ret (x, y)))))
      (calm_world (empty_db :: (string, unit) db)))
    = Inr (Some (VBool True), None)"
  using buffered_signals_fifo_up_to_twins [of "calm_world (empty_db :: (string, unit) db)" "VBool True" "VBool True" "''approve''"]
  by (simp add: encodable_def empty_db_def)

section \<open>Cancelling a run\<close>

lemma CancelRun_effect:
  "runs (CancelRun ident) d () d' \<Longrightarrow> d' = (put_status ident RunCancelled d)\<lparr>
      db_calls := db_calls d @ [QDropPending ident],
      db_suspended := filter (\<lambda>p. fst (fst p) \<noteq> ident) (db_suspended d) \<rparr>"
  by (auto simp: CancelRun_def SetRunStatus_def put_status_def dest!: runs_exec_sql runs_qcall)

lemma CancelRun_cancels:
  assumes "runs (CancelRun ident) d () d'" "select ident (db_runs d) \<noteq> None"
  shows "status_of d' ident = RunCancelled" "db_calls d' = db_calls d @ [QDropPending ident]"
    "\<not> list_ex (\<lambda>p. fst (fst p) = ident) (db_suspended d')"
  using assms(2) by (auto simp: CancelRun_effect [OF assms(1)] put_status_def status_of_def list_ex_iff)

text \<open>A cancelled run cannot be woken: once CancelRun returns, its row says cancelled, its
  pending jobs have been dropped from the queue, and none of its waits is parked any more, for
  any signal name; other runs' rows and waits are untouched.\<close>

theorem CancelRun_final:
  assumes "CancelRun ident w = (Inr (), w')" "select ident (db_runs (w_db w)) \<noteq> None"
  shows "status_of (w_db w') ident = RunCancelled
    \<and> db_calls (w_db w') = db_calls (w_db w) @ [QDropPending ident]
    \<and> \<not> list_ex (\<lambda>k. fst k = ident) (parked_for name (w_db w'))
    \<and> \<not> list_ex (\<lambda>p. fst (fst p) = ident) (db_suspended (w_db w'))
    \<and> (\<forall>other. other \<noteq> ident \<longrightarrow> select other (db_runs (w_db w')) = select other (db_runs (w_db w))
         \<and> (\<forall>n. select (other, n) (db_suspended (w_db w')) = select (other, n) (db_suspended (w_db w))))"
proof -
  have r: "runs (CancelRun ident) (w_db w) () (w_db w')" using assms(1) by (rule runsI)
  note d' = CancelRun_effect [OF r]
  have "select (other, n) (filter (\<lambda>p. fst (fst p) \<noteq> ident) t) = select (other, n) t"
    if "other \<noteq> ident" for other n and t :: "(string \<times> string, 'b susp_row) table"
    unfolding select_def using that by (induction t) auto
  then show ?thesis
    using CancelRun_cancels [OF r assms(2)] by (auto simp: d' put_status_def parked_for_def list_ex_iff)
qed

definition parked_db :: "(string, unit) db" where
  "parked_db = empty_db\<lparr> db_runs := [(''r1'', \<lparr> rr_workflow = ''orders'', rr_status = RunWaiting,
       rr_pending = 0, rr_created = 0 \<rparr>)],
     db_suspended := [((''r1'', ''gate''), \<lparr> su_workflow = ''orders'', su_signal = Some ''approve'',
       su_run_at = None, su_payload = () \<rparr>)] \<rparr>"

theorem CancelRun_final_witness:
  "parked_for ''approve'' parked_db = [(''r1'', ''gate'')]
   \<and> status_of (w_db (snd (CancelRun ''r1'' (calm_world parked_db)))) ''r1'' = RunCancelled"
proof -
  have "CancelRun ''r1'' (calm_world parked_db) = (Inr (), snd (CancelRun ''r1'' (calm_world parked_db)))"
    by (simp add: CancelRun_def SetRunStatus_def bind_def wrapping_def)
  from CancelRun_final [OF this]
  have "status_of (w_db (snd (CancelRun ''r1'' (calm_world parked_db)))) ''r1'' = RunCancelled"
    by (simp add: parked_db_def select_def)
  moreover have "parked_for ''approve'' parked_db = [(''r1'', ''gate'')]" by code_simp
  ultimately show ?thesis by blast
qed

end
