(* ===== verification/Expression.thy ===== *)
theory Expression
  imports GoLib
begin

text \<open>
  JSONata evaluation (internal/components/expression) and the string forms of its results.
  The JSONata library (parsing under a recursion and a sequence bound, evaluation under a
  deadline in milliseconds) and the JSON decoder are parameters.
\<close>

definition maxStack :: int where "maxStack = 64"
definition maxSequence :: int where "maxSequence = 10000"
definition evalTimeout :: int where "evalTimeout = 2000"

record 'e jsonata =
  jn_compile :: "int \<Rightarrow> int \<Rightarrow> string \<Rightarrow> 'e res"
  jn_eval :: "int \<Rightarrow> 'e \<Rightarrow> value \<Rightarrow> value res"
  jn_decode :: "string \<Rightarrow> value res"

definition Compile :: "'e jsonata \<Rightarrow> string \<Rightarrow> 'e res" where
  "Compile jn expr = map_err (wrap ''expression: compile: '') (jn_compile jn maxStack maxSequence expr)"

definition normalize :: "'e jsonata \<Rightarrow> value \<Rightarrow> value res" where
  "normalize jn v =
     rbind (map_err (wrap ''expression: normalize: '') (json_marshal v)) (\<lambda>raw.
     map_err (wrap ''expression: normalize: '') (jn_decode jn raw))"

definition Compiler_Eval :: "'e jsonata \<Rightarrow> 'e \<Rightarrow> value \<Rightarrow> value res" where
  "Compiler_Eval jn c input =
     rbind (map_err (wrap ''expression: eval: '') (jn_eval jn evalTimeout c input)) (normalize jn)"

definition Eval :: "'e jsonata \<Rightarrow> string \<Rightarrow> value \<Rightarrow> value res" where
  "Eval jn expr input = rbind (Compile jn expr) (\<lambda>c. Compiler_Eval jn c input)"

text \<open>
  dedupeString (worker.go) and stringify (suspend.go): a string as it is, anything else as its
  JSON text; \<^verbatim>\<open>fallback\<close> is fmt's rendering of a value JSON cannot encode.
\<close>

definition dedupeString :: "(value \<Rightarrow> string) \<Rightarrow> value \<Rightarrow> string" where
  "dedupeString fallback v = (case v of
      VStr s \<Rightarrow> s
    | _ \<Rightarrow> (case json_marshal v of Inl _ \<Rightarrow> fallback v | Inr raw \<Rightarrow> raw))"

definition stringify :: "(value \<Rightarrow> string) \<Rightarrow> value \<Rightarrow> string" where
  "stringify fallback v = (case v of
      VStr s \<Rightarrow> s
    | _ \<Rightarrow> (case json_marshal v of Inl _ \<Rightarrow> fallback v | Inr raw \<Rightarrow> raw))"

lemma Eval_kind_preserved:
  "jn_compile jn maxStack maxSequence expr = Inl e \<Longrightarrow> Eval jn expr v = Inl (wrap ''expression: compile: '' e)"
  by (simp add: Eval_def Compile_def)

lemma Eval_encodable:
  assumes "Eval jn expr input = Inr v"
  shows "\<exists>x raw. json_marshal x = Inr raw \<and> jn_decode jn raw = Inr v"
  using assms by (auto simp: Eval_def Compiler_Eval_def normalize_def rbind_eq_Inr)

end
