(* ===== verification/Job.thy ===== *)
theory Job
  imports StoreLaws Expression
begin

text \<open>
  The payload of a queued node execution (internal/worker: NodeJob) and the pure functions on
  it: threading results into a successor's input, the input of a loop iteration and the
  lookup of jobs in the downstream tree.
\<close>

section \<open>NodeJob\<close>

text \<open>The scalar fields; the two recursive ones (Downstream, Body) are the datatype's.\<close>

record job_fields =
  RunID :: string
  WorkflowID :: string
  NodeID :: string
  NodeName :: string
  NodeType :: string
  Config :: "(string \<times> value) list"
  Input :: "(string \<times> value) list"
  DedupeKey :: string
  Command :: "string list"
  Secrets :: "string list"
  Skip :: bool
  Dependents :: "string list"
  BodyAs :: string
  Rejoins :: "string list"
  CollectFrom :: string
  CollectAs :: string
  CollectCount :: int
  CollectName :: string

datatype node_job = NodeJob (nj: job_fields) (Downstream: "node_job list") (Body: "node_job option")

text \<open>The zero value of the scalar fields, and an assignment to some of them.\<close>

definition no_fields :: job_fields where
  "no_fields = \<lparr> RunID = '''', WorkflowID = '''', NodeID = '''', NodeName = '''', NodeType = '''',
     Config = [], Input = [], DedupeKey = '''', Command = [], Secrets = [], Skip = False,
     Dependents = [], BodyAs = '''', Rejoins = [], CollectFrom = '''', CollectAs = '''',
     CollectCount = 0, CollectName = '''' \<rparr>"

definition set_nj :: "(job_fields \<Rightarrow> job_fields) \<Rightarrow> node_job \<Rightarrow> node_job" where
  "set_nj f j = NodeJob (f (nj j)) (Downstream j) (Body j)"

lemma set_nj_sel [simp]:
  "nj (set_nj f j) = f (nj j)" "Downstream (set_nj f j) = Downstream j" "Body (set_nj f j) = Body j"
  by (simp_all add: set_nj_def)

section \<open>The input of a successor\<close>

definition threadInput :: "(string \<times> value) list \<Rightarrow> string \<Rightarrow> value \<Rightarrow> (string \<times> value) list" where
  "threadInput parentInput nodeName result =
     (let event = (case map_of parentInput ''event'' of None \<Rightarrow> VNull | Some v \<Rightarrow> v);
          steps = (case as_obj (map_of parentInput ''steps'') of None \<Rightarrow> [] | Some m \<Rightarrow> m);
          nxt = (if nodeName \<noteq> '''' then AList.update nodeName result steps else steps)
      in [(''event'', event), (''steps'', VObj nxt)])"

definition foreachItemInput :: "(string \<times> value) list \<Rightarrow> string \<Rightarrow> value \<Rightarrow> (string \<times> value) list" where
  "foreachItemInput parentInput as item =
     (let event = (case map_of parentInput ''event'' of None \<Rightarrow> VNull | Some v \<Rightarrow> v);
          steps = (case as_obj (map_of parentInput ''steps'') of None \<Rightarrow> [] | Some m \<Rightarrow> m)
      in AList.update as item [(''event'', event), (''steps'', VObj steps)])"

text \<open>The jobs of the successors, with the input threaded and one more assignment.\<close>

definition thread_job :: "(string \<times> value) list \<Rightarrow> string \<Rightarrow> value \<Rightarrow> node_job \<Rightarrow> node_job" where
  "thread_job parentInput nodeName result d =
     set_nj (\<lambda>f. f\<lparr> Input := threadInput parentInput nodeName result \<rparr>) d"

section \<open>Looking jobs up\<close>

definition findDownstreamJob :: "node_job \<Rightarrow> string \<Rightarrow> node_job option" where
  "findDownstreamJob sj ident = List.find (\<lambda>d. NodeID (nj d) = ident) (Downstream sj)"

definition rejoinJobs :: "node_job \<Rightarrow> node_job list" where
  "rejoinJobs sj = List.map_filter (findDownstreamJob sj) (Rejoins (nj sj))"

text \<open>The assignment through the pointer findDownstreamJob returns: the first job with the id.\<close>

fun update_first :: "(node_job \<Rightarrow> bool) \<Rightarrow> (node_job \<Rightarrow> node_job) \<Rightarrow> node_job list \<Rightarrow> node_job list" where
  "update_first P f [] = []"
| "update_first P f (d # ds) = (if P d then f d # ds else d # update_first P f ds)"

section \<open>Singer records of an input\<close>

definition record_of :: "value \<Rightarrow> (string \<times> value) option" where
  "record_of r = (case as_obj (Some r) of None \<Rightarrow> None
     | Some rr \<Rightarrow> Some (str_or_empty (map_of rr ''stream''),
         case map_of rr ''record'' of None \<Rightarrow> VNull | Some v \<Rightarrow> v))"

definition records_of :: "value \<Rightarrow> (string \<times> value) list" where
  "records_of v = (case as_obj (Some v) of None \<Rightarrow> []
     | Some rm \<Rightarrow> (case as_arr (map_of rm ''records'') of None \<Rightarrow> []
         | Some raw \<Rightarrow> List.map_filter record_of raw))"

definition recordsFromInput :: "(string \<times> value) list \<Rightarrow> (string \<times> value) list" where
  "recordsFromInput input = (case as_obj (map_of input ''steps'') of None \<Rightarrow> []
     | Some steps \<Rightarrow> concat (map (\<lambda>p. records_of (snd p)) (AList.clearjunk steps)))"

section \<open>Backoff\<close>

definition backoffDelay :: "int \<Rightarrow> int" where
  "backoffDelay n = (let delay = 2 ^ nat (min n 5) in if delay > 30 then 30 else delay)"

section \<open>Lemmas\<close>

text \<open>An input as the runner builds them: an event and the results so far.\<close>

definition event_of :: "(string \<times> value) list \<Rightarrow> value" where
  "event_of input = (case map_of input ''event'' of None \<Rightarrow> VNull | Some v \<Rightarrow> v)"

definition steps_of :: "(string \<times> value) list \<Rightarrow> string \<Rightarrow> value option" where
  "steps_of input = (case as_obj (map_of input ''steps'') of None \<Rightarrow> Map.empty | Some m \<Rightarrow> map_of m)"

lemma event_of_threadInput [simp]: "event_of (threadInput i n r) = event_of i"
  by (simp add: threadInput_def event_of_def Let_def)

lemma steps_of_threadInput:
  "steps_of (threadInput i n r) = (if n = '''' then steps_of i else (steps_of i)(n \<mapsto> r))"
  by (auto simp: threadInput_def steps_of_def Let_def split: option.splits)

lemma nj_thread_job [simp]:
  "nj (thread_job i n r d) = (nj d)\<lparr> Input := threadInput i n r \<rparr>"
  by (simp add: thread_job_def)

lemma findDownstreamJob_Some:
  "findDownstreamJob sj ident = Some d \<Longrightarrow> d \<in> set (Downstream sj) \<and> NodeID (nj d) = ident"
  by (auto simp: findDownstreamJob_def find_Some_iff)

lemma update_first_id: "\<not> list_ex P ds \<Longrightarrow> update_first P f ds = ds"
  by (induction ds) auto

section \<open>A parked wait\<close>

text \<open>The payload of a continuation row (suspend.go); decoding the stored row may fail.\<close>

record wait_continuation =
  wc_RunID :: string
  wc_NodeID :: string
  wc_NodeName :: string
  wc_Input :: "(string \<times> value) list"
  wc_Dependents :: "string list"
  wc_Downstream :: "node_job list"

type_synonym jdb = "(node_job, wait_continuation res) db"
type_synonym jworld = "(node_job, wait_continuation res) world"
type_synonym 'a wsm = "(node_job, wait_continuation res, 'a) sm"
type_synonym jjob = "node_job hjob"

end
