(* ===== verification/Runner.thy ===== *)
theory Runner
  imports Job Dag Registry
begin

text \<open>
  The runner (internal/runner/runner.go): the tree of jobs of a run built from a Wafer, the
  start of a run, its reruns, and the cron and poll tasks.

  The code builds one \<^verbatim>\<open>*NodeJob\<close> per node and copies jobs by value into the Downstream of
  others while it still changes them, so the model keeps what the copies share: a \<^verbatim>\<open>Dependents\<close>
  slice is a length and the array it points into (the array of the job it was made for, which
  removeStr overwrites in place), and \<^verbatim>\<open>Body\<close> is a pointer, the position of a job. The jobs of
  a payload, as encoding/json writes them, come out of \<^verbatim>\<open>marshal_job\<close>.
\<close>

section \<open>Jobs under construction\<close>

record slice =
  sl_array :: nat
  sl_len :: nat

text \<open>The scalar fields of the job, its two slices of names, its copies and its body pointer.\<close>

datatype cell = Cell (c_nj: job_fields) (c_dependents: slice) (c_rejoins: slice)
  (c_downstream: "cell list") (c_body: "nat option")

text \<open>The jobs by position in the run order, and the array behind each one's Dependents.\<close>

record build =
  b_jobs :: "cell list"
  b_arrays :: "string list list"

definition slice_elems :: "build \<Rightarrow> slice \<Rightarrow> string list" where
  "slice_elems b s = take (sl_len s) (b_arrays b ! sl_array s)"

definition no_slice :: "nat \<Rightarrow> slice" where
  "no_slice i = \<lparr> sl_array = i, sl_len = 0 \<rparr>"

definition on_job :: "nat \<Rightarrow> (cell \<Rightarrow> cell) \<Rightarrow> build \<Rightarrow> build" where
  "on_job i f b = b\<lparr> b_jobs := (b_jobs b)[i := f (b_jobs b ! i)] \<rparr>"

fun set_fields :: "(job_fields \<Rightarrow> job_fields) \<Rightarrow> cell \<Rightarrow> cell" where
  "set_fields f (Cell x dp rj ds bd) = Cell (f x) dp rj ds bd"

fun set_dependents :: "slice \<Rightarrow> cell \<Rightarrow> cell" where
  "set_dependents dp' (Cell x dp rj ds bd) = Cell x dp' rj ds bd"

fun add_copy :: "cell \<Rightarrow> cell \<Rightarrow> cell" where
  "add_copy c (Cell x dp rj ds bd) = Cell x dp rj (ds @ [c]) bd"

section \<open>One job per node\<close>

definition commandFor :: "capability list \<Rightarrow> string \<Rightarrow> node \<Rightarrow> string list option res" where
  "commandFor types self s = CommandFor types self (n_type s) (n_config s)"

definition job_of_node :: "capability list \<Rightarrow> string \<Rightarrow> wafer \<Rightarrow> dag_node \<Rightarrow> job_fields res" where
  "job_of_node types self w d = (let s = w_nodes w ! dn_index d in
     rbind (commandFor types self s) (\<lambda>cmd. Inr (no_fields\<lparr> WorkflowID := w_name w, NodeID := dn_name d,
       NodeName := n_name s, NodeType := n_type s, Config := n_config s,
       Command := (case cmd of None \<Rightarrow> [] | Some argv \<Rightarrow> argv),
       Secrets := n_secrets s, DedupeKey := n_dedupe_key s \<rparr>)))"

definition fresh_build :: "job_fields list \<Rightarrow> build" where
  "fresh_build fs = \<lparr> b_jobs = map (\<lambda>(i, f). Cell f (no_slice i) (no_slice i) [] None) (enumerate 0 fs),
     b_arrays = map (\<lambda>_. []) fs \<rparr>"

text \<open>idxByName: the last position with the name; a missing key reads as zero.\<close>

definition idx_by_name :: "dag_node list \<Rightarrow> string \<Rightarrow> nat option" where
  "idx_by_name dag = map_of (rev (zip (map dn_name dag) [0..<length dag]))"

definition idx_or_0 :: "dag_node list \<Rightarrow> string \<Rightarrow> nat" where
  "idx_or_0 dag n = (case idx_by_name dag n of None \<Rightarrow> 0 | Some i \<Rightarrow> i)"

section \<open>Dependents\<close>

definition add_dependent :: "dag_node list \<Rightarrow> string \<Rightarrow> string \<Rightarrow> build \<Rightarrow> build" where
  "add_dependent dag name dep b = (case idx_by_name dag dep of
      None \<Rightarrow> b
    | Some j \<Rightarrow> (let s = c_dependents (b_jobs b ! j) in
        (on_job j (set_dependents (s\<lparr> sl_len := sl_len s + 1 \<rparr>)) b)
          \<lparr> b_arrays := (b_arrays b)[j := b_arrays b ! j @ [name]] \<rparr>))"

definition add_dependents :: "dag_node list \<Rightarrow> build \<Rightarrow> build" where
  "add_dependents dag b = fold (\<lambda>d. fold (add_dependent dag (dn_name d)) (dn_depends_on d)) dag b"

text \<open>removeStr keeps the elements in front of the same array and returns a shorter slice.\<close>

definition removeStr :: "slice \<Rightarrow> string \<Rightarrow> build \<Rightarrow> slice \<times> build" where
  "removeStr s x b = (let xs = slice_elems b s; out = filter (\<lambda>y. y \<noteq> x) xs in
     (s\<lparr> sl_len := length out \<rparr>,
      b\<lparr> b_arrays := (b_arrays b)[sl_array s := out @ drop (length out) (b_arrays b ! sl_array s)] \<rparr>))"

section \<open>Loops\<close>

fun set_body :: "nat \<Rightarrow> string \<Rightarrow> slice \<Rightarrow> cell \<Rightarrow> cell" where
  "set_body bodyIdx as rejoins (Cell x dp rj ds bd) =
     Cell (x\<lparr> BodyAs := as \<rparr>) dp rejoins ds (Some bodyIdx)"

definition carry_rejoin :: "dag_node list \<Rightarrow> nat \<Rightarrow> string \<Rightarrow> string \<Rightarrow> string \<Rightarrow> string \<Rightarrow> build \<Rightarrow> build" where
  "carry_rejoin dag fi loop body as rejoin b = (let ri = idx_or_0 dag rejoin;
       b1 = on_job ri (set_fields (\<lambda>x. x\<lparr> CollectFrom := body, CollectAs := as, CollectName := loop \<rparr>)) b
     in on_job fi (add_copy (b_jobs b1 ! ri)) b1)"

definition foreach_job :: "dag_node list \<Rightarrow> dag_node \<Rightarrow> build \<Rightarrow> build res" where
  "foreach_job dag d b =
     (if dn_type d \<noteq> ''foreach'' then Inr b
      else let fi = idx_or_0 dag (dn_name d);
               cfg = Config (c_nj (b_jobs b ! fi));
               bodyName = str_or_empty (map_of cfg ''body'') in
        (case idx_by_name dag bodyName of
          None \<Rightarrow> Inl (errorf (''run: foreach '' @ quote (dn_name d) @ '' has unknown body '' @ quote bodyName))
        | Some bodyIdx \<Rightarrow>
           let (dp, b1) = removeStr (c_dependents (b_jobs b ! fi)) bodyName b;
               b2 = on_job fi (set_dependents dp) b1;
               as = str_or_empty (map_of cfg ''as'');
               as = (if as = '''' then ''item'' else as);
               rejoins = c_dependents (b_jobs b2 ! bodyIdx);
               b3 = on_job fi (set_body bodyIdx as rejoins) b2
           in Inr (fold (carry_rejoin dag fi (dn_name d) bodyName as) (slice_elems b3 rejoins) b3)))"

fun foreach_jobs :: "dag_node list \<Rightarrow> dag_node list \<Rightarrow> build \<Rightarrow> build res" where
  "foreach_jobs dag [] b = Inr b"
| "foreach_jobs dag (d # ds) b = rbind (foreach_job dag d b) (foreach_jobs dag ds)"

section \<open>Downstream, in reverse run order\<close>

definition link_job :: "dag_node list \<Rightarrow> nat \<Rightarrow> build \<Rightarrow> build" where
  "link_job dag j b = fold (\<lambda>dep b. on_job j (add_copy (b_jobs b ! idx_or_0 dag dep)) b)
     (slice_elems b (c_dependents (b_jobs b ! j))) b"

definition link_jobs :: "dag_node list \<Rightarrow> build \<Rightarrow> build" where
  "link_jobs dag b = fold (link_job dag) (rev [0..<length (b_jobs b)]) b"

section \<open>FromWafer\<close>

definition head_index :: "dag_node list \<Rightarrow> nat" where
  "head_index dag = (case List.find (\<lambda>i. dn_depends_on (dag ! i) = []) [0..<length dag] of
      None \<Rightarrow> 0 | Some i \<Rightarrow> i)"

definition event_value :: "(string \<times> value) list option \<Rightarrow> value" where
  "event_value e = (case e of None \<Rightarrow> VNull | Some m \<Rightarrow> VObj m)"

definition initial_input :: "(string \<times> value) list option \<Rightarrow> (string \<times> value) list" where
  "initial_input e = [(''event'', event_value e), (''steps'', VObj [])]"

definition unresolved :: "wafer \<Rightarrow> issue list \<Rightarrow> err" where
  "unresolved w issues = errorf (''run: workflow '' @ quote (w_name w) @ '' does not resolve: ['' @
     join_with '' '' (map (\<lambda>i. ''{'' @ join_with '' '' [i_path i, i_code i, i_message i, i_expected i, i_suggestion i] @ ''}'')
       issues) @ '']'')"

text \<open>A job pointer is the jobs and a position; nil for a workflow without nodes.\<close>

definition FromWafer :: "capability list \<Rightarrow> string \<Rightarrow> wafer \<Rightarrow> (string \<times> value) list option
    \<Rightarrow> (build \<times> nat) option res" where
  "FromWafer types self w event = (case ResolveDAG w of (dag, issues) \<Rightarrow>
     if issues \<noteq> [] then Inl (unresolved w issues)
     else if dag = [] then Inr None
     else rbind (rmap (job_of_node types self w) dag) (\<lambda>fs.
          rbind (foreach_jobs dag dag (add_dependents dag (fresh_build fs))) (\<lambda>b.
          let h = head_index dag in
          Inr (Some (on_job h (set_fields (\<lambda>x. x\<lparr> Input := initial_input event \<rparr>)) (link_jobs dag b), h)))))"

section \<open>The run id\<close>

text \<open>
  assignRunID walks the Downstream of the head and not its Body pointers; a body template's run
  id is whatever an array it shares with the head's tree gives it, and the worker assigns it
  before it enqueues the body. The model leaves it empty.
\<close>

fun assign_run :: "string \<Rightarrow> cell \<Rightarrow> cell" where
  "assign_run run (Cell x dp rj ds bd) =
     Cell (x\<lparr> RunID := run \<rparr>) dp rj (map (assign_run run) ds) bd"

section \<open>The encoded payload\<close>

text \<open>
  encoding/json follows the pointers, and fails on a value it cannot encode or on a chain of
  pointers that comes back to itself. A chain longer than the number of jobs does.
\<close>

function marshal_job :: "build \<Rightarrow> nat \<Rightarrow> cell \<Rightarrow> node_job res"
  and marshal_jobs :: "build \<Rightarrow> nat \<Rightarrow> cell list \<Rightarrow> node_job list res" where
  "marshal_job b fuel (Cell x dp rj ds bd) =
     rbind (json_marshal (VObj (Config x))) (\<lambda>_.
     rbind (json_marshal (VObj (Input x))) (\<lambda>_.
     rbind (marshal_jobs b fuel ds) (\<lambda>ds'.
     rbind (case bd of
         None \<Rightarrow> Inr None
       | Some i \<Rightarrow> (case fuel of
           0 \<Rightarrow> Inl (errorf ''json: unsupported value: encountered a cycle via *worker.NodeJob'')
         | Suc n \<Rightarrow> rbind (marshal_job b n (b_jobs b ! i)) (\<lambda>j. Inr (Some j)))) (\<lambda>body.
     Inr (NodeJob (x\<lparr> Dependents := slice_elems b dp, Rejoins := slice_elems b rj \<rparr>) ds' body)))))"
| "marshal_jobs b fuel [] = Inr []"
| "marshal_jobs b fuel (c # cs) =
     rbind (marshal_job b fuel c) (\<lambda>j. rbind (marshal_jobs b fuel cs) (\<lambda>js. Inr (j # js)))"
  by pat_completeness auto
termination
  by (relation "measures [\<lambda>x. case x of Inl (_, n, _) \<Rightarrow> n | Inr (_, n, _) \<Rightarrow> n,
      \<lambda>x. case x of Inl (_, _, c) \<Rightarrow> size c | Inr (_, _, cs) \<Rightarrow> size_list size cs]") auto

definition payload_of :: "build \<times> nat \<Rightarrow> string \<Rightarrow> node_job res" where
  "payload_of p runID = (case p of (b, h) \<Rightarrow>
     let b' = on_job h (assign_run runID) b in marshal_job b' (length (b_jobs b')) (b_jobs b' ! h))"

section \<open>Starting a run\<close>

definition initDeps :: "wafer \<Rightarrow> string \<Rightarrow> unit wsm" where
  "initDeps w runID = (case ResolveDAG w of (dag, issues) \<Rightarrow>
     if issues \<noteq> [] then throw (unresolved w issues)
     else InitRunDeps (NewRunDeps runID
       (\<lambda>n. case map_of (rev (map (\<lambda>d. (dn_name d, int (length (dn_depends_on d)))) dag)) n of
            None \<Rightarrow> 0 | Some k \<Rightarrow> k)
       (map dn_name dag)))"

definition StartRun :: "capability list \<Rightarrow> string \<Rightarrow> string \<Rightarrow> wafer \<Rightarrow> (string \<times> value) list option
    \<Rightarrow> string \<Rightarrow> string wsm" where
  "StartRun types self queue w event runID =
     bind (of_res (FromWafer types self w event)) (\<lambda>head. case head of
        None \<Rightarrow> ret ''''
      | Some p \<Rightarrow>
         seq (CreateRun runID (w_name w))
        (seq (initDeps w runID)
        (seq (wrapping ''run: enqueue head node: ''
               (bind (of_res (payload_of p runID)) (\<lambda>j. queue_Enqueue queue j)))
         (ret runID))))"

section \<open>Reruns\<close>

text \<open>The saved payload is the encoding of a NodeJob, so decoding gives it back.\<close>

definition rerunContinue :: "string \<Rightarrow> node_job failed_continuation \<Rightarrow> unit wsm" where
  "rerunContinue queue cont = WithTx (
     seq (SetRunStatusTx (fl_run cont) RunRunning)
    (seq (exec_sql (\<lambda>d. d\<lparr> db_runs := modify_row (fl_run cont) (\<lambda>r. r\<lparr> rr_pending := 1 \<rparr>) (db_runs d) \<rparr>))
     (Tx_Enqueue queue (fl_payload cont))))"

definition rerunRestart :: "capability list \<Rightarrow> string \<Rightarrow> (string \<Rightarrow> (string \<times> value) list res) \<Rightarrow> string
    \<Rightarrow> node_job failed_continuation \<Rightarrow> unit wsm" where
  "rerunRestart types self unmarshal queue cont = (let pre = ''rerun: restart '' @ fl_run cont @ '': '' in
     bind (wrapping pre (GetWorkflow (fl_workflow cont))) (\<lambda>wf. case wf of
        None \<Rightarrow> throw (errorf (pre @ ''workflow '' @ quote (fl_workflow cont) @ '' is not registered''))
      | Some row \<Rightarrow>
         bind (wrapping (pre @ ''parse workflow: '') (of_res (Parse unmarshal (wf_wafer row)))) (\<lambda>w.
         seq (wrapping pre (StartRun types self queue w (fl_event cont) (fl_run cont))) (ret ()))))"

definition Rerun :: "capability list \<Rightarrow> string \<Rightarrow> (string \<Rightarrow> (string \<times> value) list res) \<Rightarrow> string
    \<Rightarrow> string \<Rightarrow> string \<Rightarrow> unit wsm" where
  "Rerun types self unmarshal queue runID mode =
     bind (GetFailedContinuation runID) (\<lambda>found. case found of
        None \<Rightarrow> throw (errorf (''rerun: run '' @ runID @
          '' has no saved continuation (it did not fail, or it was already rerun or discarded)''))
      | Some cont \<Rightarrow>
         if mode = ''continue'' then rerunContinue queue cont
         else if mode = ''restart'' then rerunRestart types self unmarshal queue cont
         else if mode = ''discard'' then WithTx (DeleteFailedContinuation runID)
         else throw (errorf (''rerun: unknown mode '' @ quote mode)))"

section \<open>Scheduled tasks\<close>

record cron_task =
  ct_Name :: string
  ct_Schedule :: string
  ct_RunID :: string
  ct_Event :: "(string \<times> value) list option"

definition RegisterCron :: "capability list \<Rightarrow> string \<Rightarrow> string \<Rightarrow> wafer \<Rightarrow> cron_task \<Rightarrow> unit wsm" where
  "RegisterCron types self queue w task =
     bind (of_res (FromWafer types self w (ct_Event task))) (\<lambda>head. case head of
        None \<Rightarrow> ret ()
      | Some p \<Rightarrow>
         seq (initDeps w (ct_RunID task))
         (wrapping (''cron: register '' @ ct_Name task @ '': '')
           (bind (of_res (payload_of p (ct_RunID task))) (\<lambda>j.
            RegisterScheduledTask (ct_Name task) queue (ct_Schedule task) j))))"

record poll_task =
  pt_Name :: string
  pt_Schedule :: string
  pt_WorkflowID :: string
  pt_Kind :: string
  pt_Command :: "string list"
  pt_Secrets :: "string list"
  pt_Config :: "(string \<times> value) list"

definition poll_job :: "poll_task \<Rightarrow> node_job" where
  "poll_job task = NodeJob (no_fields\<lparr> WorkflowID := pt_WorkflowID task, NodeID := ''poll'', NodeName := ''poll'',
     NodeType := ''poll'', Config := [(''kind'', VStr (pt_Kind task))], Command := pt_Command task,
     Secrets := pt_Secrets task, Input := pt_Config task \<rparr>) [] None"

definition RegisterPoll :: "string \<Rightarrow> poll_task \<Rightarrow> unit wsm" where
  "RegisterPoll queue task =
     (if pt_Command task = [] then throw (errorf (''poll: '' @ pt_Name task @ '' has no command''))
      else wrapping (''poll: register '' @ pt_Name task @ '': '')
        (bind (of_res (json_marshal (VObj (pt_Config task)))) (\<lambda>_.
         RegisterScheduledTask (pt_Name task) queue (pt_Schedule task) (poll_job task))))"

end
