(* ===== verification/Singer.thy ===== *)
theory Singer
  imports Exec
begin

text \<open>
  The Singer harness (internal/components/singer): the request and result of a tap and of a
  target run, the flags and files a run is given, the loop over a tap's output lines and the
  encoding of a target's input. The operating system (temporary directory, file writes,
  starting and running a process) and the decoder of one output line are parameters.
\<close>

section \<open>Requests and results\<close>

type_synonym singer_record = "string \<times> value"   \<comment> \<open>Stream, Record\<close>

record tap_request =
  tq_command :: "string list"
  tq_env :: "string list"
  tq_config :: "value"
  tq_catalog :: "value"
  tq_state :: "value"

record tap_result =
  tp_records :: "singer_record list"
  tp_streams :: "string list"
  tp_state :: "value"

record target_request =
  gq_command :: "string list"
  gq_env :: "string list"
  gq_config :: "value"
  gq_records :: "singer_record list"

record target_result =
  gt_consumed :: int
  gt_output :: string

record message =
  mg_type :: string
  mg_stream :: string
  mg_record :: "value res"     \<comment> \<open>json.Unmarshal of the raw record\<close>
  mg_value :: "value res"

record singer_os =
  so_tempdir :: "string res"
  so_write :: "string \<Rightarrow> string \<Rightarrow> err option"
  so_start :: "string list \<Rightarrow> string list \<Rightarrow> err option"
  so_run :: "string list \<Rightarrow> string list \<Rightarrow> (string \<times> string) list \<Rightarrow> string \<Rightarrow> proc_outcome"

section \<open>Files and flags\<close>

text \<open>The path and what was written there.\<close>

definition writeJSONFile :: "singer_os \<Rightarrow> string \<Rightarrow> string \<Rightarrow> value \<Rightarrow> (string \<times> string) res" where
  "writeJSONFile os dir name v =
     rbind (map_err (wrap ''marshal: '') (json_marshal v)) (\<lambda>data.
     let path = dir @ ''/'' @ name in
     case so_write os path data of Some e \<Rightarrow> Inl e | None \<Rightarrow> Inr (path, data))"

text \<open>An optional file (\<^verbatim>\<open>nil\<close> writes none): its flag and the file.\<close>

definition flag_file :: "singer_os \<Rightarrow> string \<Rightarrow> string \<Rightarrow> string \<Rightarrow> string \<Rightarrow> value
    \<Rightarrow> (string list \<times> (string \<times> string) list) res" where
  "flag_file os dir name flag pre v =
     map_err (wrap pre) (rbind (writeJSONFile os dir name v) (\<lambda>(path, data).
       Inr ([flag, path], [(path, data)])))"

definition tap_args :: "singer_os \<Rightarrow> string \<Rightarrow> tap_request \<Rightarrow> (string list \<times> (string \<times> string) list) res" where
  "tap_args os tmp req =
     rbind (flag_file os tmp ''config.json'' ''--config'' ''singer: tap: config: '' (tq_config req)) (\<lambda>(a1, f1).
     rbind (if tq_state req = VNull then Inr ([], [])
            else flag_file os tmp ''state.json'' ''--state'' ''singer: tap: state: '' (tq_state req)) (\<lambda>(a2, f2).
     rbind (if tq_catalog req = VNull then Inr ([], [])
            else flag_file os tmp ''catalog.json'' ''--catalog'' ''singer: tap: catalog: '' (tq_catalog req)) (\<lambda>(a3, f3).
     Inr (tq_command req @ a1 @ a2 @ a3, f1 @ f2 @ f3))))"

section \<open>The tap\<close>

text \<open>bufio.Scanner: the lines of the output, up to the first too long for its buffer.\<close>

definition max_token :: int where "max_token = 65536"

fun lines_of :: "string \<Rightarrow> string \<Rightarrow> string list" where
  "lines_of acc [] = (if acc = [] then [] else [rev acc])"
| "lines_of acc (c # s) = (if c = CHR 0x0A then rev acc # lines_of [] s else lines_of (c # acc) s)"

definition scan :: "string \<Rightarrow> string list \<times> bool" where
  "scan out = (let ls = lines_of [] out in
     (takeWhile (\<lambda>l. int (length l) < max_token) ls, list_all (\<lambda>l. int (length l) < max_token) ls))"

text \<open>One line of the protocol.\<close>

definition tap_message :: "message \<Rightarrow> tap_result \<Rightarrow> tap_result" where
  "tap_message m out =
     (if mg_type m = ''RECORD'' then out\<lparr> tp_records := tp_records out @
        [(mg_stream m, case mg_record m of Inl _ \<Rightarrow> VNull | Inr v \<Rightarrow> v)] \<rparr>
      else if mg_type m = ''STATE'' then (case mg_value m of Inl _ \<Rightarrow> out | Inr v \<Rightarrow> out\<lparr> tp_state := v \<rparr>)
      else if mg_type m = ''SCHEMA'' then
        (if mg_stream m \<in> set (tp_streams out) then out
         else out\<lparr> tp_streams := tp_streams out @ [mg_stream m] \<rparr>)
      else out)"

definition tap_line :: "(string \<Rightarrow> message res) \<Rightarrow> string \<Rightarrow> tap_result \<Rightarrow> tap_result" where
  "tap_line decode raw out = (let line = trim_space raw in
     if line = [] then out
     else case decode line of Inl _ \<Rightarrow> out | Inr m \<Rightarrow> tap_message m out)"

definition no_output :: tap_result where
  "no_output = \<lparr> tp_records = [], tp_streams = [], tp_state = VNull \<rparr>"

definition RunTap :: "singer_os \<Rightarrow> (string \<Rightarrow> message res) \<Rightarrow> tap_request \<Rightarrow> tap_result res" where
  "RunTap os decode req =
     (if tq_command req = [] then Inl (errorf ''singer: tap: empty command'')
      else rbind (map_err (wrap ''singer: tap: temp dir: '') (so_tempdir os)) (\<lambda>tmp.
       rbind (tap_args os tmp req) (\<lambda>(argv, files).
       case so_start os argv (tq_env req) of
         Some e \<Rightarrow> Inl (wrap (''singer: tap: start '' @ hd (tq_command req) @ '': '') e)
       | None \<Rightarrow> (let p = so_run os argv (tq_env req) files '''';
                     (ls, ok) = scan (pr_stdout p);
                     out = fold (tap_line decode) ls no_output in
           if \<not> ok then Inl (errorf ''singer: tap: read stdout: bufio.Scanner: token too long'')
           else case pr_error p of
             Some e \<Rightarrow> Inl (Err (err_kind e) (''singer: tap: failed: '' @ err_msg e @ '': '' @ pr_stderr p))
           | None \<Rightarrow> Inr out))))"

section \<open>The target\<close>

definition record_object :: "singer_record \<Rightarrow> value" where
  "record_object r = VObj [(''type'', VStr ''RECORD''), (''stream'', VStr (fst r)), (''record'', snd r)]"

definition encode_records :: "singer_record list \<Rightarrow> string res" where
  "encode_records rs =
     rbind (rmap (\<lambda>r. map_err (wrap ''singer: target: encode record: '') (json_marshal (record_object r))) rs) (\<lambda>ls.
     Inr (concat (map (\<lambda>l. l @ [CHR 0x0A]) ls)))"

definition RunTarget :: "singer_os \<Rightarrow> target_request \<Rightarrow> target_result res" where
  "RunTarget os req =
     (if gq_command req = [] then Inl (errorf ''singer: target: empty command'')
      else rbind (map_err (wrap ''singer: target: temp dir: '') (so_tempdir os)) (\<lambda>tmp.
       rbind (flag_file os tmp ''config.json'' ''--config'' ''singer: target: config: '' (gq_config req)) (\<lambda>(args, files).
       rbind (encode_records (gq_records req)) (\<lambda>input.
       let argv = gq_command req @ args;
           p = so_run os argv (gq_env req) files input in
       case pr_error p of
         Some e \<Rightarrow> Inl (Err (err_kind e) (''singer: target: failed: '' @ err_msg e @ '': '' @ pr_stderr p))
       | None \<Rightarrow> Inr \<lparr> gt_consumed = int (length (gq_records req)), gt_output = pr_stdout p \<rparr>))))"

end
