(* ===== verification/Mcp.thy ===== *)
theory Mcp
  imports Exec
begin

text \<open>
  The MCP harness (internal/components/mcp): one tool of one server called over JSON-RPC,
  with the two protocol variants, over a subprocess's standard input and output (mcp.go) or
  over HTTP (http.go). The server (its answers, given everything sent so far) and the
  decoders are parameters.
\<close>

section \<open>Requests and results\<close>

abbreviation "ModeStateless \<equiv> ''stateless''"
abbreviation "ModeClassic \<equiv> ''classic''"

type_synonym object = "(string \<times> value) list"

record tool =
  to_name :: string
  to_description :: string
  to_input_schema :: object

record server_request =
  sv_command :: "string list"
  sv_env :: "string list"
  sv_mode :: string

record discovery =
  di_mode :: string
  di_tools :: "tool list"

record call_request =
  ca_server :: server_request
  ca_tool :: string
  ca_input :: "object option"

record call_result =
  cs_content :: string
  cs_data :: "object list"
  cs_is_error :: bool

record http_connector =
  hc_url :: string
  hc_headers :: "(string \<times> string) list"

record structured_error =
  se_path :: string
  se_code :: string
  se_message :: string
  se_suggestion :: string

section \<open>Results\<close>

definition text_block :: "object \<Rightarrow> string option" where
  "text_block b = (case as_str (map_of b ''type'') of
      Some t \<Rightarrow> if t = ''text'' then as_str (map_of b ''text'') else None
    | None \<Rightarrow> None)"

definition textFromContent :: "object list \<Rightarrow> string" where
  "textFromContent blocks = join_with [CHR 0x0A] (List.map_filter text_block blocks)"

definition AsStructuredError :: "string \<Rightarrow> call_result \<Rightarrow> structured_error" where
  "AsStructuredError tool res = (let msg = trim_space (cs_content res) in
     \<lparr> se_path = ''/tool'', se_code = ''mcp_tool_error'',
       se_message = (if msg = '''' then ''mcp tool '' @ quote tool @ '' reported an error'' else msg),
       se_suggestion = ''check the tool arguments and the server'' @ [CHR 0x27] @ ''s error output'' \<rparr>)"

end
