(* ===== verification/Worker.thy ===== *)
theory Worker
  imports Job Registry Secrets Singer Mcp
begin

text \<open>
  The node-execution worker (internal/worker/worker.go): the environment and the harness a
  node runs with, the completion and failure paths, and the handlers of ordinary nodes,
  skipped branches, switches, loops and polls. The subprocesses a worker starts are logged in
  the world, so that a property can say that none was started. A claim is never nil here: the
  loop only calls the handlers with the job it claimed.
\<close>

section \<open>Worker\<close>

text \<open>
  The fields of Worker, followed by what it uses of its process: the registered node types, the
  path of its own binary, the environment, the JSONata evaluator, fmt's rendering of a value
  JSON cannot encode, and the two parsers of package time (seconds). A subprocess's answer may
  depend on the ones that ran before.
\<close>

record worker =
  wk_queue :: string
  wk_resolver :: resolver
  wk_secretRetries :: int
  wk_maxAttempts :: int
  wk_runner :: "exec_request list \<Rightarrow> exec_request \<Rightarrow> value res"
  wk_tap :: "tap_request \<Rightarrow> tap_result res"
  wk_target :: "target_request \<Rightarrow> target_result res"
  wk_mcp :: "call_request \<Rightarrow> call_result res"
  wk_connectors :: "(string, http_connector) table"
  wk_onDone :: "(string \<Rightarrow> string \<Rightarrow> unit wsm) option"
  wk_onFailed :: "(string \<Rightarrow> string \<Rightarrow> unit wsm) option"
  wk_onPoll :: "(string \<Rightarrow> string \<Rightarrow> value list \<Rightarrow> unit wsm) option"
  wk_onRerun :: "(string \<Rightarrow> string \<Rightarrow> unit wsm) option"
  wk_types :: "capability list"
  wk_self :: string
  wk_getenv :: "string \<Rightarrow> string"
  wk_eval :: "string \<Rightarrow> value \<Rightarrow> value res"
  wk_render :: "value \<Rightarrow> string"
  wk_duration :: "string \<Rightarrow> int res"
  wk_rfc3339 :: "string \<Rightarrow> int res"
  wk_call_result :: "value \<Rightarrow> call_result"

text \<open>The defaults of the two retry bounds; the others are the process's own.\<close>

definition New :: "worker \<Rightarrow> worker" where
  "New cfg = cfg\<lparr>
     wk_secretRetries := (if wk_secretRetries cfg = 0 then 3 else wk_secretRetries cfg),
     wk_maxAttempts := (if wk_maxAttempts cfg = 0 then 3 else wk_maxAttempts cfg) \<rparr>"

section \<open>Control flow\<close>

text \<open>\<^verbatim>\<open>if err := m; err != nil { h } else { k }\<close>, and a callback that may be nil.\<close>

definition try_or :: "'a wsm \<Rightarrow> (err \<Rightarrow> 'b wsm) \<Rightarrow> ('a \<Rightarrow> 'b wsm) \<Rightarrow> 'b wsm" where
  "try_or m h k = bind (attempt m) (\<lambda>r. case r of Inl e \<Rightarrow> h e | Inr a \<Rightarrow> k a)"

definition notify :: "(string \<Rightarrow> string \<Rightarrow> unit wsm) option \<Rightarrow> string \<Rightarrow> string \<Rightarrow> unit wsm" where
  "notify f a b = (case f of None \<Rightarrow> ret () | Some g \<Rightarrow> ignore (g a b))"

section \<open>The environment of a node\<close>

definition nodeEnv :: "worker \<Rightarrow> string \<Rightarrow> string list \<Rightarrow> string list res \<times> string list" where
  "nodeEnv w nodeName names = (case Resolve (wk_resolver w) nodeName names of
      (Inl e, missing) \<Rightarrow> (Inl e, missing)
    | (Inr vals, missing) \<Rightarrow> (Inr (fst (FilteredEnv (wk_getenv w) vals names)), missing))"

text \<open>The same with a missing secret as the error every caller makes of it.\<close>

definition declared_env :: "worker \<Rightarrow> node_job \<Rightarrow> string list res" where
  "declared_env w sj = (case nodeEnv w (NodeName (nj sj)) (Secrets (nj sj)) of
      (Inl e, _) \<Rightarrow> Inl e
    | (Inr env, missing) \<Rightarrow> if missing \<noteq> [] then Inl (Err KMissing (''secret missing: '' @ join_with '', '' missing))
        else Inr env)"

definition run_process :: "worker \<Rightarrow> exec_request \<Rightarrow> value wsm" where
  "run_process w req = (\<lambda>s. (wk_runner w (w_execs s) req, s\<lparr> w_execs := w_execs s @ [req] \<rparr>))"

section \<open>Dedupe keys\<close>

definition resolveDedupeKey :: "worker \<Rightarrow> node_job \<Rightarrow> string res" where
  "resolveDedupeKey w sj =
     (if DedupeKey (nj sj) = '''' then Inr ''''
      else rbind (map_err (wrap ''dedupe_key expression: '') (wk_eval w (DedupeKey (nj sj)) (VObj (Input (nj sj)))))
        (\<lambda>out. Inr (dedupeString (wk_render w) out)))"

section \<open>Completion and failure\<close>

definition checkRunComplete :: "worker \<Rightarrow> node_job \<Rightarrow> unit wsm" where
  "checkRunComplete w sj =
     bind (RunPending (RunID (nj sj))) (\<lambda>pending.
     if pending = 0 then
       bind (RunStatus (RunID (nj sj))) (\<lambda>status.
       if status = RunWaiting then ret ()
       else seq (SetRunStatus (RunID (nj sj)) RunCompleted)
              (notify (wk_onDone w) (WorkflowID (nj sj)) (RunID (nj sj))))
     else ret ())"

definition resolveRunFailed :: "worker \<Rightarrow> node_job \<Rightarrow> unit wsm" where
  "resolveRunFailed w sj =
     try_or (SetRunStatus (RunID (nj sj)) RunFailed) (\<lambda>_. ret ())
       (\<lambda>_. notify (wk_onFailed w) (WorkflowID (nj sj)) (RunID (nj sj)))"

definition saveFailedContinuation :: "node_job \<Rightarrow> unit wsm" where
  "saveFailedContinuation sj =
     ignore (WithTx (WriteFailedContinuation \<lparr> fl_run = RunID (nj sj), fl_workflow = WorkflowID (nj sj),
       fl_event = as_obj (map_of (Input (nj sj)) ''event''), fl_payload = sj \<rparr>))"

definition failed_dedupe :: "worker \<Rightarrow> node_job \<Rightarrow> value \<Rightarrow> dedupe_record option" where
  "failed_dedupe w sj result =
     (if DedupeKey (nj sj) = '''' then None
      else case resolveDedupeKey w sj of Inl _ \<Rightarrow> None
      | Inr key \<Rightarrow> if key = '''' then None else Some \<lparr> dr_workflow = WorkflowID (nj sj),
          dr_node = NodeName (nj sj), dr_key = key, dr_succeeded = False, dr_value = result \<rparr>)"

definition commitFailed :: "worker \<Rightarrow> node_job \<Rightarrow> value \<Rightarrow> unit wsm" where
  "commitFailed w sj result = ignore (CommitNodeAtom \<lparr> na_run = RunID (nj sj), na_node = NodeID (nj sj),
     na_result = result, na_dedupe = failed_dedupe w sj result, na_dependents = [], na_downstream = [],
     na_job = None, na_singer = None \<rparr>)"

definition failure_code :: "err \<Rightarrow> string" where
  "failure_code cause = (case err_kind cause of
      KMissing \<Rightarrow> ''missing_secret''
    | KUnreachable \<Rightarrow> ''secret_source_unreachable''
    | KStale \<Rightarrow> ''secret_auth_failed''
    | _ \<Rightarrow> '''')"

definition dead_letter :: "worker \<Rightarrow> node_job \<Rightarrow> jjob \<Rightarrow> string \<Rightarrow> unit wsm" where
  "dead_letter w sj claimed msg =
     seq (saveFailedContinuation sj)
    (seq (ignore (job_Fail claimed msg)) (resolveRunFailed w sj))"

definition failure_result :: "err \<Rightarrow> value" where
  "failure_result cause =
     (if failure_code cause \<noteq> '''' then
        VObj [(''ok'', VBool False), (''code'', VStr (failure_code cause)), (''error'', VStr (err_msg cause))]
      else VObj [(''ok'', VBool False), (''error'', VStr (err_msg cause))])"

definition recordFailure :: "worker \<Rightarrow> node_job \<Rightarrow> jjob \<Rightarrow> err \<Rightarrow> unit wsm" where
  "recordFailure w sj claimed cause =
     seq (commitFailed w sj (failure_result cause))
     (if failure_code cause \<noteq> '''' then
        (if failure_code cause = ''missing_secret'' \<or> j_attempts claimed \<ge> wk_secretRetries w
         then dead_letter w sj claimed (err_msg cause)
         else if failure_code cause = ''secret_source_unreachable''
         then ignore (job_Retry claimed (backoffDelay (j_attempts claimed)) (err_msg cause))
         else ignore (job_Retry claimed 0 (err_msg cause)))
      else if j_attempts claimed \<ge> wk_maxAttempts w then dead_letter w sj claimed (err_msg cause)
      else ignore (job_Retry claimed 0 (err_msg cause)))"

text \<open>\<^verbatim>\<open>w.recordFailure(sj, claimed, err); return fmt.Errorf("...: %w", err)\<close>.\<close>

definition fail_with :: "worker \<Rightarrow> node_job \<Rightarrow> jjob \<Rightarrow> string \<Rightarrow> err \<Rightarrow> 'a wsm" where
  "fail_with w sj claimed pre e = seq (recordFailure w sj claimed e) (throw (wrap pre e))"

definition job_tag :: "node_job \<Rightarrow> jjob \<Rightarrow> string" where
  "job_tag sj claimed = NodeID (nj sj) @ '' (job '' @ itoa (j_id claimed) @ ''): ''"

text \<open>The atom of a node that completes with a result threaded to its successors.\<close>

definition done_atom :: "worker \<Rightarrow> node_job \<Rightarrow> jjob \<Rightarrow> value \<Rightarrow> node_job node_atom" where
  "done_atom w sj claimed result = \<lparr> na_run = RunID (nj sj), na_node = NodeID (nj sj), na_result = result,
     na_dedupe = None, na_dependents = Dependents (nj sj),
     na_downstream = map (\<lambda>d. \<lparr> ds_queue = wk_queue w,
        ds_payload = thread_job (Input (nj sj)) (NodeName (nj sj)) result d \<rparr>) (Downstream sj),
     na_job = Some claimed, na_singer = None \<rparr>"

end
