(* ===== verification/Handlers.thy ===== *)
theory Handlers
  imports Worker
begin

text \<open>
  Running one node (the plain, Singer and MCP harnesses) and the worker's handlers of ordinary
  nodes, skipped branches, switches, loops and polls (internal/worker/worker.go).
\<close>

section \<open>Harnesses\<close>

text \<open>A result: the value, whether the node ran, and the bookmark to commit.\<close>

type_synonym outcome = "value \<times> bool \<times> singer_state option"

definition no_command :: "node_job \<Rightarrow> err" where
  "no_command sj = errorf (''node type '' @ quote (NodeType (nj sj)) @ '' has no command to run'')"

definition run_tap :: "worker \<Rightarrow> tap_request \<Rightarrow> tap_result wsm" where
  "run_tap w req = seq (log_exec \<lparr> ex_command = tq_command req, ex_env = tq_env req, ex_input = tq_config req \<rparr>)
     (of_res (wk_tap w req))"

definition run_target :: "worker \<Rightarrow> target_request \<Rightarrow> target_result wsm" where
  "run_target w req = seq (log_exec \<lparr> ex_command = gq_command req, ex_env = gq_env req, ex_input = gq_config req \<rparr>)
     (of_res (wk_target w req))"

definition call_mcp :: "worker \<Rightarrow> call_request \<Rightarrow> call_result wsm" where
  "call_mcp w req = seq (log_exec \<lparr> ex_command = sv_command (ca_server req), ex_env = sv_env (ca_server req),
       ex_input = VStr (ca_tool req) \<rparr>) (of_res (wk_mcp w req))"

text \<open>A nil map is the JSON null.\<close>

definition obj_or_null :: "(string \<times> value) list option \<Rightarrow> value" where
  "obj_or_null m = (case m of None \<Rightarrow> VNull | Some kvs \<Rightarrow> VObj kvs)"

definition or_null :: "value option \<Rightarrow> value" where
  "or_null v = (case v of None \<Rightarrow> VNull | Some x \<Rightarrow> x)"

definition record_value :: "singer_record \<Rightarrow> value" where
  "record_value r = VObj [(''stream'', VStr (fst r)), (''record'', snd r)]"

definition runSingerNode :: "worker \<Rightarrow> node_job \<Rightarrow> outcome wsm" where
  "runSingerNode w sj =
     (if Command (nj sj) = [] then throw (no_command sj)
      else bind (of_res (declared_env w sj)) (\<lambda>env.
       let cfg = as_obj (map_of (Config (nj sj)) ''config'') in
       if NodeType (nj sj) = ''singer-tap'' then
         bind (GetSingerState (WorkflowID (nj sj)) (NodeName (nj sj))) (\<lambda>prior.
         bind (run_tap w \<lparr> tq_command = Command (nj sj), tq_env = env, tq_config = obj_or_null cfg,
             tq_catalog = or_null (map_of (Config (nj sj)) ''catalog''), tq_state = prior \<rparr>) (\<lambda>res.
         ret (VObj [(''records'', VArr (map record_value (tp_records res))),
                    (''streams'', VArr (map VStr (tp_streams res))), (''state'', tp_state res)], True,
              Some \<lparr> ss_workflow = WorkflowID (nj sj), ss_node = NodeName (nj sj), ss_state = tp_state res \<rparr>)))
       else if NodeType (nj sj) = ''singer-target'' then
         bind (run_target w \<lparr> gq_command = Command (nj sj), gq_env = env, gq_config = obj_or_null cfg,
             gq_records = recordsFromInput (Input (nj sj)) \<rparr>) (\<lambda>res.
         ret (VObj [(''consumed'', VInt (gt_consumed res)), (''output'', VStr (gt_output res))], True, None))
       else throw (errorf (''node type '' @ quote (NodeType (nj sj)) @ '' is not a singer node''))))"

text \<open>A tool's result, or its error in Servitor's structured format.\<close>

definition mcp_value :: "string \<Rightarrow> call_result \<Rightarrow> value" where
  "mcp_value tool res =
     (if cs_is_error res then (let se = AsStructuredError tool res in
        VObj [(''ok'', VBool False), (''path'', VStr (se_path se)), (''code'', VStr (se_code se)),
              (''message'', VStr (se_message se)), (''suggestion'', VStr (se_suggestion se))])
      else VObj [(''ok'', VBool True), (''content'', VStr (cs_content res)), (''data'', VArr (map VObj (cs_data res)))])"

definition no_tool :: err where
  "no_tool = errorf ''node type requires a `tool` name''"

definition runMCPHTTPNode :: "worker \<Rightarrow> node_job \<Rightarrow> outcome wsm" where
  "runMCPHTTPNode w sj =
     (let server = str_or_empty (map_of (Config (nj sj)) ''server'');
          tool = str_or_empty (map_of (Config (nj sj)) ''tool'');
          input = as_obj (map_of (Config (nj sj)) ''input'');
          mode = str_or_empty (map_of (Config (nj sj)) ''mode'');
          none = errorf (''mcp-http: no URL connector declared for server '' @ quote server) in
      if server = '''' then throw (errorf ''node type mcp-http requires a `server` name'')
      else case select server (wk_connectors w) of
        None \<Rightarrow> throw none
      | Some conn \<Rightarrow>
         if hc_url conn = '''' then throw none
         else if tool = '''' then throw no_tool
         else bind (of_res (declared_env w sj)) (\<lambda>env.
              bind (run_process w \<lparr> ex_command = [wk_self w, ''__mcp_http''], ex_env = env,
                  ex_input = VObj [(''url'', VStr (hc_url conn)),
                    (''headers'', VObj (map (\<lambda>(k, v). (k, VStr v)) (hc_headers conn))),
                    (''tool'', VStr tool), (''input'', obj_or_null input), (''mode'', VStr mode)] \<rparr>) (\<lambda>out.
              ret (mcp_value tool (wk_call_result w out), True, None))))"

definition runMCPNode :: "worker \<Rightarrow> node_job \<Rightarrow> outcome wsm" where
  "runMCPNode w sj =
     (if NodeType (nj sj) = ''mcp-http'' then runMCPHTTPNode w sj
      else if Command (nj sj) = [] then throw (no_command sj)
      else bind (of_res (declared_env w sj)) (\<lambda>env.
       let tool = str_or_empty (map_of (Config (nj sj)) ''tool'');
           input = as_obj (map_of (Config (nj sj)) ''input'');
           mode = str_or_empty (map_of (Config (nj sj)) ''mode'') in
       if tool = '''' then throw no_tool
       else bind (call_mcp w \<lparr> ca_server = \<lparr> sv_command = Command (nj sj), sv_env = env, sv_mode = mode \<rparr>,
               ca_tool = tool, ca_input = input \<rparr>) (\<lambda>res.
            ret (mcp_value tool res, True, None))))"

definition run_plain :: "worker \<Rightarrow> node_job \<Rightarrow> outcome wsm" where
  "run_plain w sj =
     (if Command (nj sj) = [] then throw (no_command sj)
      else bind (of_res (declared_env w sj)) (\<lambda>env.
       bind (run_process w \<lparr> ex_command = Command (nj sj), ex_env = env, ex_input = VObj (Input (nj sj)) \<rparr>) (\<lambda>out.
       ret (out, True, None))))"

definition run_harness :: "worker \<Rightarrow> node_job \<Rightarrow> outcome wsm" where
  "run_harness w sj = (case RunKindFor (wk_types w) (NodeType (nj sj)) of
      RunSinger \<Rightarrow> runSingerNode w sj
    | RunMCP \<Rightarrow> runMCPNode w sj
    | _ \<Rightarrow> run_plain w sj)"

definition runNode :: "worker \<Rightarrow> node_job \<Rightarrow> string \<Rightarrow> outcome wsm" where
  "runNode w sj dedupeKey =
     bind (if dedupeKey \<noteq> '''' then LookupDedupe (WorkflowID (nj sj)) (NodeName (nj sj)) dedupeKey else ret None) (\<lambda>out.
     case out of
       Some r \<Rightarrow> if dd_succeeded r then ret (dd_result r, False, None) else run_harness w sj
     | None \<Rightarrow> run_harness w sj)"

section \<open>Ordinary nodes\<close>

text \<open>The results of the iterations \<^verbatim>\<open>i, ..., i + k - 1\<close>, in order.\<close>

fun collect_results :: "string \<Rightarrow> string \<Rightarrow> int \<Rightarrow> nat \<Rightarrow> value list wsm" where
  "collect_results runID from_id i 0 = ret []"
| "collect_results runID from_id i (Suc k) =
     bind (wrapping (''foreach collect '' @ from_id @ '' iteration '' @ itoa i @ '': '')
             (Result runID (from_id @ ''#'' @ itoa i))) (\<lambda>v.
     bind (collect_results runID from_id (i + 1) k) (\<lambda>vs. ret (v # vs)))"

definition assembleForeachInput :: "node_job \<Rightarrow> (string \<times> value) list wsm" where
  "assembleForeachInput sj =
     (let steps = (case as_obj (map_of (Input (nj sj)) ''steps'') of None \<Rightarrow> [] | Some m \<Rightarrow> m) in
      bind (collect_results (RunID (nj sj)) (CollectFrom (nj sj)) 0 (nat (CollectCount (nj sj)))) (\<lambda>arr.
      ret (AList.update ''steps'' (VObj (AList.update (CollectName (nj sj)) (VArr arr) steps)) (Input (nj sj)))))"

definition assembled :: "node_job \<Rightarrow> node_job wsm" where
  "assembled sj = (if CollectFrom (nj sj) \<noteq> ''''
     then bind (assembleForeachInput sj) (\<lambda>i. ret (set_nj (\<lambda>f. f\<lparr> Input := i \<rparr>) sj)) else ret sj)"

definition node_atom_of :: "worker \<Rightarrow> node_job \<Rightarrow> jjob \<Rightarrow> string \<Rightarrow> outcome \<Rightarrow> node_job node_atom" where
  "node_atom_of w sj claimed dedupeKey out = (case out of (result, executed, state) \<Rightarrow>
     (done_atom w sj claimed result)\<lparr> na_singer := state,
       na_dedupe := (if dedupeKey \<noteq> '''' \<and> executed then Some \<lparr> dr_workflow = WorkflowID (nj sj),
         dr_node = NodeName (nj sj), dr_key = dedupeKey, dr_succeeded = True, dr_value = result \<rparr> else None) \<rparr>)"

definition handleNode :: "worker \<Rightarrow> node_job \<Rightarrow> jjob \<Rightarrow> unit wsm" where
  "handleNode w sj0 claimed =
     (let pre = ''worker: node '' @ job_tag sj0 claimed in
      try_or (assembled sj0) (fail_with w sj0 claimed pre) (\<lambda>sj.
      try_or (of_res (resolveDedupeKey w sj)) (fail_with w sj claimed pre) (\<lambda>key.
      try_or (runNode w sj key) (fail_with w sj claimed pre) (\<lambda>out.
      seq (wrapping (''worker: commit node '' @ job_tag sj claimed)
            (CommitNodeAtom (node_atom_of w sj claimed key out)))
        (checkRunComplete w sj)))))"

section \<open>Skipped branches\<close>

definition skipped :: "value" where
  "skipped = VObj [(''skipped'', VBool True)]"

definition skip_job :: "node_job \<Rightarrow> node_job" where
  "skip_job d = set_nj (\<lambda>f. f\<lparr> Skip := True \<rparr>) d"

definition map_jobs :: "(node_job \<Rightarrow> node_job) \<Rightarrow> node_job node_atom \<Rightarrow> node_job node_atom" where
  "map_jobs f a = a\<lparr> na_downstream := map (\<lambda>d. d\<lparr> ds_payload := f (ds_payload d) \<rparr>) (na_downstream a) \<rparr>"

definition handleSkip :: "worker \<Rightarrow> node_job \<Rightarrow> jjob \<Rightarrow> unit wsm" where
  "handleSkip w sj claimed =
     seq (wrapping (''worker: commit skip '' @ job_tag sj claimed)
           (CommitNodeAtom (map_jobs skip_job (done_atom w sj claimed skipped))))
       (checkRunComplete w sj)"

section \<open>Switches\<close>

definition runSwitch :: "worker \<Rightarrow> node_job \<Rightarrow> string wsm" where
  "runSwitch w sj =
     (if Command (nj sj) = [] then throw (errorf ''node type switch has no command to run'')
      else bind (of_res (declared_env w sj)) (\<lambda>env.
       bind (run_process w \<lparr> ex_command = Command (nj sj), ex_env = env,
           ex_input = VObj [(''input'', VObj (Input (nj sj))),
             (''cases'', obj_or_null (as_obj (map_of (Config (nj sj)) ''cases''))),
             (''default'', VStr (str_or_empty (map_of (Config (nj sj)) ''default'')))] \<rparr>) (\<lambda>out.
       let target = str_or_empty (Some out) in
       if target = '''' then throw (errorf (''switch '' @ NodeID (nj sj) @ '' returned no branch target''))
       else ret target)))"

definition branch_of :: "string \<Rightarrow> value" where
  "branch_of target = VObj [(''branch'', VStr target)]"

definition switch_job :: "string \<Rightarrow> node_job \<Rightarrow> node_job" where
  "switch_job target d = (if NodeID (nj d) = target then d else skip_job d)"

definition handleSwitch :: "worker \<Rightarrow> node_job \<Rightarrow> jjob \<Rightarrow> unit wsm" where
  "handleSwitch w sj claimed =
     try_or (runSwitch w sj) (fail_with w sj claimed (''worker: switch '' @ job_tag sj claimed)) (\<lambda>target.
     seq (wrapping (''worker: commit switch '' @ job_tag sj claimed)
           (CommitNodeAtom (map_jobs (switch_job target) (done_atom w sj claimed (branch_of target)))))
       (checkRunComplete w sj))"

section \<open>Loops\<close>

definition runForeach :: "worker \<Rightarrow> node_job \<Rightarrow> value list wsm" where
  "runForeach w sj =
     (if Command (nj sj) = [] then throw (errorf ''node type foreach has no command to run'')
      else bind (of_res (declared_env w sj)) (\<lambda>env.
       bind (run_process w \<lparr> ex_command = Command (nj sj), ex_env = env, ex_input = VObj (Input (nj sj)) \<rparr>) (\<lambda>out.
       case as_arr (Some out) of
         None \<Rightarrow> throw (errorf (''foreach '' @ NodeID (nj sj) @ '' returned a non-list''))
       | Some items \<Rightarrow> ret items)))"

text \<open>\<^verbatim>\<open>rj := w.findDownstreamJob(sj, rejoin)\<close> and the three assignments through it.\<close>

definition mark_rejoin :: "node_job \<Rightarrow> node_job \<Rightarrow> int \<Rightarrow> string \<Rightarrow> node_job" where
  "mark_rejoin body sj n rejoin = NodeJob (nj sj)
     (update_first (\<lambda>d. NodeID (nj d) = rejoin)
        (set_nj (\<lambda>f. f\<lparr> CollectFrom := NodeID (nj body), CollectAs := BodyAs (nj sj), CollectCount := n \<rparr>))
        (Downstream sj)) (Body sj)"

fun set_rejoins :: "worker \<Rightarrow> jjob \<Rightarrow> node_job \<Rightarrow> int \<Rightarrow> node_job \<Rightarrow> string list \<Rightarrow> node_job wsm" where
  "set_rejoins w claimed body n sj [] = ret sj"
| "set_rejoins w claimed body n sj (r # rs) =
     try_or (SetRunDepsRemaining (RunID (nj sj)) r n)
       (fail_with w sj claimed (''worker: foreach '' @ NodeID (nj sj) @ '' set rejoin count: ''))
       (\<lambda>_. set_rejoins w claimed body n (mark_rejoin body sj n r) rs)"

definition body_job :: "node_job \<Rightarrow> node_job \<Rightarrow> int \<Rightarrow> value \<Rightarrow> node_job" where
  "body_job sj body i item = NodeJob ((nj body)\<lparr> RunID := RunID (nj sj),
       NodeID := NodeID (nj body) @ ''#'' @ itoa i,
       Input := foreachItemInput (Input (nj sj)) (BodyAs (nj sj)) item,
       Dependents := Rejoins (nj sj), CollectFrom := '''', CollectAs := '''', CollectCount := 0,
       CollectName := '''' \<rparr>)
     (rejoinJobs sj) (Body body)"

definition foreach_atom :: "worker \<Rightarrow> node_job \<Rightarrow> jjob \<Rightarrow> node_job \<Rightarrow> value list \<Rightarrow> node_job node_atom" where
  "foreach_atom w sj claimed body items = \<lparr> na_run = RunID (nj sj), na_node = NodeID (nj sj),
     na_result = VObj [(''items'', VArr items)], na_dedupe = None, na_dependents = [],
     na_downstream = map (\<lambda>(i, item). \<lparr> ds_queue = wk_queue w, ds_payload = body_job sj body (int i) item \<rparr>)
       (enumerate 0 items),
     na_job = Some claimed, na_singer = None \<rparr>"

definition handleForeach :: "worker \<Rightarrow> node_job \<Rightarrow> jjob \<Rightarrow> unit wsm" where
  "handleForeach w sj0 claimed =
     try_or (runForeach w sj0) (fail_with w sj0 claimed (''worker: foreach '' @ job_tag sj0 claimed)) (\<lambda>items.
     case Body sj0 of
       None \<Rightarrow> throw (errorf (''worker: foreach '' @ NodeID (nj sj0) @ '' has no body node''))
     | Some body \<Rightarrow>
        bind (set_rejoins w claimed body (int (length items)) sj0 (Rejoins (nj sj0))) (\<lambda>sj.
        try_or (CommitNodeAtom (foreach_atom w sj claimed body items))
          (fail_with w sj claimed (''worker: commit foreach '' @ job_tag sj claimed))
          (\<lambda>_. checkRunComplete w sj)))"

section \<open>Polls\<close>

definition handlePoll :: "worker \<Rightarrow> node_job \<Rightarrow> jjob \<Rightarrow> unit wsm" where
  "handlePoll w sj claimed =
     (let pre = ''worker: poll '' @ job_tag sj claimed;
          acked = ignore (job_Ack claimed) in
      case wk_onPoll w of
        None \<Rightarrow> acked
      | Some onPoll \<Rightarrow>
        if Command (nj sj) = [] then seq acked (throw (errorf (pre @ ''no command'')))
        else try_or (of_res (declared_env w sj)) (\<lambda>e. seq acked (throw (wrap pre e))) (\<lambda>env.
          try_or (run_process w \<lparr> ex_command = Command (nj sj), ex_env = env, ex_input = VObj (Input (nj sj)) \<rparr>)
            (\<lambda>e. seq acked (throw (wrap pre e))) (\<lambda>out.
          case as_arr (Some out) of
            None \<Rightarrow> seq acked (throw (errorf (pre @ ''helper returned a non-list'')))
          | Some raw \<Rightarrow>
             seq (ignore (onPoll (WorkflowID (nj sj)) (str_or_empty (map_of (Config (nj sj)) ''kind'')) raw)) acked)))"

end
