(* ===== verification/Suspend.thy ===== *)
theory Suspend
  imports Handlers
begin

text \<open>
  Parking and waking runs (internal/worker/suspend.go): the \<^verbatim>\<open>wait\<close>, \<^verbatim>\<open>send-signal\<close> and
  \<^verbatim>\<open>rerun-failed\<close> nodes, the delivery of a signal and the resumption of a parked wait; and the
  worker's dispatch and loop (worker.go: handle, Run), which calls every handler.
\<close>

section \<open>Expressions\<close>

definition evalExpression :: "worker \<Rightarrow> node_job \<Rightarrow> string \<Rightarrow> value wsm" where
  "evalExpression w sj expr =
     bind (of_res (declared_env w sj)) (\<lambda>env.
     run_process w \<lparr> ex_command = [wk_self w, ''__eval'', expr], ex_env = env, ex_input = VObj (Input (nj sj)) \<rparr>)"

definition resolveSignalName :: "worker \<Rightarrow> node_job \<Rightarrow> string wsm" where
  "resolveSignalName w sj =
     (let expr = str_or_empty (map_of (Config (nj sj)) ''signal'') in
      if expr = '''' then ret ''''
      else bind (wrapping (''wait '' @ NodeID (nj sj) @ '': resolve signal: '') (evalExpression w sj expr)) (\<lambda>v.
       ret (stringify (wk_render w) v)))"

text \<open>Durations are in nanoseconds, times in seconds; the clock is read in whole seconds.\<close>

definition resolveTimerRunAt :: "worker \<Rightarrow> node_job \<Rightarrow> int wsm" where
  "resolveTimerRunAt w sj = (case as_obj (map_of (Config (nj sj)) ''timer'') of
      None \<Rightarrow> ret 0
    | Some timer \<Rightarrow>
       (let after = str_or_empty (map_of timer ''after''); at_time = str_or_empty (map_of timer ''at'');
            pre = ''wait '' @ NodeID (nj sj) @ '': timer'' in
        if after \<noteq> '''' then
          bind (wrapping (pre @ ''.after: '') (of_res (wk_duration w after))) (\<lambda>d.
          bind get_now (\<lambda>now. ret (now + d div 1000000000)))
        else if at_time \<noteq> '''' then wrapping (pre @ ''.at: '') (of_res (wk_rfc3339 w at_time))
        else throw (errorf (pre @ '' requires `after` or `at`''))))"

section \<open>Completing a wait\<close>

definition resume_result :: "string \<Rightarrow> value \<Rightarrow> value" where
  "resume_result source payload = VObj [(''source'', VStr source), (''payload'', payload)]"

definition continuation_jobs :: "string \<Rightarrow> wait_continuation \<Rightarrow> value \<Rightarrow> node_job downstream list" where
  "continuation_jobs queue wc result = map (\<lambda>d. \<lparr> ds_queue = queue,
     ds_payload = thread_job (wc_Input wc) (wc_NodeName wc) result d \<rparr>) (wc_Downstream wc)"

definition fanOutContinuation :: "string \<Rightarrow> wait_continuation \<Rightarrow> value \<Rightarrow> int wsm" where
  "fanOutContinuation queue wc result =
     FanOut (wc_RunID wc) (wc_Dependents wc) (continuation_jobs queue wc result)"

definition completeWait :: "worker \<Rightarrow> jjob \<Rightarrow> wait_continuation \<Rightarrow> string \<Rightarrow> value \<Rightarrow> unit wsm" where
  "completeWait w claimed wc source payload =
     (let result = resume_result source payload in
      seq (WriteResult (wc_RunID wc) (wc_NodeID wc) result)
     (bind (fanOutContinuation (wk_queue w) wc result) (\<lambda>n.
      seq (Tx_Ack claimed) (AdjustPending (wc_RunID wc) (n - 1)))))"

section \<open>Parking\<close>

definition wait_of :: "node_job \<Rightarrow> wait_continuation" where
  "wait_of sj = \<lparr> wc_RunID = RunID (nj sj), wc_NodeID = NodeID (nj sj), wc_NodeName = NodeName (nj sj),
     wc_Input = Input (nj sj), wc_Dependents = Dependents (nj sj), wc_Downstream = Downstream sj \<rparr>"

definition resume_job :: "node_job \<Rightarrow> node_job" where
  "resume_job sj = NodeJob (no_fields\<lparr> NodeType := ''resume'', RunID := RunID (nj sj), NodeID := NodeID (nj sj) \<rparr>) [] None"

definition park :: "worker \<Rightarrow> node_job \<Rightarrow> jjob \<Rightarrow> string \<Rightarrow> int \<Rightarrow> unit wsm" where
  "park w sj claimed signalName runAt =
     seq (WriteContinuation \<lparr> co_run = RunID (nj sj), co_node = NodeID (nj sj), co_workflow = WorkflowID (nj sj),
            co_signal = signalName, co_run_at = runAt, co_payload = Inr (wait_of sj) \<rparr>)
    (seq (SetRunStatusTx (RunID (nj sj)) RunWaiting)
    (seq (Tx_Ack claimed)
    (seq (AdjustPending (RunID (nj sj)) (- 1))
     (if runAt \<noteq> 0 then Tx_EnqueueAt (wk_queue w) (resume_job sj) runAt else ret ()))))"

definition wait_tx :: "worker \<Rightarrow> node_job \<Rightarrow> jjob \<Rightarrow> string \<Rightarrow> int \<Rightarrow> unit wsm" where
  "wait_tx w sj claimed signalName runAt =
     bind (if signalName \<noteq> '''' then TakeBufferedSignal signalName else ret None) (\<lambda>buffered. case buffered of
         Some payload \<Rightarrow> completeWait w claimed (wait_of sj) ''signal'' payload
       | None \<Rightarrow> park w sj claimed signalName runAt)"

definition handleWait :: "worker \<Rightarrow> node_job \<Rightarrow> jjob \<Rightarrow> unit wsm" where
  "handleWait w sj claimed =
     (let failed = fail_with w sj claimed (''worker: wait '' @ job_tag sj claimed) in
      try_or (resolveSignalName w sj) failed (\<lambda>signalName.
      try_or (resolveTimerRunAt w sj) failed (\<lambda>runAt.
      try_or (WithTx (wait_tx w sj claimed signalName runAt)) failed (\<lambda>_. checkRunComplete w sj))))"

section \<open>Waking\<close>

definition resume_tx :: "string \<Rightarrow> string \<Rightarrow> string \<Rightarrow> wait_continuation \<Rightarrow> value \<Rightarrow> unit wsm" where
  "resume_tx queue runID nodeID wc result =
     seq (WriteResult runID (wc_NodeID wc) result)
    (bind (fanOutContinuation queue wc result) (\<lambda>n.
     seq (AdjustPending runID n)
    (seq (DeleteContinuation runID nodeID)
    (bind (ContinuationCount runID) (\<lambda>remaining.
     if remaining = 0 then SetRunStatusTx runID RunRunning else ret ())))))"

text \<open>\<^verbatim>\<open>if err != nil || <nothing> { return nil }\<close>.\<close>

definition or_nothing :: "'a wsm \<Rightarrow> ('a \<Rightarrow> unit wsm) \<Rightarrow> unit wsm" where
  "or_nothing m k = try_or m (\<lambda>_. ret ()) k"

definition resumeInstance :: "string \<Rightarrow> string \<Rightarrow> string \<Rightarrow> string \<Rightarrow> value \<Rightarrow> unit wsm" where
  "resumeInstance queue runID nodeID source payload =
     or_nothing (RunStatus runID) (\<lambda>st.
     if st \<noteq> RunWaiting then ret ()
     else or_nothing (GetContinuation runID nodeID) (\<lambda>found. case found of
        None \<Rightarrow> ret ()
      | Some cont \<Rightarrow>
         bind (wrapping (''worker: resume '' @ runID @ ''/'' @ nodeID @ '': decode continuation: '') (of_res (co_payload cont))) (\<lambda>wc.
         WithTx (resume_tx queue runID nodeID wc (resume_result source payload)))))"

definition ResumeBySignal :: "string \<Rightarrow> string \<Rightarrow> value \<Rightarrow> unit wsm" where
  "ResumeBySignal queue name payload =
     bind (ParkedInstancesForSignal name) (\<lambda>instances. case instances of
        [] \<Rightarrow> BufferSignal name payload
      | [(runID, nodeID)] \<Rightarrow> resumeInstance queue runID nodeID ''signal'' payload
      | _ \<Rightarrow> throw (errorf (''signal '' @ quote name @ '' is ambiguous: '' @ itoa (int (length instances)) @ '' waits are parked on it'')))"

section \<open>Signal and rerun nodes\<close>

definition complete_node :: "worker \<Rightarrow> node_job \<Rightarrow> jjob \<Rightarrow> string \<Rightarrow> value \<Rightarrow> unit wsm" where
  "complete_node w sj claimed what result =
     try_or (CommitNodeAtom (done_atom w sj claimed result))
       (fail_with w sj claimed (''worker: commit '' @ what @ '' '' @ job_tag sj claimed))
       (\<lambda>_. checkRunComplete w sj)"

definition handleSendSignal :: "worker \<Rightarrow> node_job \<Rightarrow> jjob \<Rightarrow> unit wsm" where
  "handleSendSignal w sj claimed =
     (let expr = str_or_empty (map_of (Config (nj sj)) ''signal'');
          pExpr = str_or_empty (map_of (Config (nj sj)) ''payload'');
          pre = ''worker: send-signal '' @ job_tag sj claimed in
      if expr = '''' then
        seq (recordFailure w sj claimed (errorf (''send-signal '' @ NodeID (nj sj) @ '': requires a `signal` expression'')))
            (throw (errorf (pre @ ''no signal expression'')))
      else try_or (evalExpression w sj expr) (fail_with w sj claimed pre) (\<lambda>v.
       let name = stringify (wk_render w) v in
       try_or (if pExpr \<noteq> '''' then evalExpression w sj pExpr else ret VNull)
         (fail_with w sj claimed (pre @ ''payload: '')) (\<lambda>payload.
       try_or (ResumeBySignal (wk_queue w) name payload) (fail_with w sj claimed pre) (\<lambda>_.
       complete_node w sj claimed ''send-signal'' (VObj [(''ok'', VBool True), (''signal'', VStr name)])))))"

definition event_run :: "node_job \<Rightarrow> string" where
  "event_run sj = (case as_obj (map_of (Input (nj sj)) ''event'') of
      None \<Rightarrow> '''' | Some ev \<Rightarrow> str_or_empty (map_of ev ''from_run''))"

definition handleRerunFailed :: "worker \<Rightarrow> node_job \<Rightarrow> jjob \<Rightarrow> unit wsm" where
  "handleRerunFailed w sj claimed =
     (let expr = str_or_empty (map_of (Config (nj sj)) ''run_id'');
          pre = ''worker: rerun-failed '' @ job_tag sj claimed;
          m = str_or_empty (map_of (Config (nj sj)) ''mode'');
          mode = (if m \<noteq> '''' then m else ''continue'') in
      try_or (if expr \<noteq> '''' then bind (evalExpression w sj expr) (\<lambda>v. ret (stringify (wk_render w) v))
              else ret (event_run sj)) (fail_with w sj claimed pre) (\<lambda>runID.
      if runID = '''' then fail_with w sj claimed (''worker: '' @ job_tag sj claimed)
        (errorf (''rerun-failed '' @ NodeID (nj sj) @ '': no target run (set `run_id` or trigger from a `failed` event)''))
      else try_or (case wk_onRerun w of None \<Rightarrow> ret () | Some onRerun \<Rightarrow> onRerun runID mode)
        (fail_with w sj claimed pre) (\<lambda>_.
       complete_node w sj claimed ''rerun-failed''
         (VObj [(''ok'', VBool True), (''run'', VStr runID), (''mode'', VStr mode)]))))"

section \<open>Dispatch (worker.go)\<close>

text \<open>The status read ignores its error: an unreadable status is the empty string.\<close>

definition status_or_empty :: "string \<Rightarrow> string wsm" where
  "status_or_empty runID = try_or (RunStatus runID) (\<lambda>_. ret '''') ret"

definition dispatch :: "worker \<Rightarrow> node_job \<Rightarrow> jjob \<Rightarrow> unit wsm" where
  "dispatch w sj claimed =
     (if Skip (nj sj) then handleSkip w sj claimed
      else if NodeType (nj sj) = ''wait'' then handleWait w sj claimed
      else if NodeType (nj sj) = ''send-signal'' then handleSendSignal w sj claimed
      else if NodeType (nj sj) = ''rerun-failed'' then handleRerunFailed w sj claimed
      else if NodeType (nj sj) = ''switch'' then handleSwitch w sj claimed
      else if NodeType (nj sj) = ''foreach'' then handleForeach w sj claimed
      else if NodeType (nj sj) = ''poll'' then handlePoll w sj claimed
      else handleNode w sj claimed)"

definition handle :: "worker \<Rightarrow> jjob \<Rightarrow> unit wsm" where
  "handle w claimed = (case j_payload claimed of
      Inl e \<Rightarrow> seq (ignore (job_Fail claimed (''invalid node job payload: '' @ err_msg e)))
        (throw (wrap (''worker: decode job '' @ itoa (j_id claimed) @ '': '') e))
    | Inr sj \<Rightarrow>
       if NodeType (nj sj) = ''resume'' then
         seq (ignore (resumeInstance (wk_queue w) (RunID (nj sj)) (NodeID (nj sj)) ''timer'' VNull))
             (ignore (job_Ack claimed))
       else bind (status_or_empty (RunID (nj sj))) (\<lambda>status.
         if status \<noteq> '''' \<and> status \<noteq> RunRunning \<and> status \<noteq> RunWaiting then ignore (job_Ack claimed)
         else dispatch w sj claimed))"

text \<open>
  The loop over what the waker's Next gives: a job, or an error with whether the context was cancelled by
  then; after the list it gives no job, as it does once the context is cancelled.
\<close>

datatype claim = Claims jjob | ClaimFails err bool

fun Worker_Run :: "worker \<Rightarrow> claim list \<Rightarrow> unit wsm" where
  "Worker_Run w [] = ret ()"
| "Worker_Run w (Claims job # cs) = seq (ignore (handle w job)) (Worker_Run w cs)"
| "Worker_Run w (ClaimFails e cancelled # cs) = (if cancelled then ret () else throw e)"

end
