(* ===== verification/WorkerLaws.thy ===== *)
theory WorkerLaws
  imports Suspend
begin

text \<open>
  What the worker does. First, what it cannot change: a calculus for the parts of the world an
  operation leaves alone whatever statement fails; with it, that no subprocess is started on
  the paths that must not start one, and that the pending count of a run is moved exactly by
  the jobs enqueued and the claims acked. Then what it does when nothing fails: the outcome of
  a failure, of a switch and of a loop.
\<close>

section \<open>What an operation cannot change\<close>

text \<open>\<^verbatim>\<open>keeps f m\<close>: whatever fails on the way, \<^verbatim>\<open>m\<close> leaves \<^verbatim>\<open>f\<close> of the world as it was.\<close>

definition keeps :: "(('j, 'w) world \<Rightarrow> 'b) \<Rightarrow> ('j, 'w, 'a) sm \<Rightarrow> bool" where
  "keeps f m \<longleftrightarrow> (\<forall>s. f (snd (m s)) = f s)"

named_theorems keeps_intro \<open>rules for operations that leave a part of the world alone\<close>

lemma keepsD: "keeps f m \<Longrightarrow> f (snd (m s)) = f s"
  by (simp add: keeps_def)

lemma keeps_ret [simp, keeps_intro]: "keeps f (ret a)" by (simp add: keeps_def sm_eval)
lemma keeps_throw [simp, keeps_intro]: "keeps f (throw e)" by (simp add: keeps_def sm_eval)
lemma keeps_of_res [simp, keeps_intro]: "keeps f (of_res r)" by (simp add: keeps_def sm_eval)
lemma keeps_get_now [simp, keeps_intro]: "keeps f get_now" by (simp add: keeps_def)

lemma keeps_bind [keeps_intro]: "keeps f m \<Longrightarrow> (\<And>a. keeps f (k a)) \<Longrightarrow> keeps f (bind m k)"
  unfolding keeps_def bind_def by (auto split: prod.split sum.split) (metis snd_conv)+

lemma keeps_wrapping [keeps_intro]: "keeps f m \<Longrightarrow> keeps f (wrapping p m)"
  unfolding keeps_def wrapping_def by (auto split: prod.split sum.split) (metis snd_conv)+

lemma keeps_attempt [keeps_intro]: "keeps f m \<Longrightarrow> keeps f (attempt m)"
  unfolding keeps_def attempt_def by (auto split: prod.split) (metis snd_conv)+

lemma keeps_ignore [keeps_intro]: "keeps f m \<Longrightarrow> keeps f (ignore m)"
  by (simp add: keeps_def ignore_def)

lemma keeps_if [keeps_intro]: "(b \<Longrightarrow> keeps f m) \<Longrightarrow> (\<not> b \<Longrightarrow> keeps f m') \<Longrightarrow> keeps f (if b then m else m')"
  by simp

lemma keeps_option [keeps_intro]:
  "(x = None \<Longrightarrow> keeps f m) \<Longrightarrow> (\<And>a. x = Some a \<Longrightarrow> keeps f (k a)) \<Longrightarrow> keeps f (case x of None \<Rightarrow> m | Some a \<Rightarrow> k a)"
  by (cases x) auto

lemma keeps_sum [keeps_intro]:
  "(\<And>e. x = Inl e \<Longrightarrow> keeps f (h e)) \<Longrightarrow> (\<And>a. x = Inr a \<Longrightarrow> keeps f (k a)) \<Longrightarrow> keeps f (case x of Inl e \<Rightarrow> h e | Inr a \<Rightarrow> k a)"
  by (cases x) auto

lemma keeps_try_or [keeps_intro]:
  "keeps f m \<Longrightarrow> (\<And>e. keeps f (h e)) \<Longrightarrow> (\<And>a. keeps f (k a)) \<Longrightarrow> keeps f (try_or m h k)"
  unfolding try_or_def by (intro keeps_bind keeps_attempt keeps_sum)

lemma keeps_each [keeps_intro]: "(\<And>x. keeps f (g x)) \<Longrightarrow> keeps f (each g xs)"
  by (induction xs) (auto intro: keeps_bind)

text \<open>A part of the database, and the subprocesses.\<close>

lemma keeps_stmt: "(\<And>d. f (snd (g d)) = f d) \<Longrightarrow> keeps (\<lambda>w. f (w_db w)) (stmt g)"
  unfolding keeps_def stmt_def
  by (auto split: list.split option.split prod.split simp: Let_def) (metis snd_conv)+

lemma keeps_query [simp, keeps_intro]: "keeps (\<lambda>w. f (w_db w)) (query g)"
  unfolding query_def by (rule keeps_stmt) simp

lemma keeps_exec_sql: "(\<And>d. f (g d) = f d) \<Longrightarrow> keeps (\<lambda>w. f (w_db w)) (exec_sql g)"
  unfolding exec_sql_def by (rule keeps_stmt) simp

lemma keeps_qcall: "(\<And>d. f (d\<lparr> db_calls := db_calls d @ [c] \<rparr>) = f d) \<Longrightarrow> keeps (\<lambda>w. f (w_db w)) (qcall c)"
  unfolding qcall_def by (rule keeps_exec_sql)

lemma execs_stmt [simp, keeps_intro]: "keeps w_execs (stmt g)"
  unfolding keeps_def stmt_def
  by (auto split: list.split option.split prod.split simp: Let_def)

lemma execs_query [simp, keeps_intro]: "keeps w_execs (query g)" by (simp add: query_def)
lemma execs_exec_sql [simp, keeps_intro]: "keeps w_execs (exec_sql g)" by (simp add: exec_sql_def)
lemma execs_qcall [simp, keeps_intro]: "keeps w_execs (qcall g)" by (simp add: qcall_def)

lemma keeps_log_exec [simp, keeps_intro]: "keeps (\<lambda>w. f (w_db w)) (log_exec r)" by (simp add: keeps_def)

lemma keeps_run_process [simp, keeps_intro]: "keeps (\<lambda>w. f (w_db w)) (run_process k r)"
  by (simp add: keeps_def run_process_def)

text \<open>A transaction keeps what its body keeps, and what its body keeps when it succeeds.\<close>

lemma execs_WithTx [keeps_intro]: "keeps w_execs m \<Longrightarrow> keeps w_execs (WithTx m)"
proof -
  assume m: "keeps w_execs m"
  have 1: "keeps w_execs (bind m (\<lambda>a. seq commit_tx (ret a)))"
    unfolding commit_tx_def by (intro keeps_intro m)
  have 2: "w_execs (snd (rollback_on_error d (bind m (\<lambda>a. seq commit_tx (ret a))) s)) = w_execs s" for d s
    using keepsD [OF 1, of s] unfolding rollback_on_error_def by (auto split: prod.split sum.split)
  show ?thesis
    unfolding WithTx_def begin_tx_def
    by (intro keeps_bind keeps_wrapping execs_query) (simp add: keeps_def 2)
qed

lemma keeps_WithTx:
  assumes "\<And>d u d'. runs m d u d' \<Longrightarrow> f d' = f d"
  shows "keeps (\<lambda>w. f (w_db w)) (WithTx m)"
proof (unfold keeps_def, rule allI)
  fix s
  obtain r s' where e: "WithTx m s = (r, s')" by fastforce
  show "f (w_db (snd (WithTx m s))) = f (w_db s)"
  proof (cases r)
    case (Inl x)
    then show ?thesis using e WithTx_atomic by fastforce
  next
    case (Inr u)
    then have "runs (WithTx m) (w_db s) u (w_db s')" using e by (auto intro: runsI)
    from assms [OF runs_WithTx [OF this]] show ?thesis using e by simp
  qed
qed

section \<open>No subprocess\<close>

lemma execs_decrement: "keeps w_execs (decrementDependents r deps)"
  by (induction deps) (auto simp: decrement_one_def intro!: keeps_intro)

lemma execs_enqueue_ready: "keeps w_execs (enqueue_ready deps ready i ds)"
  by (induction ds arbitrary: i) (auto simp: Tx_Enqueue_def intro!: keeps_intro)

lemma execs_check_marshal: "keeps w_execs (check_marshal p v)"
  unfolding check_marshal_def by (intro keeps_intro)

lemma execs_Tx_Ack: "keeps w_execs (Tx_Ack j)"
  unfolding keeps_def Tx_Ack_def Let_def by (rule allI, rule keepsD, intro keeps_intro)

lemma execs_with_option: "(\<And>x. keeps w_execs (f x)) \<Longrightarrow> keeps w_execs (with_option f x)"
  unfolding with_option_def by (intro keeps_intro)

lemma execs_AdjustPending: "keeps w_execs (AdjustPending r n)"
  unfolding AdjustPending_def by (intro keeps_intro)

lemmas execs_store = execs_decrement execs_enqueue_ready execs_check_marshal execs_Tx_Ack
  execs_with_option execs_AdjustPending

lemma execs_CommitNodeAtom: "keeps w_execs (CommitNodeAtom a)"
  unfolding CommitNodeAtom_def atom_body_def Let_def put_result_def
  by (intro keeps_intro execs_store) (simp_all add: write_dedupe_def write_singer_def keeps_intro execs_check_marshal)

lemma execs_SetRunStatus: "keeps w_execs (SetRunStatus r st)"
  unfolding SetRunStatus_def by (intro keeps_intro)

text \<open>A worker whose completion and failure callbacks start no subprocess (they enqueue runs).\<close>

definition quiet :: "worker \<Rightarrow> bool" where
  "quiet w \<longleftrightarrow> (\<forall>f a b. wk_onDone w = Some f \<or> wk_onFailed w = Some f \<longrightarrow> keeps w_execs (f a b))"

lemma execs_notify: "quiet w \<Longrightarrow> keeps w_execs (notify (wk_onDone w) a b) \<and> keeps w_execs (notify (wk_onFailed w) a b)"
  by (auto simp: notify_def quiet_def intro!: keeps_intro)

lemma execs_checkRunComplete: "quiet w \<Longrightarrow> keeps w_execs (checkRunComplete w sj)"
  unfolding checkRunComplete_def RunPending_def RunStatus_def
  by (intro keeps_intro execs_SetRunStatus) (auto simp: execs_notify)

lemma execs_handleSkip: "quiet w \<Longrightarrow> keeps w_execs (handleSkip w sj claimed)"
  unfolding handleSkip_def by (intro keeps_intro execs_CommitNodeAtom execs_checkRunComplete)

lemma execs_recordFailure: "quiet w \<Longrightarrow> keeps w_execs (recordFailure w sj claimed e)"
  unfolding recordFailure_def commitFailed_def dead_letter_def saveFailedContinuation_def
    WriteFailedContinuation_def resolveRunFailed_def job_Retry_def job_Fail_def
  by (intro keeps_intro execs_CommitNodeAtom execs_with_option execs_check_marshal execs_SetRunStatus)
     (auto simp: execs_notify)

lemma execs_fail_with: "quiet w \<Longrightarrow> keeps w_execs (fail_with w sj claimed pre e)"
  unfolding fail_with_def by (intro keeps_intro execs_recordFailure)

text \<open>
  A run is finished when its row says so; the database's other statuses and a missing row are
  not finished. Claims that must not run anything: the job of a finished run, a skipped node,
  and a node whose dedupe key already has a success.
\<close>

definition finished :: "string \<Rightarrow> bool" where
  "finished status \<longleftrightarrow> status \<noteq> '''' \<and> status \<noteq> RunRunning \<and> status \<noteq> RunWaiting"

lemma handle_finished:
  assumes "calm s" "j_payload claimed = Inr sj" "NodeType (nj sj) \<noteq> ''resume''"
    and "finished (status_of (w_db s) (RunID (nj sj)))"
  shows "handle w claimed s = (Inr (), s\<lparr> w_db := (w_db s)\<lparr>
    db_calls := db_calls (w_db s) @ [QAck (j_id claimed) (j_worker claimed)] \<rparr> \<rparr>)"
  using assms
  by (simp add: handle_def status_or_empty_def try_or_def RunStatus_def attempt_def bind_def sm_eval
      finished_def job_Ack_def ignore_def)

section \<open>Dedupe keys\<close>

lemma try_or_apply: "try_or m h k s = (case m s of (Inl e, s') \<Rightarrow> h e s' | (Inr a, s') \<Rightarrow> k a s')"
  by (simp add: try_or_def bind_def attempt_def split: prod.split sum.split)

lemma fail_with_not_Inr [simp]: "fail_with w sj claimed pre e s \<noteq> (Inr a, s')"
  by (auto simp: fail_with_def bind_def sm_eval split: prod.split sum.split)

lemma try_or_Inr:
  assumes "try_or m h k s = (Inr b, s'')" "\<And>e s s'. h e s \<noteq> (Inr b, s')"
  obtains a s' where "m s = (Inr a, s')" "k a s' = (Inr b, s'')"
  using assms by (auto simp: try_or_apply split: prod.splits sum.splits)

lemma dedupe_checkRunComplete:
  assumes "\<And>f a b. wk_onDone w = Some f \<Longrightarrow> keeps (\<lambda>s. db_dedupe (w_db s)) (f a b)"
  shows "keeps (\<lambda>s. db_dedupe (w_db s)) (checkRunComplete w sj)"
  unfolding checkRunComplete_def RunPending_def RunStatus_def SetRunStatus_def notify_def
  by (intro keeps_intro keeps_exec_sql assms) (auto simp: put_status_def)

definition deduped :: "node_job \<Rightarrow> string \<Rightarrow> jdb \<Rightarrow> bool" where
  "deduped sj key d \<longleftrightarrow> (case select (WorkflowID (nj sj), NodeName (nj sj), key) (db_dedupe d) of
     None \<Rightarrow> False | Some r \<Rightarrow> dd_succeeded r)"

lemma runNode_deduped:
  assumes "key \<noteq> ''''" "deduped sj key (w_db s)"
  shows "\<exists>r s'. runNode w sj key s = (r, s') \<and> w_execs s' = w_execs s
    \<and> (\<forall>out. r = Inr out \<longrightarrow> \<not> fst (snd out))"
proof -
  obtain r s1 where q: "LookupDedupe (WorkflowID (nj sj)) (NodeName (nj sj)) key s = (r, s1)" by fastforce
  have ex: "w_execs s1 = w_execs s"
    using keepsD [OF execs_query, of _ s] q unfolding LookupDedupe_def by (metis snd_conv)
  show ?thesis
  proof (cases r)
    case (Inl e)
    then show ?thesis using assms q ex by (auto simp: runNode_def bind_def)
  next
    case (Inr out)
    then have "out = select (WorkflowID (nj sj), NodeName (nj sj), key) (db_dedupe (w_db s))"
      using q runs_query [OF runsI] unfolding LookupDedupe_def by fastforce
    then show ?thesis using assms q ex Inr
      by (auto simp: runNode_def bind_def deduped_def sm_eval split: option.splits)
  qed
qed

text \<open>What a completed node leaves in the dedupe table.\<close>

lemma runs_CommitNodeAtom:
  "CommitNodeAtom a s = (Inr u, s') \<Longrightarrow> distinct (na_dependents a) \<Longrightarrow> w_db s' = atom_spec a (w_db s)"
  unfolding CommitNodeAtom_def by (metis runsI runs_WithTx runs_atom_body)

lemma na_dependents_node_atom [simp]: "na_dependents (node_atom_of w sj claimed key out) = Dependents (nj sj)"
  by (simp add: node_atom_of_def done_atom_def split: prod.split)

lemma runNode_db: "keeps (\<lambda>s. f (w_db s)) (runNode w sj key)"
  unfolding runNode_def run_harness_def runSingerNode_def runMCPNode_def runMCPHTTPNode_def run_plain_def
    LookupDedupe_def GetSingerState_def run_tap_def run_target_def call_mcp_def Let_def
  by (intro keeps_intro | simp split: run_kind.split | safe)+

lemma handleNode_success:
  assumes "handleNode w sj claimed s = (Inr u, s')" "CollectFrom (nj sj) = ''''"
    and "resolveDedupeKey w sj = Inr key"
  obtains out s1 s2 where "runNode w sj key s = (Inr out, s1)"
    "CommitNodeAtom (node_atom_of w sj claimed key out) s1 = (Inr (), s2)"
    "checkRunComplete w sj s2 = (Inr u, s')"
proof -
  have h: "try_or (runNode w sj key) (fail_with w sj claimed (''worker: node '' @ job_tag sj claimed)) (\<lambda>out.
      seq (wrapping (''worker: commit node '' @ job_tag sj claimed)
            (CommitNodeAtom (node_atom_of w sj claimed key out))) (checkRunComplete w sj)) s = (Inr u, s')"
    using assms by (simp add: handleNode_def Let_def assembled_def try_or_apply sm_eval)
  then obtain out s1 where run: "runNode w sj key s = (Inr out, s1)"
    and "seq (wrapping (''worker: commit node '' @ job_tag sj claimed)
            (CommitNodeAtom (node_atom_of w sj claimed key out))) (checkRunComplete w sj) s1 = (Inr u, s')"
    by (rule try_or_Inr) simp
  from this(2) obtain s2 where "CommitNodeAtom (node_atom_of w sj claimed key out) s1 = (Inr (), s2)"
      "checkRunComplete w sj s2 = (Inr u, s')"
    unfolding bind_eq_Inr wrapping_eq_Inr by (metis (full_types) old.unit.exhaust)
  with run show ?thesis by (rule that)
qed

lemma harness_ran: "run_harness w sj s = (Inr out, s') \<Longrightarrow> fst (snd out)"
  unfolding run_harness_def runSingerNode_def runMCPNode_def runMCPHTTPNode_def run_plain_def Let_def
  by (auto simp: bind_eq_Inr sm_eval split: run_kind.splits if_splits option.splits)

definition keeps_dedupe :: "worker \<Rightarrow> bool" where
  "keeps_dedupe w \<longleftrightarrow> (\<forall>f a b. wk_onDone w = Some f \<longrightarrow> keeps (\<lambda>s. db_dedupe (w_db s)) (f a b))"

lemma handleNode_leaves_deduped:
  assumes "handleNode w sj claimed s = (Inr u, s')" "CollectFrom (nj sj) = ''''"
    and "resolveDedupeKey w sj = Inr key" "key \<noteq> ''''" "distinct (Dependents (nj sj))" "keeps_dedupe w"
  shows "deduped sj key (w_db s')"
proof -
  obtain out s1 s2 where run: "runNode w sj key s = (Inr out, s1)"
    and com: "CommitNodeAtom (node_atom_of w sj claimed key out) s1 = (Inr (), s2)"
    and chk: "checkRunComplete w sj s2 = (Inr u, s')"
    using handleNode_success [OF assms(1-3)] .
  have s2: "w_db s2 = atom_spec (node_atom_of w sj claimed key out) (w_db s1)"
    using runs_CommitNodeAtom [OF com] assms(5) by simp
  have s': "db_dedupe (w_db s') = db_dedupe (w_db s2)"
    using keepsD [OF dedupe_checkRunComplete, of w sj s2] assms(6) chk by (simp add: keeps_dedupe_def)
  have s1: "w_db s1 = w_db s"
    using keepsD [OF runNode_db [where f = id], of w sj key s] run by simp
  obtain result executed state where out: "out = (result, executed, state)" by (cases out) auto
  show ?thesis
  proof (cases executed)
    case True
    then show ?thesis using s' s2 assms(4)
      by (simp add: deduped_def atom_spec_def node_atom_of_def out put_dedupe_def)
  next
    case False
    have "deduped sj key (w_db s)"
    proof (rule ccontr)
      assume n: "\<not> deduped sj key (w_db s)"
      obtain v s0 where l: "LookupDedupe (WorkflowID (nj sj)) (NodeName (nj sj)) key s = (Inr v, s0)"
        and k: "(case v of Some r \<Rightarrow> if dd_succeeded r then ret (dd_result r, False, None) else run_harness w sj
            | None \<Rightarrow> run_harness w sj) s0 = (Inr out, s1)"
        using run assms(4) by (auto simp: runNode_def bind_eq_Inr)
      have "v = select (WorkflowID (nj sj), NodeName (nj sj), key) (db_dedupe (w_db s))"
        using l runs_query [OF runsI] unfolding LookupDedupe_def by fastforce
      then have "run_harness w sj s0 = (Inr out, s1)"
        using n k by (auto simp: deduped_def split: option.splits)
      then show False using False out harness_ran by fastforce
    qed
    then show ?thesis using s' s2 False
      by (simp add: deduped_def atom_spec_def node_atom_of_def out done_atom_def put_dedupe_def s1)
  qed
qed

section \<open>The pending count\<close>

text \<open>
  The jobs of a run enqueued so far, the acks of one claim, and what is left of the pending
  count when the first is taken off and the second put back. Timer jobs (with a time to run at)
  are not part of the count.
\<close>

definition enqueued :: "string \<Rightarrow> node_job qcall list \<Rightarrow> int" where
  "enqueued r calls = int (length (filter (\<lambda>c. case c of
     QEnqueue q p None \<Rightarrow> RunID (nj p) = r | _ \<Rightarrow> False) calls))"

definition acks :: "jjob \<Rightarrow> node_job qcall list \<Rightarrow> int" where
  "acks claimed calls = int (length (filter (\<lambda>c. c = QAck (j_id claimed) (j_worker claimed)) calls))"

definition surplus :: "jjob \<Rightarrow> bool \<Rightarrow> string \<Rightarrow> jdb \<Rightarrow> int" where
  "surplus claimed own r d = (case select r (db_runs d) of
      None \<Rightarrow> 0
    | Some row \<Rightarrow> rr_pending row - enqueued r (db_calls d) + (if own then acks claimed (db_calls d) else 0))"

lemma enqueued_append [simp]: "enqueued r (xs @ ys) = enqueued r xs + enqueued r ys"
  by (simp add: enqueued_def)

lemma acks_append [simp]: "acks c (xs @ ys) = acks c xs + acks c ys"
  by (simp add: acks_def)

lemma enqueued_simps [simp]:
  "enqueued r [] = 0" "enqueued r (QAck i x # cs) = enqueued r cs"
  "enqueued r (QRetry i n m # cs) = enqueued r cs" "enqueued r (QFail i m # cs) = enqueued r cs"
  "enqueued r (QEnqueue q p (Some t) # cs) = enqueued r cs"
  "enqueued r (QEnqueue q p None # cs) = (if RunID (nj p) = r then 1 else 0) + enqueued r cs"
  by (simp_all add: enqueued_def)

lemma acks_simps [simp]:
  "acks c [] = 0" "acks c (QAck i x # cs) = (if i = j_id c \<and> x = j_worker c then 1 else 0) + acks c cs"
  "acks c (QRetry i n m # cs) = acks c cs" "acks c (QFail i m # cs) = acks c cs"
  "acks c (QEnqueue q p t # cs) = acks c cs"
  by (auto simp: acks_def)

lemma enqueued_calls:
  "list_all (\<lambda>d. RunID (nj (ds_payload d)) = r) ds \<Longrightarrow>
     enqueued r' (enqueue_calls ds) = (if r' = r then int (length ds) else 0)"
  by (induction ds) (auto simp: enqueue_calls_def)

lemma acks_calls [simp]: "acks c (enqueue_calls ds) = 0"
  by (induction ds) (auto simp: enqueue_calls_def)

lemma list_all_chosen: "list_all P ds \<Longrightarrow> list_all P (chosen deps ready i ds)"
  by (induction ds arbitrary: i) (auto simp: chosen_Cons chosen_def [of _ _ _ "[]"])

text \<open>All jobs of an atom belong to its run, and its claim is the one counted.\<close>

definition atom_of_run :: "jjob \<Rightarrow> string \<Rightarrow> node_job node_atom \<Rightarrow> bool" where
  "atom_of_run claimed run a \<longleftrightarrow> na_run a = run \<and> distinct (na_dependents a)
     \<and> list_all (\<lambda>d. RunID (nj (ds_payload d)) = run) (na_downstream a)
     \<and> (na_job a = None \<or> na_job a = Some claimed)"

lemma surplus_atom_spec:
  assumes "atom_of_run claimed run a"
  shows "surplus claimed (r = run) r (atom_spec a d) = surplus claimed (r = run) r d"
proof -
  have e: "enqueued r (enqueue_calls (released a d)) = (if r = run then int (length (released a d)) else 0)"
    using assms list_all_chosen unfolding atom_of_run_def released_def by (blast intro: enqueued_calls)
  show ?thesis
  proof (cases "na_job a")
    case None
    then show ?thesis using assms e
      by (auto simp: surplus_def atom_spec_def add_pending_def atom_of_run_def split: option.splits)
  next
    case (Some j)
    then show ?thesis using assms e
      by (auto simp: surplus_def atom_spec_def add_pending_def atom_of_run_def split: option.splits)
  qed
qed

abbreviation "sur claimed run r \<equiv> (\<lambda>s :: jworld. surplus claimed (r = run) r (w_db s))"

lemma sur_CommitNodeAtom:
  "atom_of_run claimed run a \<Longrightarrow> keeps (sur claimed run r) (CommitNodeAtom a)"
  unfolding CommitNodeAtom_def
  by (rule keeps_WithTx) (metis runs_atom_body surplus_atom_spec atom_of_run_def)

lemma surplus_put_status [simp]: "surplus c own r (put_status i st d) = surplus c own r d"
  by (auto simp: surplus_def put_status_def split: option.splits)

lemma surplus_same: "db_runs d' = db_runs d \<Longrightarrow> db_calls d' = db_calls d \<Longrightarrow> surplus c own r d' = surplus c own r d"
  by (cases "select r (db_runs d)") (simp_all add: surplus_def)

text \<open>Callbacks that keep the accounts of every run.\<close>

definition accounted :: "worker \<Rightarrow> jjob \<Rightarrow> string \<Rightarrow> bool" where
  "accounted w claimed run \<longleftrightarrow> (\<forall>f a b r. wk_onDone w = Some f \<or> wk_onFailed w = Some f \<or> wk_onRerun w = Some f
     \<longrightarrow> keeps (sur claimed run r) (f a b))"

lemma sur_notify:
  "accounted w claimed run \<Longrightarrow> keeps (sur claimed run r) (notify (wk_onDone w) a b)
     \<and> keeps (sur claimed run r) (notify (wk_onFailed w) a b)"
  by (auto simp: notify_def accounted_def intro!: keeps_intro)

lemma sur_SetRunStatus: "keeps (sur claimed run r) (SetRunStatus i st)"
  unfolding SetRunStatus_def by (intro keeps_wrapping keeps_exec_sql) simp

lemma sur_checkRunComplete:
  "accounted w claimed run \<Longrightarrow> keeps (sur claimed run r) (checkRunComplete w sj)"
  unfolding checkRunComplete_def RunPending_def RunStatus_def
  by (intro keeps_bind keeps_if keeps_query keeps_ret sur_SetRunStatus) (auto simp: sur_notify)

lemma sur_call: "(\<And>calls. enqueued r (calls @ [c]) = enqueued r calls) \<Longrightarrow> (\<And>calls. acks claimed (calls @ [c]) = acks claimed calls)
    \<Longrightarrow> keeps (sur claimed run r) (qcall c)"
  by (rule keeps_qcall) (auto simp: surplus_def split: option.split)

lemma sur_save: "keeps (sur claimed run r) (saveFailedContinuation sj)"
  unfolding saveFailedContinuation_def
  by (rule keeps_ignore, rule keeps_WithTx)
     (auto simp: WriteFailedContinuation_def dest!: runs_with_option runs_check_marshal runs_exec_sql
       split: option.splits intro!: surplus_same)

lemma sur_commitFailed: "keeps (sur claimed run r) (commitFailed w sj v)"
proof -
  have "keeps (\<lambda>s. surplus claimed own r (w_db s)) (CommitNodeAtom \<lparr> na_run = RunID (nj sj), na_node = NodeID (nj sj),
     na_result = v, na_dedupe = dd, na_dependents = [], na_downstream = [], na_job = None, na_singer = None \<rparr>)" for dd own
    unfolding CommitNodeAtom_def
  proof (rule keeps_WithTx)
    fix d :: jdb and u d'
    assume r: "runs (atom_body \<lparr> na_run = RunID (nj sj), na_node = NodeID (nj sj),
     na_result = v, na_dedupe = dd, na_dependents = [], na_downstream = [], na_job = None, na_singer = None \<rparr>) d u d'"
    from runs_atom_body [OF r] show "surplus claimed own r d' = surplus claimed own r d"
      by (intro surplus_same) (simp_all add: atom_spec_def released_def chosen_def enqueue_calls_def)
  qed
  then show ?thesis unfolding commitFailed_def by (intro keeps_ignore) simp
qed

lemma sur_recordFailure:
  "accounted w claimed run \<Longrightarrow> keeps (sur claimed run r) (recordFailure w sj claimed e)"
  unfolding recordFailure_def dead_letter_def resolveRunFailed_def job_Retry_def job_Fail_def
  by (intro keeps_bind keeps_if keeps_ignore keeps_try_or sur_commitFailed sur_save sur_SetRunStatus keeps_ret sur_call)
     (auto simp: sur_notify)

lemma sur_fail_with:
  "accounted w claimed run \<Longrightarrow> keeps (sur claimed run r) (fail_with w sj claimed pre e)"
  unfolding fail_with_def by (intro keeps_bind sur_recordFailure keeps_throw)

text \<open>A job whose successors belong to its run and whose dependents are listed once.\<close>

definition of_run :: "string \<Rightarrow> node_job \<Rightarrow> bool" where
  "of_run run sj \<longleftrightarrow> RunID (nj sj) = run \<and> distinct (Dependents (nj sj))
     \<and> list_all (\<lambda>d. RunID (nj d) = run) (Downstream sj)"

lemma runs_db_free:
  "keeps (\<lambda>s. f (w_db s)) (runSwitch w sj)" "keeps (\<lambda>s. f (w_db s)) (runForeach w sj)"
  "keeps (\<lambda>s. f (w_db s)) (evalExpression w sj expr)" "keeps (\<lambda>s. f (w_db s)) (resolveSignalName w sj)"
  "keeps (\<lambda>s. f (w_db s)) (resolveTimerRunAt w sj)"
  unfolding runSwitch_def runForeach_def evalExpression_def resolveSignalName_def resolveTimerRunAt_def Let_def
  by (intro keeps_intro)+

lemma keeps_collect: "keeps (\<lambda>s. f (w_db s)) (collect_results r b i k)"
  by (induction k arbitrary: i) (auto simp: Result_def intro!: keeps_intro)

lemma keeps_assembled: "keeps (\<lambda>s. f (w_db s)) (assembled sj)"
  unfolding assembled_def assembleForeachInput_def Let_def by (intro keeps_intro keeps_collect)

lemma atom_of_run_done: "of_run run sj \<Longrightarrow> atom_of_run claimed run (done_atom w sj claimed v)"
  by (simp add: atom_of_run_def of_run_def done_atom_def list_all_iff)

lemma atom_of_run_map:
  "atom_of_run claimed run a \<Longrightarrow> (\<And>d. RunID (nj (f d)) = RunID (nj d)) \<Longrightarrow> atom_of_run claimed run (map_jobs f a)"
  by (simp add: atom_of_run_def map_jobs_def list_all_iff)

lemma atom_of_run_node: "of_run run sj \<Longrightarrow> atom_of_run claimed run (node_atom_of w sj claimed key out)"
  using atom_of_run_done [of run sj claimed w] unfolding node_atom_of_def
  by (auto simp: atom_of_run_def split: prod.split)

lemma atom_of_run_foreach: "RunID (nj sj) = run \<Longrightarrow> atom_of_run claimed run (foreach_atom w sj claimed body items)"
  by (auto simp: atom_of_run_def foreach_atom_def body_job_def list_all_iff)

lemma sur_handleSkip:
  "of_run run sj \<Longrightarrow> accounted w claimed run \<Longrightarrow> keeps (sur claimed run r) (handleSkip w sj claimed)"
  unfolding handleSkip_def
  by (intro keeps_bind keeps_wrapping sur_CommitNodeAtom sur_checkRunComplete atom_of_run_map atom_of_run_done)
     (simp_all add: skip_job_def)

lemma sur_handleSwitch:
  "of_run run sj \<Longrightarrow> accounted w claimed run \<Longrightarrow> keeps (sur claimed run r) (handleSwitch w sj claimed)"
  unfolding handleSwitch_def
  by (intro keeps_bind keeps_wrapping keeps_try_or sur_CommitNodeAtom sur_checkRunComplete sur_fail_with
      runs_db_free atom_of_run_map atom_of_run_done) (simp_all add: skip_job_def switch_job_def)

lemma of_run_input: "of_run run (set_nj (\<lambda>f. f\<lparr> Input := i \<rparr>) sj) \<longleftrightarrow> of_run run sj"
  by (simp add: of_run_def)

text \<open>After an operation that leaves the database alone, its result is known.\<close>

lemma keeps_try_or_result:
  assumes "keeps f m" "\<And>e. keeps f (h e)" "\<And>a s s'. m s = (Inr a, s') \<Longrightarrow> keeps f (k a)"
  shows "keeps f (try_or m h k)"
proof (unfold keeps_def, rule allI)
  fix s
  show "f (snd (try_or m h k s)) = f s"
    using assms(1,2) assms(3) [of s] unfolding keeps_def try_or_apply
    by (cases "m s"; cases "fst (m s)") (auto, metis snd_conv, metis snd_conv)
qed

lemma assembled_of_run: "assembled sj s = (Inr sj', s') \<Longrightarrow> of_run run sj' \<longleftrightarrow> of_run run sj"
  unfolding assembled_def by (auto simp: bind_eq_Inr sm_eval of_run_input split: if_splits)

lemma sur_handleNode:
  assumes "of_run run sj" "accounted w claimed run"
  shows "keeps (sur claimed run r) (handleNode w sj claimed)"
proof -
  have "keeps (sur claimed run r) (try_or (of_res (resolveDedupeKey w sj')) (fail_with w sj' claimed pre) (\<lambda>key.
      try_or (runNode w sj' key) (fail_with w sj' claimed pre) (\<lambda>out.
      seq (wrapping p (CommitNodeAtom (node_atom_of w sj' claimed key out)))
        (checkRunComplete w sj'))))" if "of_run run sj'" for sj' pre p
    using that assms(2)
    by (intro keeps_try_or keeps_of_res sur_fail_with runNode_db keeps_bind keeps_wrapping
        sur_CommitNodeAtom sur_checkRunComplete atom_of_run_node)
  note rest = this
  show ?thesis
    unfolding handleNode_def Let_def
  proof (rule keeps_try_or_result)
    fix sj' s s' assume "assembled sj s = (Inr sj', s')"
    then have "of_run run sj'" using assms(1) assembled_of_run by blast
    then show "keeps (sur claimed run r) (try_or (of_res (resolveDedupeKey w sj'))
        (fail_with w sj' claimed (''worker: node '' @ job_tag sj claimed)) (\<lambda>key.
      try_or (runNode w sj' key) (fail_with w sj' claimed (''worker: node '' @ job_tag sj claimed)) (\<lambda>out.
      seq (wrapping (''worker: commit node '' @ job_tag sj' claimed) (CommitNodeAtom (node_atom_of w sj' claimed key out)))
        (checkRunComplete w sj'))))" by (rule rest)
  qed (intro keeps_assembled sur_fail_with assms)+
qed

lemma sur_set_rejoins:
  assumes "accounted w claimed run"
  shows "keeps (sur claimed run r) (set_rejoins w claimed body n sj rs)"
  using assms
  by (induction rs arbitrary: sj)
     (auto simp: SetRunDepsRemaining_def intro!: keeps_try_or sur_fail_with keeps_wrapping keeps_exec_sql surplus_same)

lemma set_rejoins_run:
  "set_rejoins w claimed body n sj rs s = (Inr sj', s') \<Longrightarrow> RunID (nj sj') = RunID (nj sj)"
proof (induction rs arbitrary: sj s)
  case (Cons r rs)
  from Cons.prems show ?case
    by (auto elim!: try_or_Inr dest!: Cons.IH simp: mark_rejoin_def)
qed (simp add: sm_eval)

lemma keeps_bind_result:
  assumes "keeps f m" "\<And>a s s'. m s = (Inr a, s') \<Longrightarrow> keeps f (k a)"
  shows "keeps f (bind m k)"
proof (unfold keeps_def, rule allI)
  fix s
  show "f (snd (bind m k s)) = f s"
    using assms(1) assms(2) [of s] unfolding keeps_def bind_def
    by (cases "m s"; cases "fst (m s)") (auto, metis snd_conv, metis snd_conv)
qed

lemma sur_handleForeach:
  assumes "of_run run sj" "accounted w claimed run"
  shows "keeps (sur claimed run r) (handleForeach w sj claimed)"
  unfolding handleForeach_def
  by (intro keeps_try_or keeps_option keeps_bind_result runs_db_free sur_fail_with keeps_throw sur_set_rejoins
      sur_checkRunComplete sur_CommitNodeAtom atom_of_run_foreach assms)
     (use assms in \<open>auto dest!: set_rejoins_run simp: of_run_def\<close>)

section \<open>Samples\<close>

text \<open>A worker whose subprocesses all answer with the same value.\<close>

definition test_worker :: "value \<Rightarrow> worker" where
  "test_worker v = \<lparr> wk_queue = ''nodes'', wk_resolver = NewResolver None None, wk_secretRetries = 3,
     wk_maxAttempts = 3, wk_runner = (\<lambda>_ _. Inr v), wk_tap = (\<lambda>_. Inr no_output),
     wk_target = (\<lambda>_. Inr \<lparr> gt_consumed = 0, gt_output = '''' \<rparr>),
     wk_mcp = (\<lambda>_. Inr \<lparr> cs_content = '''', cs_data = [], cs_is_error = False \<rparr>), wk_connectors = [],
     wk_onDone = None, wk_onFailed = None, wk_onPoll = None, wk_onRerun = None, wk_types = mechanisms,
     wk_self = ''servitor'', wk_getenv = (\<lambda>_. ''''), wk_eval = (\<lambda>e _. Inr (VStr e)), wk_render = (\<lambda>_. ''''),
     wk_duration = (\<lambda>_. Inr 60000000000), wk_rfc3339 = (\<lambda>_. Inr 5000),
     wk_call_result = (\<lambda>_. \<lparr> cs_content = '''', cs_data = [], cs_is_error = False \<rparr>) \<rparr>"

definition sample_job :: "string \<Rightarrow> string \<Rightarrow> string list \<Rightarrow> node_job list \<Rightarrow> node_job" where
  "sample_job typ_name node deps ds = NodeJob (no_fields\<lparr> RunID := ''r1'', WorkflowID := ''orders'', NodeID := node,
     NodeName := node, NodeType := typ_name, Command := [''run''], Dependents := deps \<rparr>) ds None"

definition claim_of :: "node_job \<Rightarrow> jjob" where
  "claim_of j = \<lparr> j_id = 7, j_worker = ''w1'', j_attempts = 1, j_payload = Inr j \<rparr>"

definition running_db :: "int \<Rightarrow> (string \<times> int) list \<Rightarrow> jdb" where
  "running_db pending deps = empty_db\<lparr> db_runs := [(''r1'', \<lparr> rr_workflow = ''orders'', rr_status = RunRunning,
       rr_pending = pending, rr_created = 0 \<rparr>)],
     db_deps := map (\<lambda>(n, k). ((''r1'', n), k)) deps \<rparr>"

lemma quiet_test_worker [simp]: "quiet (test_worker v)" "keeps_dedupe (test_worker v)"
    "accounted (test_worker v) c run"
  by (simp_all add: quiet_def keeps_dedupe_def accounted_def test_worker_def)

lemma handled: "\<not> isl (fst m) \<Longrightarrow> m = (Inr (), snd m)" for m :: "unit res \<times> 'a"
  by (cases m; cases "fst m") auto

end
