(* ===== verification/NodeLaws.thy ===== *)
theory NodeLaws
  imports WorkerLaws
begin

text \<open>
  The outcomes of one claimed job: a finished run's job is only acked, a dedupe key runs its
  node at most once, and a failed attempt is retried or dead-lettered by the policy of
  worker.go's recordFailure.
\<close>

section \<open>What must not run\<close>




definition keyed_job :: node_job where
  "keyed_job = set_nj (\<lambda>f. f\<lparr> DedupeKey := ''event.id'' \<rparr>) (sample_job ''shell'' ''charge'' [] [])"


section \<open>Failures\<close>

lemma does_CommitNodeAtom:
  "calm s \<Longrightarrow> atom_ready a s \<Longrightarrow> distinct (na_dependents a) \<Longrightarrow>
     CommitNodeAtom a s = (Inr (), s\<lparr> w_db := atom_spec a (w_db s) \<rparr>)"
  using does_WithTx [OF _ atom_body_total] by (simp add: CommitNodeAtom_def does_def)

lemma encodable_failure [simp]: "encodable (failure_result e)"
  by (simp add: failure_result_def encodable_def)

definition failed_db :: "worker \<Rightarrow> node_job \<Rightarrow> err \<Rightarrow> jdb \<Rightarrow> jdb" where
  "failed_db w sj e d = d\<lparr>
     db_results := upsert (RunID (nj sj), NodeID (nj sj)) (failure_result e) (db_results d),
     db_dedupe := put_dedupe (failed_dedupe w sj (failure_result e)) (db_dedupe d) \<rparr>"

lemma lower_Nil [simp]: "lower r [] t = t" by (simp add: lower_def)

lemma commitFailed_calm:
  assumes "calm s"
  shows "commitFailed w sj (failure_result e) s = (Inr (), s\<lparr> w_db := failed_db w sj e (w_db s) \<rparr>)"
proof -
  let ?a = "\<lparr> na_run = RunID (nj sj), na_node = NodeID (nj sj), na_result = failure_result e,
     na_dedupe = failed_dedupe w sj (failure_result e), na_dependents = [], na_downstream = [], na_job = None, na_singer = None \<rparr>"
  have "\<forall>r. failed_dedupe w sj (failure_result e) = Some r \<longrightarrow> encodable (dr_value r)"
    by (auto simp: failed_dedupe_def split: if_splits sum.splits)
  then have "atom_ready ?a s" by (simp add: atom_ready_def)
  then have "CommitNodeAtom ?a s = (Inr (), s\<lparr> w_db := atom_spec ?a (w_db s) \<rparr>)"
    using does_CommitNodeAtom [OF assms] by simp
  then show ?thesis
    by (simp add: commitFailed_def ignore_def atom_spec_def released_def chosen_def enqueue_calls_def put_singer_def failed_db_def)
qed

definition failed_row_of :: "node_job \<Rightarrow> node_job failed_row" where
  "failed_row_of sj = \<lparr> fc_workflow = WorkflowID (nj sj), fc_event = as_obj (map_of (Input (nj sj)) ''event''), fc_payload = sj \<rparr>"

definition dead_db :: "node_job \<Rightarrow> jjob \<Rightarrow> string \<Rightarrow> jdb \<Rightarrow> jdb" where
  "dead_db sj c msg d = put_status (RunID (nj sj)) RunFailed (d\<lparr>
     db_failed := upsert (RunID (nj sj)) (failed_row_of sj) (db_failed d),
     db_calls := db_calls d @ [QFail (j_id c) msg] \<rparr>)"

definition event_encodable :: "node_job \<Rightarrow> bool" where
  "event_encodable sj \<longleftrightarrow> (case as_obj (map_of (Input (nj sj)) ''event'') of None \<Rightarrow> True | Some ev \<Rightarrow> encodable (VObj ev))"

lemma save_calm:
  assumes "calm s" "event_encodable sj"
  shows "saveFailedContinuation sj s = (Inr (), s\<lparr> w_db := (w_db s)\<lparr>
    db_failed := upsert (RunID (nj sj)) (failed_row_of sj) (db_failed (w_db s)) \<rparr> \<rparr>)"
proof -
  let ?c = "\<lparr> fl_run = RunID (nj sj), fl_workflow = WorkflowID (nj sj),
       fl_event = as_obj (map_of (Input (nj sj)) ''event''), fl_payload = sj \<rparr>"
  have "does s (with_option (\<lambda>ev. check_marshal ''honker: marshal failed event: '' (VObj ev)) (fl_event ?c)) () (w_db s)"
    using assms(2) by (auto simp: with_option_def event_encodable_def encodable_iff does_check_marshal split: option.split)
  then have "does s (WriteFailedContinuation ?c) () ((w_db s)\<lparr>
    db_failed := upsert (RunID (nj sj)) (failed_row_of sj) (db_failed (w_db s)) \<rparr>)"
    using assms(1) by (simp add: WriteFailedContinuation_def does_def bind_def failed_row_of_def)
  from does_WithTx [OF assms(1) this] show ?thesis
    by (simp add: saveFailedContinuation_def ignore_def does_def)
qed

lemma dead_letter_calm:
  assumes "calm s" "event_encodable sj" "wk_onFailed w = None"
  shows "dead_letter w sj c msg s = (Inr (), s\<lparr> w_db := dead_db sj c msg (w_db s) \<rparr>)"
  using assms by (simp add: dead_letter_def bind_def save_calm job_Fail_def ignore_def resolveRunFailed_def try_or_apply
      SetRunStatus_def wrapping_def notify_def sm_eval dead_db_def)

text \<open>The policy, as a table: after how many seconds the attempt is retried, or never.\<close>

definition retry_after :: "worker \<Rightarrow> int \<Rightarrow> ekind \<Rightarrow> int option" where
  "retry_after w n kind = (case kind of
      KMissing \<Rightarrow> None
    | KUnreachable \<Rightarrow> if n < wk_secretRetries w then Some (backoffDelay n) else None
    | KStale \<Rightarrow> if n < wk_secretRetries w then Some 0 else None
    | _ \<Rightarrow> if n < wk_maxAttempts w then Some 0 else None)"



text \<open>The backoff of an unreachable source is between one and thirty seconds and never
  shrinks from one attempt to the next; the attempts of a claim start at 1, so the delays are
  2, 4, 8, 16 and then 30 seconds (not 1, 2, 4 as the comment says).\<close>

theorem backoff_bounded:
  "1 \<le> backoffDelay n \<and> backoffDelay n \<le> 30 \<and> backoffDelay n \<le> backoffDelay (n + 1)
   \<and> map backoffDelay [1, 2, 3, 4, 5, 6] = [2, 4, 8, 16, 30, 30]"
proof (intro conjI)
  have m: "(2::int) ^ nat (min n 5) \<le> 2 ^ nat (min (n + 1) 5)"
    by (rule power_increasing) auto
  show "1 \<le> backoffDelay n" "backoffDelay n \<le> 30" by (simp_all add: backoffDelay_def Let_def)
  have "(if 30 < x then 30 else x) \<le> (if 30 < y then 30 else y)" if "x \<le> y" for x y :: int
    using that by auto
  from this [OF m] show "backoffDelay n \<le> backoffDelay (n + 1)" unfolding backoffDelay_def Let_def .
  show "map backoffDelay [1, 2, 3, 4, 5, 6] = [2, 4, 8, 16, 30, 30]" by code_simp
qed

end
