(* ===== verification/RoutingLaws.thy ===== *)
theory RoutingLaws
  imports NodeLaws
begin

text \<open>
  The nodes that route: a switch sends one branch on and the others to be skipped, and a loop
  fans out once per element and waits for all of them at its rejoins.
\<close>

section \<open>Routing\<close>

lemma checkRunComplete_calls:
  assumes "checkRunComplete w sj s = (r, s')" "wk_onDone w = None"
  shows "db_calls (w_db s') = db_calls (w_db s) \<and> db_results (w_db s') = db_results (w_db s)
    \<and> db_deps (w_db s') = db_deps (w_db s)"
proof -
  have "keeps (\<lambda>s. (db_calls (w_db s), db_results (w_db s), db_deps (w_db s))) (checkRunComplete w sj)"
    unfolding checkRunComplete_def RunPending_def RunStatus_def SetRunStatus_def notify_def assms(2) option.case
    by (intro keeps_bind keeps_if keeps_ret keeps_wrapping keeps_query [where f = "\<lambda>d. (db_calls d, db_results d, db_deps d)"]
        keeps_exec_sql [where f = "\<lambda>d. (db_calls d, db_results d, db_deps d)"]) (simp_all add: put_status_def)
  from keepsD [OF this, of s] assms(1) show ?thesis by simp
qed

lemma released_in: "x \<in> set (released a d) \<Longrightarrow> x \<in> set (na_downstream a)"
  unfolding released_def chosen_def by (auto simp: in_set_enumerate_eq)

lemma released_all:
  assumes "list_all (\<lambda>dep. select (na_run a, dep) (db_deps d) = Some 1) (na_dependents a)"
  shows "released a d = na_downstream a"
proof -
  have "filter (\<lambda>(k, _). k < length (na_dependents a) \<longrightarrow> na_dependents a ! k \<in> set (now_ready (na_run a) (na_dependents a) (db_deps d)))
      (enumerate 0 (na_downstream a)) = enumerate 0 (na_downstream a)"
    using assms by (intro filter_True) (auto simp: now_ready_def list_all_iff)
  then show ?thesis by (simp add: released_def chosen_def)
qed

lemma runSwitch_target: "runSwitch w sj s = (Inr target, s') \<Longrightarrow> target \<noteq> ''''"
  by (auto simp: runSwitch_def bind_eq_Inr Let_def sm_eval split: if_splits)


definition fork_job :: node_job where
  "fork_job = sample_job ''switch'' ''fork'' [''left'', ''right''] [sample_job ''shell'' ''left'' [] [], sample_job ''shell'' ''right'' [] []]"


section \<open>Loops\<close>

definition pending_of :: "jdb \<Rightarrow> string \<Rightarrow> int" where
  "pending_of d r = (case select r (db_runs d) of None \<Rightarrow> 0 | Some row \<Rightarrow> rr_pending row)"

lemma runs_checkRunComplete:
  assumes "runs (checkRunComplete w sj) d u d'" "wk_onDone w = None"
  shows "d' = (if pending_of d (RunID (nj sj)) = 0 \<and> status_of d (RunID (nj sj)) \<noteq> RunWaiting
    then put_status (RunID (nj sj)) RunCompleted d else d)"
  using assms unfolding checkRunComplete_def RunPending_def RunStatus_def SetRunStatus_def notify_def pending_of_def
  by (auto dest!: runs_query runs_exec_sql split: if_splits)

definition set_counts :: "string \<Rightarrow> int \<Rightarrow> string list \<Rightarrow> (string \<times> string, int) table \<Rightarrow> (string \<times> string, int) table" where
  "set_counts run n rs t = fold (\<lambda>r. modify_row (run, r) (\<lambda>_. n)) rs t"

lemma select_set_counts:
  "select k (set_counts run n rs t) = (if k \<in> Pair run ` set rs then map_option (\<lambda>_. n) (select k t) else select k t)"
  unfolding set_counts_def by (induction rs arbitrary: t) (auto simp: option.map_comp comp_def)

lemma set_rejoins_success:
  "set_rejoins w c body n sj rs s = (Inr sj', s') \<Longrightarrow>
     w_db s' = (w_db s)\<lparr> db_deps := set_counts (RunID (nj sj)) n rs (db_deps (w_db s)) \<rparr> \<and> nj sj' = nj sj"
proof (induction rs arbitrary: sj s)
  case (Cons r rs)
  from Cons.prems obtain u s1 where 1: "SetRunDepsRemaining (RunID (nj sj)) r n s = (Inr u, s1)"
    and 2: "set_rejoins w c body n (mark_rejoin body sj n r) rs s1 = (Inr sj', s')"
    by (auto elim!: try_or_Inr)
  have "w_db s1 = (w_db s)\<lparr> db_deps := modify_row (RunID (nj sj), r) (\<lambda>_. n) (db_deps (w_db s)) \<rparr>"
  proof -
    have "runs (SetRunDepsRemaining (RunID (nj sj)) r n) (w_db s) u (w_db s1)" using 1 by (rule runsI)
    then show ?thesis by (auto simp: SetRunDepsRemaining_def dest!: runs_exec_sql)
  qed
  then show ?case using Cons.IH [OF 2] by (simp add: mark_rejoin_def set_counts_def)
qed (simp add: sm_eval set_counts_def)

definition body_calls :: "worker \<Rightarrow> node_job \<Rightarrow> node_job \<Rightarrow> value list \<Rightarrow> node_job qcall list" where
  "body_calls w sj body items = map (\<lambda>(i, item). QEnqueue (wk_queue w) (body_job sj body (int i) item) None) (enumerate 0 items)"

lemma foreach_success:
  assumes "handleForeach w sj0 c s = (Inr (), s')" "Body sj0 = Some body" "wk_onDone w = None"
  obtains items sj d where "nj sj = nj sj0"
    "d = (w_db s)\<lparr> db_results := upsert (RunID (nj sj0), NodeID (nj sj0)) (VObj [(''items'', VArr items)]) (db_results (w_db s)),
       db_deps := set_counts (RunID (nj sj0)) (int (length items)) (Rejoins (nj sj0)) (db_deps (w_db s)),
       db_runs := add_pending (RunID (nj sj0)) (int (length items) - 1) (db_runs (w_db s)),
       db_calls := db_calls (w_db s) @ body_calls w sj body items @ [QAck (j_id c) (j_worker c)] \<rparr>"
    "w_db s' = (if pending_of d (RunID (nj sj0)) = 0 \<and> status_of d (RunID (nj sj0)) \<noteq> RunWaiting
       then put_status (RunID (nj sj0)) RunCompleted d else d)"
proof -
  obtain items s1 where run: "runForeach w sj0 s = (Inr items, s1)"
    and r1: "(case Body sj0 of None \<Rightarrow> throw (errorf (''worker: foreach '' @ NodeID (nj sj0) @ '' has no body node''))
     | Some body \<Rightarrow> bind (set_rejoins w c body (int (length items)) sj0 (Rejoins (nj sj0))) (\<lambda>sj.
        try_or (CommitNodeAtom (foreach_atom w sj c body items))
          (fail_with w sj c (''worker: commit foreach '' @ job_tag sj c)) (\<lambda>_. checkRunComplete w sj))) s1 = (Inr (), s')"
    using assms(1) unfolding handleForeach_def by (rule try_or_Inr) simp
  obtain sj s2 where sr: "set_rejoins w c body (int (length items)) sj0 (Rejoins (nj sj0)) s1 = (Inr sj, s2)"
    and r2: "try_or (CommitNodeAtom (foreach_atom w sj c body items))
          (fail_with w sj c (''worker: commit foreach '' @ job_tag sj c)) (\<lambda>_. checkRunComplete w sj) s2 = (Inr (), s')"
    using r1 unfolding assms(2) option.case bind_eq_Inr by blast
  obtain u s3 where com: "CommitNodeAtom (foreach_atom w sj c body items) s2 = (Inr u, s3)"
    and chk: "checkRunComplete w sj s3 = (Inr (), s')"
    using r2 by (rule try_or_Inr) simp
  have s1: "w_db s1 = w_db s" using keepsD [OF runs_db_free(2) [where f = id], of w sj0 s] run by simp
  have s2: "w_db s2 = (w_db s)\<lparr> db_deps := set_counts (RunID (nj sj0)) (int (length items)) (Rejoins (nj sj0)) (db_deps (w_db s)) \<rparr>"
    and same: "nj sj = nj sj0"
    using set_rejoins_success [OF sr] s1 by simp_all
  have rel: "released (foreach_atom w sj c body items) d = na_downstream (foreach_atom w sj c body items)" for d
    by (rule released_all) (simp add: foreach_atom_def)
  have calls: "enqueue_calls (na_downstream (foreach_atom w sj c body items)) = body_calls w sj body items"
    by (simp add: enqueue_calls_def foreach_atom_def body_calls_def case_prod_unfold)
  have "w_db s3 = atom_spec (foreach_atom w sj c body items) (w_db s2)"
    using runs_CommitNodeAtom [OF com] by (simp add: foreach_atom_def)
  then have s3: "w_db s3 = (w_db s)\<lparr> db_results := upsert (RunID (nj sj0), NodeID (nj sj0)) (VObj [(''items'', VArr items)]) (db_results (w_db s)),
       db_deps := set_counts (RunID (nj sj0)) (int (length items)) (Rejoins (nj sj0)) (db_deps (w_db s)),
       db_runs := add_pending (RunID (nj sj0)) (int (length items) - 1) (db_runs (w_db s)),
       db_calls := db_calls (w_db s) @ body_calls w sj body items @ [QAck (j_id c) (j_worker c)] \<rparr>"
    unfolding atom_spec_def rel calls
    by (simp add: s2 same foreach_atom_def put_dedupe_def put_singer_def)
  have "runs (checkRunComplete w sj) (w_db s3) () (w_db s')" using chk by (rule runsI)
  from runs_checkRunComplete [OF this assms(3)] show ?thesis using that [OF same s3] same by simp
qed

lemma enqueued_body_calls:
  "map (\<lambda>q. case q of QEnqueue _ p _ \<Rightarrow> NodeID (nj p) | _ \<Rightarrow> '''') (body_calls w sj body items)
    = map (\<lambda>i. NodeID (nj body) @ ''#'' @ itoa (int i)) [0..<length items]"
proof -
  have "map fst (enumerate 0 items) = [0..<length items]" by simp
  then show ?thesis
    unfolding body_calls_def map_map comp_def case_prod_unfold
    by (simp add: body_job_def flip: map_map [unfolded comp_def, of "\<lambda>i. NodeID (nj body) @ CHR ''#'' # itoa (int i)" fst])
qed


definition loop_job :: node_job where
  "loop_job = NodeJob (no_fields\<lparr> RunID := ''r1'', WorkflowID := ''orders'', NodeID := ''each'', NodeName := ''each'',
     NodeType := ''foreach'', Command := [''run''], BodyAs := ''item'', Rejoins := [''sum''] \<rparr>)
     [sample_job ''shell'' ''sum'' [] []] (Some (sample_job ''shell'' ''charge'' [] []))"


text \<open>A loop over an empty list ends its run early: when the loop is the run's only job in
  flight, its handler completes the run without ever enqueueing the rejoin nodes, whose counts
  are set to zero but never reach zero by a decrement.\<close>

theorem empty_foreach_never_rejoins:
  assumes "handleForeach w sj c s = (Inr (), s')" "Body sj = Some body" "wk_onDone w = None"
    and "select (RunID (nj sj), NodeID (nj sj)) (db_results (w_db s')) = Some (VObj [(''items'', VArr [])])"
    and "map_option rr_pending (select (RunID (nj sj)) (db_runs (w_db s))) = Some 1"
    and "status_of (w_db s) (RunID (nj sj)) = RunRunning"
  shows "status_of (w_db s') (RunID (nj sj)) = RunCompleted
    \<and> db_calls (w_db s') = db_calls (w_db s) @ [QAck (j_id c) (j_worker c)]"
proof -
  obtain items sj1 d where same: "nj sj1 = nj sj"
    and d: "d = (w_db s)\<lparr> db_results := upsert (RunID (nj sj), NodeID (nj sj)) (VObj [(''items'', VArr items)]) (db_results (w_db s)),
       db_deps := set_counts (RunID (nj sj)) (int (length items)) (Rejoins (nj sj)) (db_deps (w_db s)),
       db_runs := add_pending (RunID (nj sj)) (int (length items) - 1) (db_runs (w_db s)),
       db_calls := db_calls (w_db s) @ body_calls w sj1 body items @ [QAck (j_id c) (j_worker c)] \<rparr>"
    and s': "w_db s' = (if pending_of d (RunID (nj sj)) = 0 \<and> status_of d (RunID (nj sj)) \<noteq> RunWaiting
       then put_status (RunID (nj sj)) RunCompleted d else d)"
    using foreach_success [OF assms(1-3)] .
  have "db_results (w_db s') = db_results d" by (simp add: s' put_status_def)
  then have empty: "items = []" using assms(4) by (simp add: d)
  obtain row where row: "select (RunID (nj sj)) (db_runs (w_db s)) = Some row" "rr_pending row = 1" "rr_status row = RunRunning"
    using assms(5,6) by (auto simp: status_of_def)
  have "pending_of d (RunID (nj sj)) = 0" "status_of d (RunID (nj sj)) = RunRunning"
    using row by (simp_all add: d empty pending_of_def status_of_def add_pending_def)
  then show ?thesis using row
    by (simp add: s' status_of_def put_status_def) (simp add: d empty add_pending_def body_calls_def)
qed

theorem empty_foreach_never_rejoins_witness:
  "status_of (w_db (snd (handleForeach (test_worker (VArr [])) loop_job (claim_of loop_job)
      (calm_world (running_db 1 [(''sum'', 1)]))))) ''r1'' = RunCompleted
   \<and> db_calls (w_db (snd (handleForeach (test_worker (VArr [])) loop_job (claim_of loop_job)
      (calm_world (running_db 1 [(''sum'', 1)]))))) = [QAck 7 ''w1'']"
proof -
  let ?w = "test_worker (VArr [])" and ?s = "calm_world (running_db 1 [(''sum'', 1)])"
  let ?h = "handleForeach ?w loop_job (claim_of loop_job) ?s"
  have "\<not> isl (fst ?h)" by code_simp
  then have h: "?h = (Inr (), snd ?h)" by (rule handled)
  have b: "Body loop_job = Some (sample_job ''shell'' ''charge'' [] [])" by (simp add: loop_job_def)
  have o: "wk_onDone ?w = None" by (simp add: test_worker_def)
  have ids: "RunID (nj loop_job) = ''r1''" "NodeID (nj loop_job) = ''each''" by (simp_all add: loop_job_def)
  have "select (''r1'', ''each'') (db_results (w_db (snd ?h))) = Some (VObj [(''items'', VArr [])])" by code_simp
  moreover have "map_option rr_pending (select ''r1'' (db_runs (w_db ?s))) = Some 1" by code_simp
  moreover have "status_of (w_db ?s) ''r1'' = RunRunning" by code_simp
  ultimately show ?thesis
    using empty_foreach_never_rejoins [OF h b o, unfolded ids] by (simp add: claim_of_def running_db_def empty_db_def)
qed

end
