(* ===== verification/SuspendLaws.thy ===== *)
theory SuspendLaws
  imports WorkerLaws "HOL-Library.Multiset"
begin

text \<open>
  Parking and waking: the transactions of suspend.go as functions of the database, the accounts
  of the pending count across every handler, and the laws of signals: a wait is woken once,
  a signal that arrives before the wait has the same effect as one that arrives after it, and
  an ambiguous signal changes nothing.
\<close>

section \<open>Parking and waking as functions of the database\<close>

definition fan_spec :: "string \<Rightarrow> string list \<Rightarrow> node_job downstream list \<Rightarrow> jdb \<Rightarrow> jdb" where
  "fan_spec r deps ds d = d\<lparr> db_deps := lower r deps (db_deps d),
     db_calls := db_calls d @ enqueue_calls (chosen deps (now_ready r deps (db_deps d)) 0 ds) \<rparr>"

definition fan_count :: "string \<Rightarrow> string list \<Rightarrow> node_job downstream list \<Rightarrow> jdb \<Rightarrow> int" where
  "fan_count r deps ds d = int (length (chosen deps (now_ready r deps (db_deps d)) 0 ds))"

lemma runs_FanOut:
  assumes "runs (FanOut r deps ds) d n d'" "distinct deps"
  shows "d' = fan_spec r deps ds d \<and> n = fan_count r deps ds d"
proof -
  obtain ready d1 where 1: "runs (if deps \<noteq> [] then decrementDependents r deps else ret []) d ready d1"
    and 2: "runs (enqueue_ready deps ready 0 ds) d1 n d'"
    using assms(1) unfolding FanOut_def by blast
  from runs_fan_out [OF 1 assms(2)] runs_enqueue_ready [OF 2]
  show ?thesis by (simp add: fan_spec_def fan_count_def)
qed

definition parked_row :: "node_job \<Rightarrow> string \<Rightarrow> int \<Rightarrow> wait_continuation res susp_row" where
  "parked_row sj signalName runAt = \<lparr> su_workflow = WorkflowID (nj sj), su_signal = nullable signalName,
     su_run_at = nullableInt runAt, su_payload = Inr (wait_of sj) \<rparr>"

definition ack_call :: "jjob \<Rightarrow> node_job qcall" where
  "ack_call claimed = QAck (j_id claimed) (j_worker claimed)"

definition park_spec :: "string \<Rightarrow> node_job \<Rightarrow> jjob \<Rightarrow> string \<Rightarrow> int \<Rightarrow> jdb \<Rightarrow> jdb" where
  "park_spec queue sj claimed signalName runAt d = (put_status (RunID (nj sj)) RunWaiting d)\<lparr>
     db_suspended := upsert (RunID (nj sj), NodeID (nj sj)) (parked_row sj signalName runAt) (db_suspended d),
     db_calls := db_calls d @ ack_call claimed #
       (if runAt \<noteq> 0 then [QEnqueue queue (resume_job sj) (Some runAt)] else []),
     db_runs := add_pending (RunID (nj sj)) (- 1) (db_runs (put_status (RunID (nj sj)) RunWaiting d)) \<rparr>"

lemma runs_park: "runs (park w sj claimed signalName runAt) d u d' \<Longrightarrow>
    d' = park_spec (wk_queue w) sj claimed signalName runAt d"
  unfolding park_def WriteContinuation_def SetRunStatusTx_def Tx_EnqueueAt_def
  by (auto simp: park_spec_def parked_row_def ack_call_def put_status_def
      dest!: runs_exec_sql runs_Tx_Ack runs_AdjustPending runs_qcall split: if_splits)

definition put_res :: "string \<Rightarrow> string \<Rightarrow> value \<Rightarrow> jdb \<Rightarrow> jdb" where
  "put_res r n v d = d\<lparr> db_results := upsert (r, n) v (db_results d) \<rparr>"

lemma runs_WriteResult: "runs (WriteResult r n v) d u d' \<Longrightarrow> d' = put_res r n v d"
  by (auto simp: WriteResult_def put_result_def put_res_def dest!: runs_check_marshal runs_exec_sql)

definition continue_spec :: "string \<Rightarrow> wait_continuation \<Rightarrow> value \<Rightarrow> jdb \<Rightarrow> jdb" where
  "continue_spec queue wc result d =
     fan_spec (wc_RunID wc) (wc_Dependents wc) (continuation_jobs queue wc result) d"

definition continue_count :: "string \<Rightarrow> wait_continuation \<Rightarrow> value \<Rightarrow> jdb \<Rightarrow> int" where
  "continue_count queue wc result d =
     fan_count (wc_RunID wc) (wc_Dependents wc) (continuation_jobs queue wc result) d"

definition complete_spec :: "string \<Rightarrow> jjob \<Rightarrow> wait_continuation \<Rightarrow> value \<Rightarrow> jdb \<Rightarrow> jdb" where
  "complete_spec queue claimed wc result d =
     (let d1 = continue_spec queue wc result (put_res (wc_RunID wc) (wc_NodeID wc) result d)
      in d1\<lparr> db_calls := db_calls d1 @ [ack_call claimed],
        db_runs := add_pending (wc_RunID wc) (continue_count queue wc result d - 1) (db_runs d) \<rparr>)"

lemma put_res_sel [simp]: "db_deps (put_res r n v d) = db_deps d" "db_runs (put_res r n v d) = db_runs d"
  "db_calls (put_res r n v d) = db_calls d" "db_suspended (put_res r n v d) = db_suspended d"
  by (simp_all add: put_res_def)

lemma fan_spec_sel [simp]: "db_runs (fan_spec r deps ds d) = db_runs d" "db_results (fan_spec r deps ds d) = db_results d"
  "db_suspended (fan_spec r deps ds d) = db_suspended d" "db_signals (fan_spec r deps ds d) = db_signals d"
  by (simp_all add: fan_spec_def)

lemma runs_completeWait:
  assumes "runs (completeWait w claimed wc source payload) d u d'" "distinct (wc_Dependents wc)"
  shows "d' = complete_spec (wk_queue w) claimed wc (resume_result source payload) d"
  using assms(1) unfolding completeWait_def Let_def fanOutContinuation_def
  by (auto dest!: runs_WriteResult runs_FanOut [OF _ assms(2)] runs_Tx_Ack runs_AdjustPending
      simp: complete_spec_def continue_spec_def continue_count_def fan_count_def ack_call_def Let_def)

definition wake_spec :: "string \<Rightarrow> string \<Rightarrow> string \<Rightarrow> wait_continuation \<Rightarrow> value \<Rightarrow> jdb \<Rightarrow> jdb" where
  "wake_spec queue runID nodeID wc result d =
     (let d1 = continue_spec queue wc result (put_res runID (wc_NodeID wc) result d);
          rest = delete_row (runID, nodeID) (db_suspended d);
          d2 = d1\<lparr> db_runs := add_pending runID (continue_count queue wc result d) (db_runs d),
             db_suspended := rest \<rparr>
      in if count_rows (\<lambda>k _. fst k = runID) rest = 0 then put_status runID RunRunning d2 else d2)"

lemma runs_resume_tx:
  assumes "runs (resume_tx queue runID nodeID wc result) d u d'" "distinct (wc_Dependents wc)"
  shows "d' = wake_spec queue runID nodeID wc result d"
  using assms(1) unfolding resume_tx_def fanOutContinuation_def DeleteContinuation_def ContinuationCount_def SetRunStatusTx_def
  by (auto dest!: runs_WriteResult runs_FanOut [OF _ assms(2)] runs_AdjustPending runs_exec_sql runs_query
      simp: wake_spec_def continue_spec_def continue_count_def fan_count_def Let_def split: if_splits)

lemma runs_TakeBufferedSignal:
  "runs (TakeBufferedSignal name) d found d' \<Longrightarrow> found = oldest_signal name d \<and>
     d' = (case found of None \<Rightarrow> d | Some p \<Rightarrow> drop_signals name p d)"
  unfolding TakeBufferedSignal_def by (auto dest!: runs_query runs_exec_sql split: option.splits)

text \<open>The two outcomes of a wait's transaction.\<close>

definition wait_spec :: "string \<Rightarrow> node_job \<Rightarrow> jjob \<Rightarrow> string \<Rightarrow> int \<Rightarrow> jdb \<Rightarrow> jdb" where
  "wait_spec queue sj claimed signalName runAt d =
     (case if signalName = '''' then None else oldest_signal signalName d of
        None \<Rightarrow> park_spec queue sj claimed signalName runAt d
      | Some p \<Rightarrow> complete_spec queue claimed (wait_of sj) (resume_result ''signal'' p) (drop_signals signalName p d))"

lemma runs_wait_tx:
  assumes "runs (wait_tx w sj claimed signalName runAt) d u d'" "distinct (Dependents (nj sj))"
  shows "d' = wait_spec (wk_queue w) sj claimed signalName runAt d"
proof -
  have dist: "distinct (wc_Dependents (wait_of sj))" using assms(2) by (simp add: wait_of_def)
  obtain found d1 where 1: "runs (if signalName \<noteq> '''' then TakeBufferedSignal signalName else ret None) d found d1"
    and 2: "runs (case found of Some payload \<Rightarrow> completeWait w claimed (wait_of sj) ''signal'' payload
       | None \<Rightarrow> park w sj claimed signalName runAt) d1 u d'"
    using assms(1) unfolding wait_tx_def by blast
  show ?thesis
  proof (cases "signalName = ''''")
    case True
    then show ?thesis using 1 2 by (simp add: wait_spec_def runs_park)
  next
    case False
    then have "found = oldest_signal signalName d" "d1 = (case found of None \<Rightarrow> d | Some p \<Rightarrow> drop_signals signalName p d)"
      using 1 by (auto dest: runs_TakeBufferedSignal)
    then show ?thesis using 2 False
      by (cases "oldest_signal signalName d") (auto simp: wait_spec_def dest: runs_park runs_completeWait [OF _ dist])
  qed
qed

section \<open>The accounts of waits and signals\<close>

lemma surplus_fan:
  assumes "list_all (\<lambda>x. RunID (nj (ds_payload x)) = run) ds"
  shows "enqueued r (db_calls (fan_spec run deps ds d)) =
      enqueued r (db_calls d) + (if r = run then fan_count run deps ds d else 0)"
    and "acks c (db_calls (fan_spec run deps ds d)) = acks c (db_calls d)"
  using enqueued_calls [OF list_all_chosen [OF assms]]
  by (simp_all add: fan_spec_def fan_count_def)

definition wait_of_run :: "string \<Rightarrow> wait_continuation \<Rightarrow> bool" where
  "wait_of_run run wc \<longleftrightarrow> wc_RunID wc = run \<and> distinct (wc_Dependents wc)
     \<and> list_all (\<lambda>d. RunID (nj d) = run) (wc_Downstream wc)"

lemma wait_of_run_of: "of_run run sj \<Longrightarrow> wait_of_run run (wait_of sj)"
  by (simp add: wait_of_run_def of_run_def wait_of_def)

lemma continuation_jobs_run:
  "wait_of_run run wc \<Longrightarrow> list_all (\<lambda>x. RunID (nj (ds_payload x)) = run) (continuation_jobs queue wc v)"
  by (simp add: wait_of_run_def continuation_jobs_def list_all_iff)

lemma select_add_pending: "select r (add_pending run n t) =
    (if r = run then map_option (\<lambda>row. row\<lparr> rr_pending := rr_pending row + n \<rparr>) (select r t) else select r t)"
  by (simp add: add_pending_def)

lemma surplus_complete:
  assumes "wait_of_run run wc"
  shows "surplus claimed (r = run) r (complete_spec queue claimed wc v d) = surplus claimed (r = run) r d"
  using assms surplus_fan(1) [OF continuation_jobs_run [OF assms], of r "wc_Dependents wc" queue v
      "put_res (wc_RunID wc) (wc_NodeID wc) v d"]
    surplus_fan(2) [OF continuation_jobs_run [OF assms], of claimed "wc_Dependents wc" queue v
      "put_res (wc_RunID wc) (wc_NodeID wc) v d"]
  by (cases "select r (db_runs d)")
     (auto simp: surplus_def complete_spec_def Let_def continue_spec_def continue_count_def fan_count_def
       select_add_pending wait_of_run_def ack_call_def)

lemma surplus_park:
  assumes "RunID (nj sj) = run"
  shows "surplus claimed (r = run) r (park_spec queue sj claimed name runAt d) = surplus claimed (r = run) r d"
  using assms
  by (cases "select r (db_runs d)")
     (auto simp: surplus_def park_spec_def put_status_def select_add_pending ack_call_def)

lemma surplus_wait:
  assumes "of_run run sj"
  shows "surplus claimed (r = run) r (wait_spec queue sj claimed name runAt d) = surplus claimed (r = run) r d"
proof -
  have "surplus claimed (r = run) r (drop_signals name p d) = surplus claimed (r = run) r d" for p
    by (rule surplus_same) (simp_all add: drop_signals_def)
  moreover have "RunID (nj sj) = run" using assms by (simp add: of_run_def)
  ultimately show ?thesis
    by (cases "oldest_signal name d")
       (simp_all add: wait_spec_def surplus_park surplus_complete [OF wait_of_run_of [OF assms]])
qed

lemma sur_handleWait:
  assumes "of_run run sj" "accounted w claimed run"
  shows "keeps (sur claimed run r) (handleWait w sj claimed)"
proof -
  have "keeps (sur claimed run r) (WithTx (wait_tx w sj claimed name runAt))" for name runAt
    using assms(1) by (intro keeps_WithTx) (metis runs_wait_tx surplus_wait of_run_def)
  then show ?thesis
    unfolding handleWait_def Let_def
    by (intro keeps_try_or runs_db_free sur_fail_with sur_checkRunComplete assms)
qed

text \<open>Every parked wait belongs to its run.\<close>

definition parked_ok :: "jdb \<Rightarrow> bool" where
  "parked_ok d \<longleftrightarrow> (\<forall>((r, n), row)\<in>set (db_suspended d). \<forall>wc. su_payload row = Inr wc \<longrightarrow> wait_of_run r wc)"

lemma surplus_wake:
  assumes "wait_of_run i wc"
  shows "surplus claimed own r (wake_spec queue i n wc v d) = surplus claimed own r d"
  using assms surplus_fan(1) [OF continuation_jobs_run [OF assms], of r "wc_Dependents wc" queue v
      "put_res i (wc_NodeID wc) v d"]
    surplus_fan(2) [OF continuation_jobs_run [OF assms], of claimed "wc_Dependents wc" queue v
      "put_res i (wc_NodeID wc) v d"]
  by (cases "select r (db_runs d)")
     (auto simp: surplus_def wake_spec_def Let_def continue_spec_def continue_count_def fan_count_def
       put_status_def select_add_pending wait_of_run_def)

lemma query_apply: "query f s = (r, s') \<Longrightarrow> w_db s' = w_db s \<and> (\<forall>a. r = Inr a \<longrightarrow> a = f (w_db s))"
  using query_db [of f s r s'] runs_query [OF runsI, of f s _ s'] by (cases r) auto

lemma sur_resumeInstance:
  assumes "parked_ok (w_db s)"
  shows "surplus claimed (r = run) r (w_db (snd (resumeInstance queue i n source p s))) = surplus claimed (r = run) r (w_db s)"
proof -
  obtain st s1 where q1: "RunStatus i s = (st, s1)" by fastforce
  have d1: "w_db s1 = w_db s" using q1 query_apply unfolding RunStatus_def by fastforce
  show ?thesis
  proof (cases st)
    case (Inl e)
    then show ?thesis using q1 d1 by (simp add: resumeInstance_def or_nothing_def try_or_apply sm_eval)
  next
    case st: (Inr status)
    obtain f s2 where q2: "GetContinuation i n s1 = (f, s2)" by fastforce
    have d2: "w_db s2 = w_db s" using q2 d1 query_apply unfolding GetContinuation_def by fastforce
    have 1: "resumeInstance queue i n source p s = (if status \<noteq> RunWaiting then ret ()
      else or_nothing (GetContinuation i n) (\<lambda>found. case found of
        None \<Rightarrow> ret ()
      | Some cont \<Rightarrow>
         bind (wrapping (''worker: resume '' @ i @ ''/'' @ n @ '': decode continuation: '') (of_res (co_payload cont))) (\<lambda>wc.
         WithTx (resume_tx queue i n wc (resume_result source p))))) s1"
      using q1 st by (simp add: resumeInstance_def or_nothing_def try_or_apply)
    show ?thesis
    proof (cases "status = RunWaiting \<and> (\<exists>cont wc. f = Inr (Some cont) \<and> co_payload cont = Inr wc)")
      case False
      then show ?thesis using 1 q2 d1 d2
        by (auto simp: or_nothing_def try_or_apply sm_eval bind_def wrapping_def split: sum.split option.split)
    next
      case True
      then obtain cont wc where f: "f = Inr (Some cont)" and wc: "co_payload cont = Inr wc" by blast
      have "f = Inr (case select (i, n) (db_suspended (w_db s)) of None \<Rightarrow> None
          | Some r \<Rightarrow> Some \<lparr> co_run = i, co_node = n, co_workflow = su_workflow r,
            co_signal = (case su_signal r of None \<Rightarrow> '''' | Some s \<Rightarrow> s),
            co_run_at = (case su_run_at r of None \<Rightarrow> 0 | Some n \<Rightarrow> n), co_payload = su_payload r \<rparr>)"
        using q2 query_apply [of _ s1 f s2] d1 f unfolding GetContinuation_def by fastforce
      then obtain row where row: "select (i, n) (db_suspended (w_db s)) = Some row" "su_payload row = Inr wc"
        using f wc by (auto split: option.splits)
      then have ok: "wait_of_run i wc" using assms by (auto simp: parked_ok_def select_def dest!: map_of_SomeD)
      then have k: "keeps (\<lambda>s. surplus claimed (r = run) r (w_db s)) (WithTx (resume_tx queue i n wc (resume_result source p)))"
        by (intro keeps_WithTx) (auto dest!: runs_resume_tx simp: wait_of_run_def surplus_wake)
      show ?thesis
        using 1 q2 f wc True d2 keepsD [OF k, of s2] by (simp add: or_nothing_def try_or_apply sm_eval bind_def wrapping_def)
    qed
  qed
qed

lemma sur_ResumeBySignal:
  assumes "parked_ok (w_db s)"
  shows "surplus claimed (r = run) r (w_db (snd (ResumeBySignal queue name p s))) = surplus claimed (r = run) r (w_db s)"
proof -
  obtain found s1 where q: "ParkedInstancesForSignal name s = (found, s1)" by fastforce
  have d1: "w_db s1 = w_db s" using q query_apply unfolding ParkedInstancesForSignal_def by fastforce
  have b: "keeps (sur claimed run r) (BufferSignal name p)"
    unfolding BufferSignal_def check_marshal_def
    by (intro keeps_bind keeps_wrapping keeps_of_res keeps_ret keeps_exec_sql) (rule surplus_same; simp)
  show ?thesis
    using q d1 keepsD [OF b, of s1] sur_resumeInstance [of s1 claimed r run queue] assms
    by (auto simp: ResumeBySignal_def bind_def sm_eval split: sum.split list.split prod.split)
qed

lemma after_free:
  assumes "\<And>g :: jdb \<Rightarrow> jdb. keeps (\<lambda>s. g (w_db s)) m" "\<And>e. keeps (\<lambda>s. f (w_db s)) (h e)"
    and "\<And>a s'. w_db s' = w_db s \<Longrightarrow> f (w_db (snd (k a s'))) = f (w_db s)"
  shows "f (w_db (snd (try_or m h k s))) = f (w_db s)"
proof -
  have "w_db (snd (m s)) = w_db s" using keepsD [OF assms(1) [of id], of s] by simp
  then show ?thesis using assms(2,3) by (auto simp: try_or_apply keeps_def split: prod.split sum.split)
qed

lemma sur_complete_node:
  "of_run run sj \<Longrightarrow> accounted w claimed run \<Longrightarrow> keeps (sur claimed run r) (complete_node w sj claimed what v)"
  unfolding complete_node_def
  by (intro keeps_try_or sur_CommitNodeAtom sur_fail_with sur_checkRunComplete atom_of_run_done)

lemma sur_handleSendSignal:
  assumes "of_run run sj" "accounted w claimed run" "parked_ok (w_db s)"
  shows "sur claimed run r (snd (handleSendSignal w sj claimed s)) = sur claimed run r s"
proof (cases "str_or_empty (map_of (Config (nj sj)) ''signal'') = ''''")
  case True
  have "keeps (sur claimed run r) (seq (recordFailure w sj claimed e) (throw e'))" for e and e' :: err
    using assms(2) by (intro keeps_bind sur_recordFailure keeps_throw)
  then show ?thesis unfolding handleSendSignal_def Let_def if_P [OF True] by (rule keepsD)
next
  case False
  let ?pre = "''worker: send-signal '' @ job_tag sj claimed"
  let ?pExpr = "str_or_empty (map_of (Config (nj sj)) ''payload'')"
  have pay: "keeps (\<lambda>s. g (w_db s)) (if ?pExpr \<noteq> '''' then evalExpression w sj ?pExpr else ret VNull)" for g :: "jdb \<Rightarrow> jdb"
    by (intro keeps_if runs_db_free keeps_ret)
  have last: "sur claimed run r (snd (try_or (ResumeBySignal (wk_queue w) name p) (fail_with w sj claimed ?pre)
      (\<lambda>_. complete_node w sj claimed ''send-signal'' v) s')) = sur claimed run r s"
    if "w_db s' = w_db s" for name p v s'
  proof -
    obtain r0 s2 where e: "ResumeBySignal (wk_queue w) name p s' = (r0, s2)" by fastforce
    have "sur claimed run r s2 = sur claimed run r s"
      using sur_ResumeBySignal [of s' claimed r run "wk_queue w" name p] e that assms(3) by simp
    then show ?thesis
      using keepsD [OF sur_complete_node [OF assms(1,2), of r], of _ _ s2] keepsD [OF sur_fail_with [OF assms(2), of r], of _ _ _ s2] e
      by (cases r0) (simp_all add: try_or_apply)
  qed
  show ?thesis
    unfolding handleSendSignal_def Let_def if_not_P [OF False]
  proof (rule after_free [where f = "surplus claimed (r = run) r"])
    fix v and s1 :: jworld assume s1: "w_db s1 = w_db s"
    let ?name = "stringify (wk_render w) v"
    have "sur claimed run r (snd (try_or (if ?pExpr \<noteq> '''' then evalExpression w sj ?pExpr else ret VNull)
        (fail_with w sj claimed (?pre @ ''payload: '')) (\<lambda>payload.
        try_or (ResumeBySignal (wk_queue w) ?name payload) (fail_with w sj claimed ?pre)
          (\<lambda>_. complete_node w sj claimed ''send-signal'' (VObj [(''ok'', VBool True), (''signal'', VStr ?name)]))) s1))
      = sur claimed run r s1"
      using last s1 by (intro after_free pay sur_fail_with assms) simp
    then show "sur claimed run r (snd (try_or (if ?pExpr \<noteq> '''' then evalExpression w sj ?pExpr else ret VNull)
        (fail_with w sj claimed (?pre @ ''payload: '')) (\<lambda>payload.
        try_or (ResumeBySignal (wk_queue w) ?name payload) (fail_with w sj claimed ?pre)
          (\<lambda>_. complete_node w sj claimed ''send-signal'' (VObj [(''ok'', VBool True), (''signal'', VStr ?name)]))) s1))
      = sur claimed run r s" using s1 by simp
  qed (intro runs_db_free sur_fail_with assms)+
qed

lemma sur_handleRerunFailed:
  assumes "of_run run sj" "accounted w claimed run"
  shows "keeps (sur claimed run r) (handleRerunFailed w sj claimed)"
proof -
  have "keeps (sur claimed run r) (case wk_onRerun w of None \<Rightarrow> ret () | Some f \<Rightarrow> f i m)" for i m
    using assms(2) by (auto simp: accounted_def intro!: keeps_option keeps_ret)
  then show ?thesis
    unfolding handleRerunFailed_def Let_def
    by (intro keeps_try_or keeps_if keeps_bind runs_db_free keeps_ret sur_fail_with sur_complete_node assms)
qed

lemma sur_dispatch:
  assumes "of_run run sj" "accounted w claimed run" "parked_ok (w_db s)" "NodeType (nj sj) \<noteq> ''poll''"
  shows "sur claimed run r (snd (dispatch w sj claimed s)) = sur claimed run r s"
  using assms(4) sur_handleSendSignal [OF assms(1-3)] keepsD [OF sur_handleSkip [OF assms(1,2)]]
    keepsD [OF sur_handleWait [OF assms(1,2)]] keepsD [OF sur_handleRerunFailed [OF assms(1,2)]]
    keepsD [OF sur_handleSwitch [OF assms(1,2)]] keepsD [OF sur_handleForeach [OF assms(1,2)]]
    keepsD [OF sur_handleNode [OF assms(1,2)]]
  by (simp add: dispatch_def)

lemma dispatch_unfinished:
  assumes "j_payload claimed = Inr sj" "NodeType (nj sj) \<noteq> ''resume''"
    and "\<not> finished (status_of (w_db s) (RunID (nj sj)))"
  shows "\<exists>s'. w_db s' = w_db s \<and> handle w claimed s = dispatch w sj claimed s'"
proof -
  obtain r s' where q: "RunStatus (RunID (nj sj)) s = (r, s')" by fastforce
  then have "w_db s' = w_db s" "\<forall>a. r = Inr a \<longrightarrow> a = status_of (w_db s) (RunID (nj sj))"
    using query_apply unfolding RunStatus_def by fastforce+
  then show ?thesis using assms q
    by (cases r) (auto simp: handle_def status_or_empty_def bind_def try_or_apply sm_eval finished_def)
qed



section \<open>When nothing fails\<close>

definition rows_for :: "string \<Rightarrow> string list \<Rightarrow> jdb \<Rightarrow> bool" where
  "rows_for r deps d \<longleftrightarrow> list_all (\<lambda>dep. select (r, dep) (db_deps d) \<noteq> None) deps"

lemma does_FanOut:
  assumes "calm s" "distinct deps" "rows_for r deps (w_db s)"
  shows "does s (FanOut r deps ds) (fan_count r deps ds (w_db s)) (fan_spec r deps ds (w_db s))"
proof -
  obtain ready d1 where 1: "does s (if deps \<noteq> [] then decrementDependents r deps else ret []) ready d1"
  proof (cases "deps = []")
    case True
    with that [of "[]" "w_db s"] show ?thesis by simp
  next
    case False
    with does_decrementDependents [OF assms(1), of deps r] assms(3) that show ?thesis
      by (auto simp: rows_for_def list_all_iff)
  qed
  obtain n d2 where 2: "does (s\<lparr> w_db := d1 \<rparr>) (enqueue_ready deps ready 0 ds) n d2"
    using does_enqueue_ready [of "s\<lparr> w_db := d1 \<rparr>" deps ready 0 ds] assms(1) by auto
  have 3: "does s (FanOut r deps ds) n d2"
    unfolding FanOut_def by (rule does_bind, rule 1, rule 2)
  from runs_FanOut [OF does_runs [OF 3] assms(2)] 3 show ?thesis by simp
qed

lemma does_WriteResult: "calm s \<Longrightarrow> encodable v \<Longrightarrow> does s (WriteResult r n v) () (put_res r n v (w_db s))"
  unfolding WriteResult_def encodable_iff put_result_def
  by (auto simp: does_def bind_def put_res_def does_check_marshal [unfolded does_def])

lemma does_Tx_Ack:
  assumes "calm s" "w_claim_valid s (j_id c) (j_worker c) (db_calls (w_db s))"
  shows "does s (Tx_Ack c) () ((w_db s)\<lparr> db_calls := db_calls (w_db s) @ [ack_call c] \<rparr>)"
  using assms by (simp add: Tx_Ack_def does_def bind_def wrapping_def sm_eval ack_call_def)

lemma does_AdjustPending:
  "calm s \<Longrightarrow> does s (AdjustPending r n) () ((w_db s)\<lparr> db_runs := add_pending r n (db_runs (w_db s)) \<rparr>)"
  unfolding AdjustPending_def add_pending_def does_wrapping by (rule does_exec_sql)

lemma does_complete:
  assumes "calm s" "distinct (wc_Dependents wc)" "rows_for (wc_RunID wc) (wc_Dependents wc) (w_db s)"
    and "encodable (resume_result source p)"
    and "w_claim_valid s (j_id c) (j_worker c) (db_calls (continue_spec (wk_queue w) wc (resume_result source p) (w_db s)))"
  shows "does s (completeWait w c wc source p) () (complete_spec (wk_queue w) c wc (resume_result source p) (w_db s))"
proof -
  let ?v = "resume_result source p"
  let ?d0 = "put_res (wc_RunID wc) (wc_NodeID wc) ?v (w_db s)"
  let ?d1 = "continue_spec (wk_queue w) wc ?v ?d0"
  have fan: "does (s\<lparr> w_db := ?d0 \<rparr>) (fanOutContinuation (wk_queue w) wc ?v) (continue_count (wk_queue w) wc ?v (w_db s)) ?d1"
    using does_FanOut [of "s\<lparr> w_db := ?d0 \<rparr>" "wc_Dependents wc" "wc_RunID wc" "continuation_jobs (wk_queue w) wc ?v"] assms(1-3)
    by (simp add: fanOutContinuation_def continue_spec_def continue_count_def fan_count_def rows_for_def)
  have calls: "db_calls ?d1 = db_calls (continue_spec (wk_queue w) wc ?v (w_db s))"
    by (simp add: continue_spec_def fan_spec_def)
  have ack: "does (s\<lparr> w_db := ?d1 \<rparr>) (Tx_Ack c) () (?d1\<lparr> db_calls := db_calls ?d1 @ [ack_call c] \<rparr>)"
    using does_Tx_Ack [of "s\<lparr> w_db := ?d1 \<rparr>" c] assms(1,5) calls by simp
  have adj: "does (s\<lparr> w_db := ?d1\<lparr> db_calls := db_calls ?d1 @ [ack_call c] \<rparr> \<rparr>)
      (AdjustPending (wc_RunID wc) (continue_count (wk_queue w) wc ?v (w_db s) - 1)) ()
      (complete_spec (wk_queue w) c wc ?v (w_db s))"
    using does_AdjustPending [of "s\<lparr> w_db := ?d1\<lparr> db_calls := db_calls ?d1 @ [ack_call c] \<rparr> \<rparr>" "wc_RunID wc"] assms(1)
    by (simp add: complete_spec_def Let_def continue_spec_def)
  show ?thesis
    unfolding completeWait_def Let_def
    apply (rule does_bind [OF does_WriteResult [OF assms(1,4)]])
    apply (rule does_bind [where d = ?d1]) apply (rule fan)
    apply (rule does_bind [where d = "?d1\<lparr> db_calls := db_calls ?d1 @ [ack_call c] \<rparr>"])
    using ack apply simp
    using adj by simp
qed

lemma does_park:
  assumes "calm s" "w_claim_valid s (j_id c) (j_worker c) (db_calls (w_db s))"
  shows "does s (park w sj c name runAt) () (park_spec (wk_queue w) sj c name runAt (w_db s))"
  using assms
  by (simp add: park_def does_def bind_def wrapping_def sm_eval WriteContinuation_def SetRunStatusTx_def
      Tx_Ack_def AdjustPending_def Tx_EnqueueAt_def park_spec_def parked_row_def ack_call_def put_status_def
      add_pending_def)

lemma does_resume_tx:
  assumes "calm s" "distinct (wc_Dependents wc)" "rows_for (wc_RunID wc) (wc_Dependents wc) (w_db s)"
    and "encodable v"
  shows "does s (resume_tx queue r n wc v) () (wake_spec queue r n wc v (w_db s))"
proof -
  let ?d0 = "put_res r (wc_NodeID wc) v (w_db s)"
  have fan: "does (s\<lparr> w_db := ?d0 \<rparr>) (fanOutContinuation queue wc v) (continue_count queue wc v (w_db s)) (continue_spec queue wc v ?d0)"
    using does_FanOut [of "s\<lparr> w_db := ?d0 \<rparr>" "wc_Dependents wc" "wc_RunID wc" "continuation_jobs queue wc v"] assms(1-3)
    by (simp add: fanOutContinuation_def continue_spec_def continue_count_def fan_count_def rows_for_def)
  note steps = does_WriteResult [OF assms(1,4), of r "wc_NodeID wc", unfolded does_def] fan [unfolded does_def]
  show ?thesis
    using assms(1)
    by (simp add: resume_tx_def does_def bind_def steps wrapping_def sm_eval DeleteContinuation_def ContinuationCount_def
        SetRunStatusTx_def AdjustPending_def wake_spec_def continue_spec_def add_pending_def Let_def)
qed

section \<open>Waking a wait\<close>

definition can_wake :: "jdb \<Rightarrow> string \<Rightarrow> string \<Rightarrow> wait_continuation \<Rightarrow> bool" where
  "can_wake d r n wc \<longleftrightarrow> status_of d r = RunWaiting
     \<and> map_option su_payload (select (r, n) (db_suspended d)) = Some (Inr wc)
     \<and> distinct (wc_Dependents wc) \<and> rows_for (wc_RunID wc) (wc_Dependents wc) d"

lemma resume_calm:
  assumes "calm s" "can_wake (w_db s) r n wc" "encodable (resume_result source p)"
  shows "resumeInstance queue r n source p s =
    (Inr (), s\<lparr> w_db := wake_spec queue r n wc (resume_result source p) (w_db s) \<rparr>)"
proof -
  obtain row where row: "select (r, n) (db_suspended (w_db s)) = Some row" "su_payload row = Inr wc"
    using assms(2) by (auto simp: can_wake_def)
  have tx: "WithTx (resume_tx queue r n wc (resume_result source p)) s =
      (Inr (), s\<lparr> w_db := wake_spec queue r n wc (resume_result source p) (w_db s) \<rparr>)"
    using does_WithTx [OF assms(1) does_resume_tx [OF assms(1)]] assms(2,3) by (simp add: can_wake_def does_def)
  show ?thesis
    using assms(1,2) row tx
    by (simp add: resumeInstance_def or_nothing_def try_or_apply RunStatus_def GetContinuation_def can_wake_def
        wrapping_def bind_def sm_eval)
qed

lemma resume_nothing:
  assumes "calm s" "status_of (w_db s) r \<noteq> RunWaiting \<or> select (r, n) (db_suspended (w_db s)) = None"
  shows "resumeInstance queue r n source p s = (Inr (), s)"
  using assms
  by (auto simp: resumeInstance_def or_nothing_def try_or_apply RunStatus_def GetContinuation_def sm_eval)

lemma wake_spec_gone: "select (r, n) (db_suspended (wake_spec queue r n wc v d)) = None"
  by (simp add: wake_spec_def Let_def put_status_def)

text \<open>C14: A wait is woken at most once: when a run is waiting and the wait is parked, resuming it
  writes the wait's result, fans out its successors, takes the parked row away and, when it was
  the run's last parked wait, sets the run running again; resuming it once more, by a signal or
  by its timer, changes nothing at all.\<close>

theorem resume_wakes_once:
  assumes "calm s" "can_wake (w_db s) r n wc" "encodable (resume_result source p)"
  shows "\<exists>s1. resumeInstance queue r n source p s = (Inr (), s1)
     \<and> s1 = s\<lparr> w_db := wake_spec queue r n wc (resume_result source p) (w_db s) \<rparr>
     \<and> resumeInstance queue r n source' p' s1 = (Inr (), s1)"
proof -
  let ?s1 = "s\<lparr> w_db := wake_spec queue r n wc (resume_result source p) (w_db s) \<rparr>"
  have "resumeInstance queue r n source' p' ?s1 = (Inr (), ?s1)"
    by (rule resume_nothing) (simp_all add: assms(1) wake_spec_gone)
  then show ?thesis using resume_calm [OF assms] by blast
qed

definition gate_job :: node_job where
  "gate_job = sample_job ''wait'' ''gate'' [''next''] [sample_job ''shell'' ''next'' [] []]"

definition gate_db :: jdb where
  "gate_db = (running_db 0 [(''next'', 1)])\<lparr>
     db_runs := [(''r1'', \<lparr> rr_workflow = ''orders'', rr_status = RunWaiting, rr_pending = 0, rr_created = 0 \<rparr>)],
     db_suspended := [((''r1'', ''gate''), parked_row gate_job ''approve'' 0)] \<rparr>"

theorem resume_wakes_once_witness:
  "\<exists>s1. resumeInstance ''nodes'' ''r1'' ''gate'' ''signal'' (VBool True) (calm_world gate_db) = (Inr (), s1)
     \<and> s1 = (calm_world gate_db)\<lparr> w_db := wake_spec ''nodes'' ''r1'' ''gate'' (wait_of gate_job)
         (resume_result ''signal'' (VBool True)) (w_db (calm_world gate_db)) \<rparr>
     \<and> resumeInstance ''nodes'' ''r1'' ''gate'' ''timer'' VNull s1 = (Inr (), s1)"
proof (rule resume_wakes_once)
  show "can_wake (w_db (calm_world gate_db)) ''r1'' ''gate'' (wait_of gate_job)"
    by (simp add: can_wake_def gate_db_def gate_job_def wait_of_def parked_row_def rows_for_def sample_job_def
        running_db_def empty_db_def status_of_def select_def)
  show "encodable (resume_result ''signal'' (VBool True))" by code_simp
qed simp

text \<open>A run that ends in a parked wait is never completed: resuming a wait that nothing
  depends on leaves the run running with no job in flight and enqueues none, so no later step
  can complete it (a signal buffered before the wait parks does complete it).\<close>

theorem resumed_last_wait_leaves_run_running:
  assumes "calm s" "can_wake (w_db s) r n wc" "encodable (resume_result source p)"
    and "wc_Dependents wc = []" "wc_Downstream wc = []"
    and "map_option rr_pending (select r (db_runs (w_db s))) = Some 0"
    and "\<And>m. m \<noteq> n \<Longrightarrow> (r, m) \<notin> fst ` set (db_suspended (w_db s))"
  shows "\<exists>s1. resumeInstance queue r n source p s = (Inr (), s1)
     \<and> status_of (w_db s1) r = RunRunning
     \<and> map_option rr_pending (select r (db_runs (w_db s1))) = Some 0
     \<and> db_calls (w_db s1) = db_calls (w_db s)"
proof -
  let ?s1 = "s\<lparr> w_db := wake_spec queue r n wc (resume_result source p) (w_db s) \<rparr>"
  have none: "count_rows (\<lambda>k _. fst k = r) (delete_row (r, n) (db_suspended (w_db s))) = 0"
    using assms(7) by (force simp: count_rows_0 delete_row_def)
  have run: "resumeInstance queue r n source p s = (Inr (), ?s1)"
    by (rule resume_calm [OF assms(1-3)])
  obtain row where "select r (db_runs (w_db s)) = Some row" "rr_pending row = 0" using assms(6) by auto
  then have "status_of (w_db ?s1) r = RunRunning \<and> map_option rr_pending (select r (db_runs (w_db ?s1))) = Some 0
      \<and> db_calls (w_db ?s1) = db_calls (w_db s)"
    using none assms(4,5)
    by (simp add: wake_spec_def Let_def continue_spec_def continue_count_def fan_spec_def fan_count_def
        continuation_jobs_def chosen_def enqueue_calls_def put_status_def status_of_def select_add_pending)
  with run show ?thesis by blast
qed

definition last_gate_db :: jdb where
  "last_gate_db = gate_db\<lparr> db_suspended := [((''r1'', ''gate''), parked_row (sample_job ''wait'' ''gate'' [] []) ''approve'' 0)] \<rparr>"

theorem resumed_last_wait_leaves_run_running_witness:
  "\<exists>s1. resumeInstance ''nodes'' ''r1'' ''gate'' ''signal'' (VBool True) (calm_world last_gate_db) = (Inr (), s1)
     \<and> status_of (w_db s1) ''r1'' = RunRunning
     \<and> map_option rr_pending (select ''r1'' (db_runs (w_db s1))) = Some 0
     \<and> db_calls (w_db s1) = db_calls (w_db (calm_world last_gate_db))"
proof (rule resumed_last_wait_leaves_run_running)
  show "can_wake (w_db (calm_world last_gate_db)) ''r1'' ''gate'' (wait_of (sample_job ''wait'' ''gate'' [] []))"
    by (simp add: can_wake_def gate_db_def last_gate_db_def wait_of_def parked_row_def rows_for_def sample_job_def
        running_db_def empty_db_def status_of_def select_def)
  show "encodable (resume_result ''signal'' (VBool True))" by code_simp
qed (simp_all add: wait_of_def sample_job_def last_gate_db_def gate_db_def select_def)

section \<open>The race between a signal and its wait\<close>

lemma upsert_absent: "k \<notin> fst ` set t \<Longrightarrow> upsert k v t = t @ [(k, v)]"
  unfolding upsert_def by (induction t) auto

lemma delete_upsert_absent: "k \<notin> fst ` set t \<Longrightarrow> delete_row k (upsert k v t) = t"
  by (force simp: upsert_absent delete_row_def intro!: filter_True)

lemma modify_row_comp: "modify_row k f (modify_row k g t) = modify_row k (f \<circ> g) t"
  by (auto simp: modify_row_def)

lemma modify_row_cong:
  assumes "key_unique t" "select k t = Some row" "f row = g row"
  shows "modify_row k f t = modify_row k g t"
  using assms select_in [of t k] by (auto simp: modify_row_def)

lemma runs_park_wake:
  assumes "key_unique t" "select r t = Some row" "rr_status row = RunRunning"
  shows "modify_row r (\<lambda>x. x\<lparr> rr_status := RunRunning \<rparr>)
      (add_pending r k (add_pending r (- 1) (modify_row r (\<lambda>x. x\<lparr> rr_status := RunWaiting \<rparr>) t)))
    = add_pending r (k - 1) t"
  unfolding add_pending_def modify_row_comp
  by (rule modify_row_cong [OF assms(1,2)]) (use assms(3) in \<open>cases row; simp\<close>)

lemma status_of_put: "status_of (put_status r st d) i = (if i = r \<and> select r (db_runs d) \<noteq> None then st else status_of d i)"
  by (auto simp: status_of_def put_status_def split: option.splits)

lemma status_of_pending: "status_of (d\<lparr> db_runs := add_pending r n t \<rparr>) i = status_of (d\<lparr> db_runs := t \<rparr>) i"
  by (auto simp: status_of_def select_add_pending split: option.splits)

definition race_ready :: "worker \<Rightarrow> node_job \<Rightarrow> jjob \<Rightarrow> string \<Rightarrow> jworld \<Rightarrow> bool" where
  "race_ready w sj c name s \<longleftrightarrow> calm s \<and> name \<noteq> ''''
     \<and> list_all (\<lambda>(i, x, p). x \<noteq> name) (db_signals (w_db s))
     \<and> parked_for name (w_db s) = []
     \<and> key_unique (db_runs (w_db s))
     \<and> map_option rr_status (select (RunID (nj sj)) (db_runs (w_db s))) = Some RunRunning
     \<and> list_all (\<lambda>(k, row). fst k \<noteq> RunID (nj sj)) (db_suspended (w_db s))
     \<and> distinct (Dependents (nj sj)) \<and> rows_for (RunID (nj sj)) (Dependents (nj sj)) (w_db s)"

definition signal_first :: "worker \<Rightarrow> node_job \<Rightarrow> jjob \<Rightarrow> string \<Rightarrow> value \<Rightarrow> unit wsm" where
  "signal_first w sj c name p = seq (ResumeBySignal (wk_queue w) name p) (WithTx (wait_tx w sj c name 0))"

definition wait_first :: "worker \<Rightarrow> node_job \<Rightarrow> jjob \<Rightarrow> string \<Rightarrow> value \<Rightarrow> unit wsm" where
  "wait_first w sj c name p = seq (WithTx (wait_tx w sj c name 0)) (ResumeBySignal (wk_queue w) name p)"

lemma signal_first_calm:
  assumes "race_ready w sj c name s" "encodable p" "encodable (resume_result ''signal'' p)"
    and "\<And>calls. w_claim_valid s (j_id c) (j_worker c) calls"
  shows "signal_first w sj c name p s = (Inr (), s\<lparr> w_db :=
     complete_spec (wk_queue w) c (wait_of sj) (resume_result ''signal'' p)
       ((w_db s)\<lparr> db_signal_seq := db_signal_seq (w_db s) + 1 \<rparr>) \<rparr>)"
proof -
  have calm: "calm s" and name: "name \<noteq> ''''" using assms(1) by (simp_all add: race_ready_def)
  have none: "\<forall>(i, x, p)\<in>set (db_signals (w_db s)). x \<noteq> name" using assms(1) by (simp add: race_ready_def list_all_iff)
  define d1 where "d1 = (w_db s)\<lparr> db_signals := db_signals (w_db s) @ [(db_signal_seq (w_db s) + 1, name, p)],
      db_signal_seq := db_signal_seq (w_db s) + 1 \<rparr>"
  have buf: "ResumeBySignal (wk_queue w) name p s = (Inr (), s\<lparr> w_db := d1 \<rparr>)"
    using does_BufferSignal [OF calm assms(2), of name] assms(1) calm
    by (simp add: ResumeBySignal_def ParkedInstancesForSignal_def bind_def race_ready_def d1_def does_def)
  have old: "filter (\<lambda>(_, x, _). x = name) (db_signals (w_db s)) = []" using none by (auto simp: filter_empty_conv)
  have o: "oldest_signal name d1 = Some p" by (simp add: oldest_signal_def d1_def old)
  have "filter (\<lambda>(_, x, q). \<not> (x = name \<and> json_marshal q = json_marshal p)) (db_signals (w_db s)) = db_signals (w_db s)"
    using none by (auto intro!: filter_True)
  then have drop: "drop_signals name p d1 = (w_db s)\<lparr> db_signal_seq := db_signal_seq (w_db s) + 1 \<rparr>"
    by (simp add: drop_signals_def d1_def)
  have take: "TakeBufferedSignal name (s\<lparr> w_db := d1 \<rparr>) = (Inr (Some p), s\<lparr> w_db := drop_signals name p d1 \<rparr>)"
    using does_TakeBufferedSignal [of "s\<lparr> w_db := d1 \<rparr>" name] calm o by (simp add: does_def)
  have com: "does (s\<lparr> w_db := drop_signals name p d1 \<rparr>) (completeWait w c (wait_of sj) ''signal'' p) ()
      (complete_spec (wk_queue w) c (wait_of sj) (resume_result ''signal'' p) (drop_signals name p d1))"
    using does_complete [of "s\<lparr> w_db := drop_signals name p d1 \<rparr>" "wait_of sj" "''signal''" p c w] assms calm
    by (simp add: race_ready_def wait_of_def rows_for_def drop)
  have tx: "does (s\<lparr> w_db := d1 \<rparr>) (wait_tx w sj c name 0) ()
      (complete_spec (wk_queue w) c (wait_of sj) (resume_result ''signal'' p) (drop_signals name p d1))"
    using com take name by (simp add: wait_tx_def does_def bind_def)
  show ?thesis
    using does_WithTx [OF _ tx] calm buf by (simp add: signal_first_def bind_def does_def drop)
qed

lemma wait_first_calm:
  assumes "race_ready w sj c name s" "encodable (resume_result ''signal'' p)"
    and "\<And>calls. w_claim_valid s (j_id c) (j_worker c) calls"
  shows "wait_first w sj c name p s = (Inr (), s\<lparr> w_db :=
     wake_spec (wk_queue w) (RunID (nj sj)) (NodeID (nj sj)) (wait_of sj) (resume_result ''signal'' p)
       (park_spec (wk_queue w) sj c name 0 (w_db s)) \<rparr>)"
proof -
  let ?r = "RunID (nj sj)" and ?n = "NodeID (nj sj)"
  let ?d = "park_spec (wk_queue w) sj c name 0 (w_db s)"
  have calm: "calm s" and name: "name \<noteq> ''''" using assms(1) by (simp_all add: race_ready_def)
  have none: "\<forall>(i, x, p)\<in>set (db_signals (w_db s)). x \<noteq> name" using assms(1) by (simp add: race_ready_def list_all_iff)
  have o: "oldest_signal name (w_db s) = None" using oldest_signal_none [OF none] .
  have take: "TakeBufferedSignal name s = (Inr None, s)"
    using does_TakeBufferedSignal [OF calm, of name] o by (simp add: does_def)
  have tx: "does s (wait_tx w sj c name 0) () ?d"
    using does_park [OF calm, of c w sj name 0] assms(3) take name by (simp add: wait_tx_def does_def bind_def)
  have park: "WithTx (wait_tx w sj c name 0) s = (Inr (), s\<lparr> w_db := ?d \<rparr>)"
    using does_WithTx [OF calm tx] by (simp add: does_def)
  have absent: "(?r, ?n) \<notin> fst ` set (db_suspended (w_db s))"
    using assms(1) by (force simp: race_ready_def list_all_iff)
  have sus: "db_suspended ?d = db_suspended (w_db s) @ [((?r, ?n), parked_row sj name 0)]"
    using upsert_absent [OF absent] by (simp add: park_spec_def)
  have st: "status_of ?d i = (if i = ?r then RunWaiting else status_of (w_db s) i)" for i
    using assms(1) by (auto simp: park_spec_def status_of_def race_ready_def select_add_pending put_status_def split: option.splits)
  have "filter (\<lambda>(k, row). su_signal row = Some name \<and> status_of ?d (fst k) = RunWaiting) (db_suspended (w_db s))
      = filter (\<lambda>(k, row). su_signal row = Some name \<and> status_of (w_db s) (fst k) = RunWaiting) (db_suspended (w_db s))"
    using assms(1) by (intro filter_cong) (auto simp: st race_ready_def list_all_iff)
  then have parked: "parked_for name ?d = [(?r, ?n)]"
    using assms(1) name by (simp add: parked_for_def sus st race_ready_def parked_row_def nullable_def)
  have sel: "select (?r, ?n) (db_suspended ?d) = Some (parked_row sj name 0)" by (simp add: park_spec_def)
  have deps: "db_deps ?d = db_deps (w_db s)" by (simp add: park_spec_def put_status_def)
  have wake: "can_wake ?d ?r ?n (wait_of sj)"
    using assms(1) by (simp add: can_wake_def st sel deps rows_for_def race_ready_def)
      (simp add: parked_row_def wait_of_def)
  have "resumeInstance (wk_queue w) ?r ?n ''signal'' p (s\<lparr> w_db := ?d \<rparr>)
      = (Inr (), s\<lparr> w_db := wake_spec (wk_queue w) ?r ?n (wait_of sj) (resume_result ''signal'' p) ?d \<rparr>)"
    using resume_calm [of "s\<lparr> w_db := ?d \<rparr>" ?r ?n "wait_of sj" "''signal''" p "wk_queue w"] calm wake assms(2) by simp
  then show ?thesis
    using park parked calm by (simp add: wait_first_def bind_def ResumeBySignal_def ParkedInstancesForSignal_def)
qed



text \<open>A signal wakes at most one wait: with no wait parked on its name it is buffered, with
  exactly one that one is woken, and with more the signal is rejected and nothing changes.\<close>

theorem signal_wakes_at_most_one:
  assumes "calm s" "encodable p"
  shows "case parked_for name (w_db s) of
      [] \<Rightarrow> ResumeBySignal queue name p s = (Inr (), s\<lparr> w_db := (w_db s)\<lparr>
         db_signals := db_signals (w_db s) @ [(db_signal_seq (w_db s) + 1, name, p)],
         db_signal_seq := db_signal_seq (w_db s) + 1 \<rparr> \<rparr>)
    | [(r, n)] \<Rightarrow> ResumeBySignal queue name p s = resumeInstance queue r n ''signal'' p s
    | _ \<Rightarrow> \<exists>e. ResumeBySignal queue name p s = (Inl e, s)"
proof -
  have "ResumeBySignal queue name p s = (case parked_for name (w_db s) of
      [] \<Rightarrow> BufferSignal name p
    | [(r, n)] \<Rightarrow> resumeInstance queue r n ''signal'' p
    | xs \<Rightarrow> throw (errorf (''signal '' @ quote name @ '' is ambiguous: '' @ itoa (int (length xs)) @ '' waits are parked on it''))) s"
    using assms(1) by (simp add: ResumeBySignal_def ParkedInstancesForSignal_def bind_def split: list.split prod.split)
  then show ?thesis
    using does_BufferSignal [OF assms, of name]
    by (auto simp: does_def sm_eval split: list.split)
qed

definition two_gates_db :: jdb where
  "two_gates_db = gate_db\<lparr> db_suspended := [((''r1'', ''gate''), parked_row gate_job ''approve'' 0),
     ((''r1'', ''other''), parked_row gate_job ''approve'' 0)] \<rparr>"

theorem signal_wakes_at_most_one_witness:
  "\<exists>e. ResumeBySignal ''nodes'' ''approve'' (VBool True) (calm_world two_gates_db) = (Inl e, calm_world two_gates_db)"
proof -
  have p: "parked_for ''approve'' two_gates_db = [(''r1'', ''gate''), (''r1'', ''other'')]"
    by (simp add: parked_for_def two_gates_db_def gate_db_def parked_row_def nullable_def status_of_def select_def)
  have "encodable (VBool True)" by code_simp
  from signal_wakes_at_most_one [OF _ this, where name = "''approve''" and queue = "''nodes''" and s = "calm_world two_gates_db"]
  show ?thesis by (simp add: p)
qed

end
