(* ===== verification/RunnerLaws.thy ===== *)
theory RunnerLaws
  imports Runner RoutingLaws SuspendLaws
begin

text \<open>
  What the runner builds and starts: without a loop the payload is the complete tree of the
  graph's dependents, a started run has the counts its jobs need, and the three modes of a
  rerun; and the loops, roots and reruns the code gets wrong.
\<close>

section \<open>The tree of a workflow without loops\<close>

definition dependents_of :: "dag_node list \<Rightarrow> string \<Rightarrow> string list" where
  "dependents_of ds n = map dn_name (filter (\<lambda>d. n \<in> set (dn_depends_on d)) ds)"

text \<open>
  The job of an entry of the run order: the node's own fields, the run id, the names of the
  entries that depend on it in run order and, under the same names, their jobs.
\<close>

fun job_tree :: "capability list \<Rightarrow> string \<Rightarrow> wafer \<Rightarrow> dag_node list \<Rightarrow> string
    \<Rightarrow> (string \<times> value) list \<Rightarrow> node_job \<Rightarrow> bool" where
  "job_tree types self w dag run inp (NodeJob x ds body) \<longleftrightarrow>
     (\<exists>d\<in>set dag. \<exists>f. job_of_node types self w d = Inr f
        \<and> x = f\<lparr> RunID := run, Input := inp, Dependents := dependents_of dag (dn_name d) \<rparr>)
     \<and> map (\<lambda>d. NodeID (nj d)) ds = Dependents x \<and> body = None
     \<and> (\<forall>d\<in>set ds. job_tree types self w dag run [] d)"

lemma idx_by_name_iff:
  assumes "distinct (map dn_name dag)"
  shows "idx_by_name dag n = Some j \<longleftrightarrow> j < length dag \<and> dn_name (dag ! j) = n"
proof -
  have "distinct (map fst (rev (zip (map dn_name dag) [0..<length dag])))"
    using assms by (simp add: rev_map [symmetric])
  then have "idx_by_name dag n = Some j \<longleftrightarrow> (n, j) \<in> set (zip (map dn_name dag) [0..<length dag])"
    by (simp add: idx_by_name_def)
  then show ?thesis
    by (auto simp: in_set_zip intro!: exI [of _ j])
qed

lemma idx_or_0_nth: "distinct (map dn_name dag) \<Longrightarrow> i < length dag \<Longrightarrow> idx_or_0 dag (dn_name (dag ! i)) = i"
  using idx_by_name_iff [of dag "dn_name (dag ! i)" i] by (simp add: idx_or_0_def)

text \<open>The jobs once the arrays of dependents are filled.\<close>

definition with_deps :: "job_fields list \<Rightarrow> string list list \<Rightarrow> build" where
  "with_deps fs arr = \<lparr> b_jobs = map (\<lambda>i. Cell (fs ! i) \<lparr> sl_array = i, sl_len = length (arr ! i) \<rparr> (no_slice i) [] None)
       [0..<length fs], b_arrays = arr \<rparr>"

lemma fresh_with_deps: "fresh_build fs = with_deps fs (map (\<lambda>_. []) fs)"
  by (auto simp: fresh_build_def with_deps_def no_slice_def enumerate_eq_zip intro!: nth_equalityI)

lemma add_dependent_with_deps:
  assumes "distinct (map dn_name dag)" "length fs = length dag" "length arr = length dag"
  shows "add_dependent dag name dep (with_deps fs arr) = with_deps fs
    (case idx_by_name dag dep of None \<Rightarrow> arr | Some j \<Rightarrow> arr[j := arr ! j @ [name]])"
proof (cases "idx_by_name dag dep")
  case (Some j)
  then have "j < length dag" using idx_by_name_iff [OF assms(1)] by blast
  with Some assms show ?thesis
    by (auto simp: add_dependent_def with_deps_def on_job_def nth_list_update intro!: nth_equalityI)
qed (simp add: add_dependent_def)

lemma add_node_with_deps:
  assumes "distinct (map dn_name dag)" "length fs = length dag" "length arr = length dag" "distinct deps"
  shows "fold (add_dependent dag name) deps (with_deps fs arr) = with_deps fs
    (map (\<lambda>i. arr ! i @ (if dn_name (dag ! i) \<in> set deps then [name] else [])) [0..<length dag])"
  using assms(3,4)
proof (induction deps arbitrary: arr)
  case Nil
  have "map (\<lambda>i. arr ! i) [0..<length dag] = arr" by (metis Nil.prems(1) map_nth)
  then show ?case by simp
next
  case (Cons dep deps)
  let ?arr = "case idx_by_name dag dep of None \<Rightarrow> arr | Some j \<Rightarrow> arr[j := arr ! j @ [name]]"
  have len: "length ?arr = length dag" using Cons.prems(1) by (simp split: option.split)
  have step: "?arr ! i = arr ! i @ (if dn_name (dag ! i) = dep then [name] else [])" if i: "i < length dag" for i
  proof (cases "idx_by_name dag dep")
    case None
    then have "dn_name (dag ! i) \<noteq> dep"
      using idx_by_name_iff [OF assms(1), of dep i] i by auto
    then show ?thesis using None by simp
  next
    case (Some j)
    then have j: "j < length dag" "dn_name (dag ! j) = dep" using idx_by_name_iff [OF assms(1)] by blast+
    then have "dn_name (dag ! i) = dep \<longleftrightarrow> i = j"
      using i assms(1) by (metis length_map nth_eq_iff_index_eq nth_map)
    then show ?thesis using Some j Cons.prems(1) by (auto simp: nth_list_update)
  qed
  have "fold (add_dependent dag name) (dep # deps) (with_deps fs arr)
      = fold (add_dependent dag name) deps (with_deps fs ?arr)"
    using add_dependent_with_deps [OF assms(1,2) Cons.prems(1)] by simp
  also have "\<dots> = with_deps fs (map (\<lambda>i. ?arr ! i @ (if dn_name (dag ! i) \<in> set deps then [name] else [])) [0..<length dag])"
    using Cons.IH [OF len] Cons.prems(2) by simp
  also have "\<dots> = with_deps fs (map (\<lambda>i. arr ! i @ (if dn_name (dag ! i) \<in> set (dep # deps) then [name] else [])) [0..<length dag])"
    using step Cons.prems(2) by (intro arg_cong [of _ _ "with_deps fs"]) auto
  finally show ?case .
qed

lemma add_dependents_eq:
  assumes "distinct (map dn_name dag)" "length fs = length dag" "\<forall>d\<in>set dag. distinct (dn_depends_on d)"
  shows "add_dependents dag (fresh_build fs) = with_deps fs (map (\<lambda>d. dependents_of dag (dn_name d)) dag)"
proof -
  have "fold (\<lambda>d. fold (add_dependent dag (dn_name d)) (dn_depends_on d)) ds
      (with_deps fs (map (\<lambda>d. dependents_of es (dn_name d)) dag))
      = with_deps fs (map (\<lambda>d. dependents_of (es @ ds) (dn_name d)) dag)"
    if "\<forall>d\<in>set ds. distinct (dn_depends_on d)" for es ds
    using that
  proof (induction ds arbitrary: es)
    case (Cons d ds)
    let ?arr = "map (\<lambda>d. dependents_of es (dn_name d)) dag"
    have "map (\<lambda>i. ?arr ! i @ (if dn_name (dag ! i) \<in> set (dn_depends_on d) then [dn_name d] else [])) [0..<length dag]
        = map (\<lambda>e. dependents_of (es @ [d]) (dn_name e)) dag"
      by (rule nth_equalityI) (auto simp: dependents_of_def)
    then show ?case
      using add_node_with_deps [OF assms(1,2), of ?arr "dn_depends_on d" "dn_name d"] Cons.prems
        Cons.IH [of "es @ [d]"] by simp
  qed simp
  from this [of dag "[]"] show ?thesis
    using assms(2,3) by (simp add: add_dependents_def fresh_with_deps dependents_of_def map_replicate_const)
qed

lemma foreach_jobs_none: "\<forall>d\<in>set ds. dn_type d \<noteq> ''foreach'' \<Longrightarrow> foreach_jobs dag ds b = Inr b"
  by (induction ds) (simp_all add: foreach_job_def)

text \<open>A cell that carries the complete tree of its dependents.\<close>

fun full_cell :: "job_fields list \<Rightarrow> string list list \<Rightarrow> cell \<Rightarrow> bool" where
  "full_cell fs arr (Cell x dp rj ds bd) \<longleftrightarrow>
     (\<exists>i<length fs. x = fs ! i \<and> dp = \<lparr> sl_array = i, sl_len = length (arr ! i) \<rparr> \<and> rj = no_slice i
        \<and> map (\<lambda>c. NodeID (c_nj c)) ds = arr ! i)
     \<and> bd = None \<and> (\<forall>d\<in>set ds. full_cell fs arr d)"

lemma on_job_on_job: "i < length (b_jobs b) \<Longrightarrow> on_job i f (on_job i g b) = on_job i (f \<circ> g) b"
  by (simp add: on_job_def)

lemma fold_copies:
  assumes "j < length (b_jobs b)" "\<forall>k\<in>set ks. k \<noteq> j"
  shows "fold (\<lambda>k b. on_job j (add_copy (b_jobs b ! k)) b) ks b
    = on_job j (\<lambda>c. fold add_copy (map (\<lambda>k. b_jobs b ! k) ks) c) b"
  using assms
proof (induction ks arbitrary: b)
  case Nil
  then show ?case by (simp add: on_job_def)
next
  case (Cons k ks)
  let ?b = "on_job j (add_copy (b_jobs b ! k)) b"
  have "map (\<lambda>k. b_jobs ?b ! k) ks = map (\<lambda>k. b_jobs b ! k) ks"
    using Cons.prems by (auto simp: on_job_def)
  moreover have "length (b_jobs ?b) = length (b_jobs b)" by (simp add: on_job_def)
  ultimately show ?case
    using Cons.IH [of ?b] Cons.prems by (simp add: on_job_on_job comp_def cong: map_cong)
qed

lemma fold_add_copy: "fold add_copy cs (Cell x dp rj ds bd) = Cell x dp rj (ds @ cs) bd"
  by (induction cs arbitrary: ds) simp_all

text \<open>What the reverse pass keeps: the jobs still to do are as they were, the others complete.\<close>

definition linked :: "job_fields list \<Rightarrow> string list list \<Rightarrow> nat \<Rightarrow> build \<Rightarrow> bool" where
  "linked fs arr m b \<longleftrightarrow> length (b_jobs b) = length fs \<and> b_arrays b = arr
     \<and> (\<forall>i<m. b_jobs b ! i = Cell (fs ! i) \<lparr> sl_array = i, sl_len = length (arr ! i) \<rparr> (no_slice i) [] None)
     \<and> (\<forall>i. m \<le> i \<and> i < length fs \<longrightarrow> full_cell fs arr (b_jobs b ! i) \<and> c_nj (b_jobs b ! i) = fs ! i)"

text \<open>A dependent stands after what it depends on.\<close>

definition forward :: "dag_node list \<Rightarrow> job_fields list \<Rightarrow> string list list \<Rightarrow> bool" where
  "forward dag fs arr \<longleftrightarrow> length arr = length fs
     \<and> (\<forall>i<length fs. \<forall>n\<in>set (arr ! i). i < idx_or_0 dag n \<and> idx_or_0 dag n < length fs
          \<and> NodeID (fs ! idx_or_0 dag n) = n)"

lemma linked_step:
  assumes "forward dag fs arr" "linked fs arr (Suc m) b" "m < length fs"
  shows "linked fs arr m (link_job dag m b)"
proof -
  let ?ks = "map (idx_or_0 dag) (arr ! m)"
  let ?c = "b_jobs b ! m"
  have c: "?c = Cell (fs ! m) \<lparr> sl_array = m, sl_len = length (arr ! m) \<rparr> (no_slice m) [] None"
    and len: "length (b_jobs b) = length fs" and arr: "b_arrays b = arr"
    and full: "\<And>i. m < i \<Longrightarrow> i < length fs \<Longrightarrow> full_cell fs arr (b_jobs b ! i) \<and> c_nj (b_jobs b ! i) = fs ! i"
    using assms(2) by (auto simp: linked_def)
  have fwd: "\<And>n. n \<in> set (arr ! m) \<Longrightarrow> m < idx_or_0 dag n \<and> idx_or_0 dag n < length fs
      \<and> NodeID (fs ! idx_or_0 dag n) = n"
    using assms(1,3) by (auto simp: forward_def)
  have ne: "\<forall>k\<in>set ?ks. k \<noteq> m" using fwd by fastforce
  have "link_job dag m b = fold (\<lambda>k b. on_job m (add_copy (b_jobs b ! k)) b) ?ks b"
    by (simp add: link_job_def slice_elems_def c arr fold_map comp_def)
  also have "\<dots> = on_job m (\<lambda>c. fold add_copy (map (\<lambda>k. b_jobs b ! k) ?ks) c) b"
    by (rule fold_copies) (use assms(3) len ne in auto)
  finally have eq: "link_job dag m b = on_job m (\<lambda>c. fold add_copy (map (\<lambda>k. b_jobs b ! k) ?ks) c) b" .
  have new: "b_jobs (link_job dag m b) ! m = Cell (fs ! m) \<lparr> sl_array = m, sl_len = length (arr ! m) \<rparr>
      (no_slice m) (map (\<lambda>k. b_jobs b ! k) ?ks) None"
    using assms(3) len by (simp add: eq on_job_def c fold_add_copy)
  have names: "map (\<lambda>c. NodeID (c_nj c)) (map (\<lambda>k. b_jobs b ! k) ?ks) = arr ! m"
    using fwd full by (auto intro!: nth_equalityI)
  have "full_cell fs arr (b_jobs (link_job dag m b) ! m)"
    using new names assms(3) fwd full by auto
  then show ?thesis
    using assms(2,3) new full by (auto simp: linked_def eq on_job_def nth_list_update le_less)
qed

lemma linked_all:
  assumes "forward dag fs arr" "linked fs arr m b" "m \<le> length fs"
  shows "linked fs arr 0 (fold (link_job dag) (rev [0..<m]) b)"
  using assms(2,3)
proof (induction m arbitrary: b)
  case (Suc m)
  then show ?case using linked_step [OF assms(1) Suc.prems(1)] by simp
qed simp

lemma link_jobs_full:
  assumes "forward dag fs arr"
  shows "linked fs arr 0 (link_jobs dag (with_deps fs arr))"
proof -
  have "linked fs arr (length fs) (with_deps fs arr)"
    using leD by (auto simp: linked_def with_deps_def)
  from linked_all [OF assms this] show ?thesis
    by (simp add: link_jobs_def with_deps_def)
qed

lemma marshal_jobs_rmap: "marshal_jobs b fuel cs = rmap (marshal_job b fuel) cs"
  by (induction cs) simp_all

lemma marshal_job_Inr:
  assumes "marshal_job b fuel (Cell x dp rj ds None) = Inr j"
  obtains js where "list_all2 (\<lambda>c j. marshal_job b fuel c = Inr j) ds js"
    "j = NodeJob (x\<lparr> Dependents := slice_elems b dp, Rejoins := slice_elems b rj \<rparr>) js None"
  using assms by (auto simp: rbind_eq_Inr marshal_jobs_rmap rmap_eq_Inr)

lemma marshal_NodeID: "marshal_job b fuel c = Inr j \<Longrightarrow> NodeID (nj j) = NodeID (c_nj c)"
  by (cases c) (auto simp: rbind_eq_Inr)

lemma assign_run_nj [simp]: "c_nj (assign_run run c) = (c_nj c)\<lparr> RunID := run \<rparr>"
  by (cases c) simp

lemma job_of_node_fields:
  "job_of_node types self w d = Inr f \<Longrightarrow> Input f = [] \<and> Rejoins f = [] \<and> NodeID f = dn_name d \<and> NodeType f = n_type (w_nodes w ! dn_index d)"
  by (auto simp: job_of_node_def rbind_eq_Inr Let_def no_fields_def)

lemma marshal_full:
  assumes fs: "\<And>i. i < length fs \<Longrightarrow> job_of_node types self w (dag ! i) = Inr (fs ! i)"
    and arr: "b_arrays b = map (\<lambda>d. dependents_of dag (dn_name d)) dag" "length fs = length dag"
  shows "full_cell fs (b_arrays b) c \<Longrightarrow> marshal_job b fuel (assign_run run (set_fields (\<lambda>x. x\<lparr> Input := inp \<rparr>) c)) = Inr j
    \<Longrightarrow> job_tree types self w dag run inp j"
proof (induction c arbitrary: inp j)
  case (Cell x dp rj ds bd)
  obtain i where i: "i < length fs" "x = fs ! i" "dp = \<lparr> sl_array = i, sl_len = length (b_arrays b ! i) \<rparr>"
      "rj = no_slice i" "map (\<lambda>c. NodeID (c_nj c)) ds = b_arrays b ! i"
    and bd: "bd = None" and full: "\<forall>d\<in>set ds. full_cell fs (b_arrays b) d"
    using Cell.prems(1) by auto
  have input: "set_fields (\<lambda>x. x\<lparr> Input := [] \<rparr>) d = d" if d: "d \<in> set ds" for d
  proof (cases d)
    case (Cell y dp' rj' ds' bd')
    have "full_cell fs (b_arrays b) d" using full d by blast
    then obtain k where "k < length fs" "y = fs ! k" unfolding Cell by auto
    then show ?thesis using Cell job_of_node_fields [OF fs, of k] by simp
  qed
  have "marshal_job b fuel (Cell (x\<lparr> Input := inp, RunID := run \<rparr>) dp rj (map (assign_run run) ds) None) = Inr j"
    using Cell.prems(2) by (simp only: set_fields.simps assign_run.simps bd)
  then obtain js where js: "list_all2 (\<lambda>c j. marshal_job b fuel c = Inr j) (map (assign_run run) ds) js"
    and j: "j = NodeJob (x\<lparr> Input := inp, RunID := run, Dependents := slice_elems b dp, Rejoins := slice_elems b rj \<rparr>) js None"
    by (rule marshal_job_Inr) auto
  have dep: "slice_elems b dp = dependents_of dag (dn_name (dag ! i))" "slice_elems b rj = []"
    using i arr by (simp_all add: slice_elems_def no_slice_def)
  have "map (\<lambda>d. NodeID (nj d)) js = map (\<lambda>c. NodeID (c_nj c)) ds"
    using js by (intro nth_equalityI) (auto simp: list_all2_conv_all_nth dest!: marshal_NodeID)
  then have names: "map (\<lambda>d. NodeID (nj d)) js = dependents_of dag (dn_name (dag ! i))"
    using i arr by simp
  have subtrees: "job_tree types self w dag run [] d" if d: "d \<in> set js" for d
  proof -
    obtain k where k: "k < length ds" "d = js ! k"
      using d list_all2_lengthD [OF js] by (auto simp: in_set_conv_nth)
    then have m: "marshal_job b fuel (assign_run run (ds ! k)) = Inr d"
      using list_all2_nthD2 [OF js, of k] list_all2_lengthD [OF js] by simp
    then show ?thesis
      using Cell.IH [of "ds ! k" "[]" d] k full input [of "ds ! k"] by simp
  qed
  have "dag ! i \<in> set dag" using i(1) arr(2) by simp
  moreover have "x\<lparr> Input := inp, RunID := run, Dependents := slice_elems b dp, Rejoins := slice_elems b rj \<rparr>
      = (fs ! i)\<lparr> RunID := run, Input := inp, Dependents := dependents_of dag (dn_name (dag ! i)) \<rparr>"
    using job_of_node_fields [OF fs [OF i(1)]] i(2) by (simp add: dep)
  ultimately have "\<exists>d\<in>set dag. \<exists>f. job_of_node types self w d = Inr f
      \<and> x\<lparr> Input := inp, RunID := run, Dependents := slice_elems b dp, Rejoins := slice_elems b rj \<rparr>
        = f\<lparr> RunID := run, Input := inp, Dependents := dependents_of dag (dn_name d) \<rparr>"
    using fs [OF i(1)] by blast
  then show ?case
    unfolding j job_tree.simps using names dep(1) subtrees by simp
qed

text \<open>The entries of a resolved graph, as ResolveDAG orders them.\<close>

lemma forward_resolved:
  assumes "ResolveDAG w = (dag, [])" "distinct (map dn_name dag)" "length fs = length dag"
    and "\<And>i. i < length fs \<Longrightarrow> job_of_node types self w (dag ! i) = Inr (fs ! i)"
  shows "forward dag fs (map (\<lambda>d. dependents_of dag (dn_name d)) dag)"
proof -
  have "i < idx_or_0 dag n \<and> idx_or_0 dag n < length fs \<and> NodeID (fs ! idx_or_0 dag n) = n"
    if i: "i < length dag" and n: "n \<in> set (dependents_of dag (dn_name (dag ! i)))" for i n
  proof -
    obtain k where k: "k < length dag" "n = dn_name (dag ! k)" "dn_name (dag ! i) \<in> set (dn_depends_on (dag ! k))"
      using n by (auto simp: dependents_of_def in_set_conv_nth)
    then obtain l where l: "l < k" "dn_name (dag ! l) = dn_name (dag ! i)"
      using resolved_order [OF assms(1)] by blast
    moreover have "l < length dag" using l(1) k(1) by simp
    ultimately have "l = i"
      using i nth_eq_iff_index_eq [OF assms(2), of l i] by simp
    moreover have "k < length fs" using k(1) assms(3) by simp
    moreover have "NodeID (fs ! k) = n" using job_of_node_fields [OF assms(4) [OF \<open>k < length fs\<close>]] k(2) by simp
    ultimately show ?thesis
      using l(1) k(2) idx_or_0_nth [OF assms(2) k(1)] by simp
  qed
  then show ?thesis
    using assms(3) by (simp add: forward_def)
qed

text \<open>Every entry's declared dependencies are listed once.\<close>

lemma resolved_distinct: "ResolveDAG w = (dag, []) \<Longrightarrow> \<forall>d\<in>set dag. distinct (dn_depends_on d)"
  using resolved_order [of w dag] by (metis in_set_conv_nth distinct_first_uses)

lemma resolved_type: "ResolveDAG w = (dag, []) \<Longrightarrow> d \<in> set dag \<Longrightarrow> dn_type d = n_type (w_nodes w ! dn_index d) \<and> dn_index d < length (w_nodes w)"
proof -
  assume r: "ResolveDAG w = (dag, [])" and d: "d \<in> set dag"
  have "dn_index d \<in> {..<length (w_nodes w)}" using resolved_order [OF r] d by (metis image_eqI set_map)
  then show ?thesis
    using r d by (auto simp: ResolveDAG_def Let_def dag_node_at_def split: prod.splits if_splits)
qed

lemma FromWafer_Some:
  assumes "ResolveDAG w = (dag, [])" "FromWafer types self w event = Inr (Some p)"
  obtains fs b where "rmap (job_of_node types self w) dag = Inr fs"
    "foreach_jobs dag dag (add_dependents dag (fresh_build fs)) = Inr b"
    "p = (on_job (head_index dag) (set_fields (\<lambda>x. x\<lparr> Input := initial_input event \<rparr>)) (link_jobs dag b), head_index dag)"
    "dag \<noteq> []"
  using assms by (auto simp: FromWafer_def rbind_eq_Inr Let_def split: if_splits)

lemma head_index_less: "dag \<noteq> [] \<Longrightarrow> head_index dag < length dag"
  by (auto simp: head_index_def find_Some_iff split: option.split)

lemma payload_tree:
  assumes "ResolveDAG w = (dag, [])" "distinct (map dn_name dag)" "\<forall>n\<in>set (w_nodes w). n_type n \<noteq> ''foreach''"
    and "FromWafer types self w event = Inr (Some p)" "payload_of p run = Inr j"
  shows "job_tree types self w dag run (initial_input event) j \<and> NodeID (nj j) = dn_name (dag ! head_index dag)"
proof -
  obtain fs b where fs: "rmap (job_of_node types self w) dag = Inr fs"
    and b: "foreach_jobs dag dag (add_dependents dag (fresh_build fs)) = Inr b" and ne: "dag \<noteq> []"
    and p: "p = (on_job (head_index dag) (set_fields (\<lambda>x. x\<lparr> Input := initial_input event \<rparr>)) (link_jobs dag b), head_index dag)"
    by (rule FromWafer_Some [OF assms(1,4)])
  let ?h = "head_index dag" and ?arr = "map (\<lambda>d. dependents_of dag (dn_name d)) dag"
  have len: "length fs = length dag" using fs by (auto simp: rmap_eq_Inr dest: list_all2_lengthD)
  have node: "job_of_node types self w (dag ! i) = Inr (fs ! i)" if "i < length fs" for i
    using fs that len by (simp add: rmap_eq_Inr list_all2_conv_all_nth)
  have "\<forall>d\<in>set dag. dn_type d \<noteq> ''foreach''"
    using resolved_type [OF assms(1)] assms(3) by force
  then have "b = with_deps fs ?arr"
    using b add_dependents_eq [OF assms(2) len resolved_distinct [OF assms(1)]] by (simp add: foreach_jobs_none)
  then have "linked fs ?arr 0 (link_jobs dag b)"
    using link_jobs_full [OF forward_resolved [OF assms(1,2) len node]] by simp
  then have L: "length (b_jobs (link_jobs dag b)) = length fs" "b_arrays (link_jobs dag b) = ?arr"
      "full_cell fs ?arr (b_jobs (link_jobs dag b) ! ?h)" "c_nj (b_jobs (link_jobs dag b) ! ?h) = fs ! ?h"
    using head_index_less [OF ne] len by (auto simp: linked_def)
  let ?c = "set_fields (\<lambda>x. x\<lparr> Input := initial_input event \<rparr>) (b_jobs (link_jobs dag b) ! ?h)"
  let ?b = "(link_jobs dag b)\<lparr> b_jobs := (b_jobs (link_jobs dag b))[?h := assign_run run ?c] \<rparr>"
  have m: "marshal_job ?b (length dag) (assign_run run ?c) = Inr j"
    using assms(5) L(1,2) head_index_less [OF ne] len by (simp add: p payload_of_def Let_def on_job_def)
  have "NodeID (c_nj ?c) = NodeID (fs ! ?h)"
    using L(4) by (cases "b_jobs (link_jobs dag b) ! ?h") simp
  then have "NodeID (nj j) = dn_name (dag ! ?h)"
    using marshal_NodeID [OF m] job_of_node_fields [OF node] head_index_less [OF ne] len by simp
  then show ?thesis
    using marshal_full [OF node _ len, of ?b "b_jobs (link_jobs dag b) ! ?h" "length dag" run "initial_input event" j] L(2,3) m
    by simp
qed

section \<open>Properties of the tree\<close>

lemma job_tree_of_run:
  assumes "distinct (map dn_name dag)" "job_tree types self w dag run inp j"
  shows "of_run run j"
proof -
  obtain x ds where j: "j = NodeJob x ds None"
    using assms(2) by (cases j) auto
  have "distinct (dependents_of dag n)" for n
    using assms(1) unfolding dependents_of_def by (rule distinct_map_filter)
  moreover have "RunID (nj d) = run" if "d \<in> set ds" for d
  proof -
    have "job_tree types self w dag run [] d" using assms(2) that by (simp add: j)
    then show ?thesis by (cases d) auto
  qed
  ultimately show ?thesis
    using assms(2) by (auto simp: j of_run_def list_all_iff)
qed

text \<open>C21: Without a loop and with distinct node names, the payload of a run is the complete tree: each
  job carries its node's fields and the run id, lists as dependents exactly the entries that
  depend on it, in run order, and carries the job of each of them; the head is the first
  entry without dependencies and gets the event. It is a job of its run in the sense the
  accounting of pending jobs requires.\<close>

theorem FromWafer_tree:
  assumes "ResolveDAG w = (dag, [])" "distinct (map dn_name dag)" "\<forall>n\<in>set (w_nodes w). n_type n \<noteq> ''foreach''"
    and "FromWafer types self w event = Inr (Some p)" "payload_of p run = Inr j"
  shows "job_tree types self w dag run (initial_input event) j
    \<and> NodeID (nj j) = dn_name (dag ! head_index dag) \<and> of_run run j"
  using payload_tree [OF assms] job_tree_of_run [OF assms(2)] by blast

definition transform_node :: "string \<Rightarrow> string list \<Rightarrow> node" where
  "transform_node n ds = \<lparr> n_type = ''transform'', n_name = n, n_dedupe_key = '''', n_depends_on = ds,
     n_secrets = [], n_config = [(''expression'', VStr ''1'')] \<rparr>"

definition two_roots :: wafer where
  "two_roots = \<lparr> w_name = ''orders'', w_on = [],
     w_nodes = [transform_node ''a'' [], transform_node ''b'' [], transform_node ''c'' [''a'', ''b'']],
     w_on_failure = '''' \<rparr>"

definition two_roots_job :: node_job where
  "two_roots_job = (case FromWafer mechanisms ''servitor'' two_roots None of
      Inr (Some p) \<Rightarrow> (case payload_of p ''r1'' of Inr j \<Rightarrow> j | Inl e \<Rightarrow> NodeJob no_fields [] None)
    | _ \<Rightarrow> NodeJob no_fields [] None)"

fun jobs_of :: "node_job \<Rightarrow> node_job list" where
  "jobs_of (NodeJob x ds body) = NodeJob x ds body # concat (map jobs_of ds)"

lemma two_roots_evaluated:
  "snd (ResolveDAG two_roots) = []" "distinct (map dn_name (fst (ResolveDAG two_roots)))"
  "\<exists>p. FromWafer mechanisms ''servitor'' two_roots None = Inr (Some p) \<and> payload_of p ''r1'' = Inr two_roots_job"
  "map (\<lambda>j. NodeID (nj j)) (jobs_of two_roots_job) = [''a'', ''c'']"
proof -
  show "snd (ResolveDAG two_roots) = []" "distinct (map dn_name (fst (ResolveDAG two_roots)))"
    "map (\<lambda>j. NodeID (nj j)) (jobs_of two_roots_job) = [''a'', ''c'']" by code_simp+
  have "case FromWafer mechanisms ''servitor'' two_roots None of Inr (Some p) \<Rightarrow> \<not> isl (payload_of p ''r1'') | _ \<Rightarrow> False"
    by code_simp
  then show "\<exists>p. FromWafer mechanisms ''servitor'' two_roots None = Inr (Some p) \<and> payload_of p ''r1'' = Inr two_roots_job"
    by (auto simp: two_roots_job_def isl_def split: sum.splits option.splits)
qed

theorem FromWafer_tree_witness:
  "\<exists>dag. job_tree mechanisms ''servitor'' two_roots dag ''r1'' (initial_input None) two_roots_job
     \<and> NodeID (nj two_roots_job) = dn_name (dag ! head_index dag) \<and> of_run ''r1'' two_roots_job"
proof -
  obtain p where p: "FromWafer mechanisms ''servitor'' two_roots None = Inr (Some p)" "payload_of p ''r1'' = Inr two_roots_job"
    using two_roots_evaluated(3) by blast
  have r: "ResolveDAG two_roots = (fst (ResolveDAG two_roots), [])"
    using two_roots_evaluated(1) by (metis prod.collapse)
  have "\<forall>n\<in>set (w_nodes two_roots). n_type n \<noteq> ''foreach''" by (simp add: two_roots_def transform_node_def)
  from FromWafer_tree [OF r two_roots_evaluated(2) this p] show ?thesis by blast
qed

text \<open>Only one entry point of a workflow runs: of the entries that depend on nothing, only the
  first in run order is in the tree of the run, so any other, and every join that waits for
  it, is never enqueued.\<close>

theorem second_root_never_enqueued:
  assumes "ResolveDAG w = (dag, [])" "distinct (map dn_name dag)" "\<forall>n\<in>set (w_nodes w). n_type n \<noteq> ''foreach''"
    and "FromWafer types self w event = Inr (Some p)" "payload_of p run = Inr j"
    and "d \<in> set dag" "dn_depends_on d = []" "x \<in> set (jobs_of j)" "NodeID (nj x) = dn_name d"
  shows "x = j \<and> d = dag ! head_index dag"
proof -
  have below: "\<exists>e\<in>set dag. dn_name e = NodeID (nj y) \<and> dn_depends_on e \<noteq> []"
    if "job_tree types self w dag run inp k" "y \<in> set (concat (map jobs_of (Downstream k)))" for k inp y
    using that
  proof (induction k arbitrary: inp)
    case (NodeJob x ds body)
    then obtain c where c: "c \<in> set ds" "y \<in> set (jobs_of c)" by auto
    have "NodeID (nj c) \<in> set (Dependents x)" using NodeJob.prems(1) c(1) by (metis image_eqI job_tree.simps set_map)
    then have root: "\<exists>e\<in>set dag. dn_name e = NodeID (nj c) \<and> dn_depends_on e \<noteq> []"
      using NodeJob.prems(1) by (fastforce simp: dependents_of_def)
    have "y = c \<or> y \<in> set (concat (map jobs_of (Downstream c)))" using c(2) by (cases c) auto
    then show ?case
      using root NodeJob.IH(1) [OF c(1)] NodeJob.prems(1) c(1) by auto
  qed
  have tree: "job_tree types self w dag run (initial_input event) j" "NodeID (nj j) = dn_name (dag ! head_index dag)"
    using payload_tree [OF assms(1-5)] by blast+
  have uniq: "e = e'" if "e \<in> set dag" "e' \<in> set dag" "dn_name e = dn_name e'" for e e'
    using assms(2) that by (auto simp: distinct_map inj_on_def)
  have "x = j \<or> x \<in> set (concat (map jobs_of (Downstream j)))" using assms(8) by (cases j) auto
  then have "x = j"
    using below [OF tree(1)] uniq assms(6,7,9) by metis
  moreover have "dag ! head_index dag \<in> set dag"
    using head_index_less [of dag] assms(6) by (metis empty_iff list.set(1) nth_mem)
  ultimately show ?thesis
    using tree(2) uniq assms(6,9) by metis
qed

theorem second_root_never_enqueued_witness:
  "''b'' \<notin> (\<lambda>x. NodeID (nj x)) ` set (jobs_of two_roots_job)"
proof
  assume "''b'' \<in> (\<lambda>x. NodeID (nj x)) ` set (jobs_of two_roots_job)"
  then obtain x where x: "x \<in> set (jobs_of two_roots_job)" "NodeID (nj x) = ''b''" by auto
  obtain p where p: "FromWafer mechanisms ''servitor'' two_roots None = Inr (Some p)" "payload_of p ''r1'' = Inr two_roots_job"
    using two_roots_evaluated(3) by blast
  have r: "ResolveDAG two_roots = (fst (ResolveDAG two_roots), [])"
    using two_roots_evaluated(1) by (metis prod.collapse)
  have f: "\<forall>n\<in>set (w_nodes two_roots). n_type n \<noteq> ''foreach''" by (simp add: two_roots_def transform_node_def)
  let ?dag = "fst (ResolveDAG two_roots)"
  have d: "?dag ! 1 \<in> set ?dag \<and> dn_depends_on (?dag ! 1) = [] \<and> dn_name (?dag ! 1) = ''b''
      \<and> ?dag ! 1 \<noteq> ?dag ! head_index ?dag"
    by code_simp
  then show False
    using second_root_never_enqueued [OF r two_roots_evaluated(2) f p, of "?dag ! 1" x] x by simp
qed

section \<open>Loops lose what follows their rejoin\<close>

definition loop_then_send :: wafer where
  "loop_then_send = \<lparr> w_name = ''orders'', w_on = [], w_nodes =
     [\<lparr> n_type = ''foreach'', n_name = ''loop'', n_dedupe_key = '''', n_depends_on = [], n_secrets = [],
        n_config = [(''over'', VStr ''event.items''), (''body'', VStr ''one'')] \<rparr>,
      transform_node ''one'' [''loop''], transform_node ''sum'' [''one''], transform_node ''send'' [''sum'']],
     w_on_failure = '''' \<rparr>"

definition loop_then_send_job :: node_job where
  "loop_then_send_job = (case FromWafer mechanisms ''servitor'' loop_then_send None of
      Inr (Some p) \<Rightarrow> (case payload_of p ''r1'' of Inr j \<Rightarrow> j | Inl e \<Rightarrow> NodeJob no_fields [] None)
    | _ \<Rightarrow> NodeJob no_fields [] None)"

text \<open>The jobs of a loop's rejoin nodes are copied into the loop before their own downstream is
  built: in a workflow loop, body, sum, send, the job \<^verbatim>\<open>sum\<close> that the bodies release names \<^verbatim>\<open>send\<close> as
  its dependent but carries no job for it, and no job the loop enqueues for any element, nor
  any job below one, is \<^verbatim>\<open>send\<close>: the run completes without it.\<close>

theorem rejoin_successors_lost:
  "\<exists>p r body. snd (ResolveDAG loop_then_send) = []
     \<and> FromWafer mechanisms ''servitor'' loop_then_send None = Inr (Some p)
     \<and> payload_of p ''r1'' = Inr loop_then_send_job
     \<and> rejoinJobs loop_then_send_job = [r] \<and> NodeID (nj r) = ''sum''
     \<and> Dependents (nj r) = [''send''] \<and> Downstream r = []
     \<and> Body loop_then_send_job = Some body \<and> NodeID (nj body) = ''one''
     \<and> (\<forall>i item. set (jobs_of (body_job loop_then_send_job body i item)) \<subseteq> {body_job loop_then_send_job body i item, r})"
proof -
  have ok: "case FromWafer mechanisms ''servitor'' loop_then_send None of Inr (Some p) \<Rightarrow> \<not> isl (payload_of p ''r1'') | _ \<Rightarrow> False"
    by code_simp
  then obtain p where p: "FromWafer mechanisms ''servitor'' loop_then_send None = Inr (Some p)"
      "payload_of p ''r1'' = Inr loop_then_send_job"
    by (auto simp: loop_then_send_job_def isl_def split: sum.splits option.splits)
  have "map (\<lambda>r. (NodeID (nj r), Dependents (nj r), Downstream r)) (rejoinJobs loop_then_send_job) = [(''sum'', [''send''], [])]"
    by code_simp
  then obtain r where r: "rejoinJobs loop_then_send_job = [r]" "NodeID (nj r) = ''sum''"
      "Dependents (nj r) = [''send'']" "Downstream r = []"
    by (auto simp: map_eq_Cons_conv)
  have "map_option (\<lambda>b. NodeID (nj b)) (Body loop_then_send_job) = Some ''one''" by code_simp
  then obtain body where body: "Body loop_then_send_job = Some body" "NodeID (nj body) = ''one''" by auto
  have "snd (ResolveDAG loop_then_send) = []" by code_simp
  moreover have "set (jobs_of (body_job loop_then_send_job body i item)) \<subseteq> {body_job loop_then_send_job body i item, r}" for i item
    using r(1,4) by (cases r) (auto simp: body_job_def)
  ultimately show ?thesis using p r body by blast
qed

section \<open>Starting a run\<close>

lemma does_each_exec:
  "calm w \<Longrightarrow> does w (each (\<lambda>x. wrapping (p x) (exec_sql (g x))) xs) () (fold g xs (w_db w))"
proof (induction xs arbitrary: w)
  case (Cons x xs)
  let ?w = "w\<lparr> w_db := g x (w_db w) \<rparr>"
  have "does w (wrapping (p x) (exec_sql (g x))) () (g x (w_db w))"
    using does_exec_sql [OF Cons.prems] by simp
  moreover have "does ?w (each (\<lambda>x. wrapping (p x) (exec_sql (g x))) xs) () (fold g (x # xs) (w_db w))"
    using Cons.IH [of ?w] Cons.prems by simp
  ultimately show ?case by (simp add: does_bind)
qed simp

lemma fold_db_deps:
  "fold (\<lambda>n d. d\<lparr> db_deps := upsert (k n) (v n) (db_deps d) \<rparr>) ns d
     = d\<lparr> db_deps := fold (\<lambda>n. upsert (k n) (v n)) ns (db_deps d) \<rparr>"
  by (induction ns arbitrary: d) simp_all

definition deps_started :: "string \<Rightarrow> dag_node list \<Rightarrow> (string \<times> string, int) table \<Rightarrow> (string \<times> string, int) table" where
  "deps_started run dag t = fold (\<lambda>d. upsert (run, dn_name d) (int (length (dn_depends_on d)))) dag t"

lemma select_deps_started:
  assumes "distinct (map dn_name dag)" "d \<in> set dag"
  shows "select (run, dn_name d) (deps_started run dag t) = Some (int (length (dn_depends_on d)))"
proof -
  let ?kvs = "map (\<lambda>d. ((run, dn_name d), int (length (dn_depends_on d)))) dag"
  have "distinct (map fst ?kvs)" using assms(1) by (simp add: distinct_map comp_def inj_on_def)
  from tbl.puts_distinct [OF this, of "(run, dn_name d)" "int (length (dn_depends_on d))" t] show ?thesis
    using assms(2) by (auto simp: deps_started_def fold_map comp_def)
qed

lemma does_initDeps:
  assumes "calm s" "ResolveDAG w = (dag, [])" "distinct (map dn_name dag)"
  shows "does s (initDeps w run) () ((w_db s)\<lparr> db_deps := deps_started run dag (db_deps (w_db s)) \<rparr>)"
proof -
  define cnt where "cnt n = (case map_of (rev (map (\<lambda>d. (dn_name d, int (length (dn_depends_on d)))) dag)) n of
      None \<Rightarrow> 0 | Some k \<Rightarrow> k)" for n
  have dist: "distinct (map fst (rev (map (\<lambda>d. (dn_name d, int (length (dn_depends_on d)))) dag)))"
    using assms(3) by (simp add: rev_map [symmetric] comp_def)
  have cnt: "cnt (dn_name d) = int (length (dn_depends_on d))" if "d \<in> set dag" for d
  proof -
    have "map_of (rev (map (\<lambda>d. (dn_name d, int (length (dn_depends_on d)))) dag)) (dn_name d)
        = Some (int (length (dn_depends_on d)))"
      by (rule map_of_is_SomeI [OF dist]) (use that in auto)
    then show ?thesis by (simp add: cnt_def)
  qed
  let ?rd = "NewRunDeps run cnt (map dn_name dag)"
  have "does s (InitRunDeps ?rd) () (fold (\<lambda>node d. d\<lparr> db_deps :=
      upsert (rd_run ?rd, node) (rd_remaining ?rd node) (db_deps d) \<rparr>) (rd_order ?rd) (w_db s))"
    unfolding InitRunDeps_def by (intro does_WithTx [OF assms(1)] does_each_exec [OF assms(1)])
  also have "fold (\<lambda>node d. d\<lparr> db_deps := upsert (rd_run ?rd, node) (rd_remaining ?rd node) (db_deps d) \<rparr>) (rd_order ?rd) (w_db s)
      = (w_db s)\<lparr> db_deps := deps_started run dag (db_deps (w_db s)) \<rparr>"
    unfolding fold_db_deps deps_started_def
    by (auto simp: NewRunDeps_def fold_map comp_def cnt intro!: fold_cong arg_cong2 [where f = "\<lambda>x y. (w_db s)\<lparr> db_deps := y \<rparr>"])
  finally show ?thesis
    using assms(2) by (simp add: initDeps_def cnt_def)
qed

lemma payload_RunID: "payload_of p run = Inr j \<Longrightarrow> snd p < length (b_jobs (fst p)) \<Longrightarrow> RunID (nj j) = run"
proof -
  assume j: "payload_of p run = Inr j" and h: "snd p < length (b_jobs (fst p))"
  obtain b i where p: "p = (b, i)" by fastforce
  obtain n b' where "marshal_job b' n (assign_run run (b_jobs b ! i)) = Inr j"
    using j h by (auto simp: p payload_of_def Let_def on_job_def)
  then show ?thesis
    by (cases "b_jobs b ! i") (auto simp: rbind_eq_Inr)
qed

text \<open>The jobs of a built run: as many as entries.\<close>

lemma length_on_job [simp]: "length (b_jobs (on_job i f b)) = length (b_jobs b)"
  by (simp add: on_job_def)

lemma length_add_dependents: "length (b_jobs (add_dependents dag b)) = length (b_jobs b)"
proof -
  have one: "length (b_jobs (add_dependent dag n x b)) = length (b_jobs b)" for n x b
    by (simp add: add_dependent_def Let_def split: option.split)
  have "length (b_jobs (fold (add_dependent dag n) xs b)) = length (b_jobs b)" for n xs b
    by (induction xs arbitrary: b) (simp_all add: one)
  then have "length (b_jobs (fold (\<lambda>d. fold (add_dependent dag (dn_name d)) (dn_depends_on d)) ds b)) = length (b_jobs b)" for ds
    by (induction ds arbitrary: b) simp_all
  then show ?thesis by (simp add: add_dependents_def)
qed

lemma length_foreach_jobs: "foreach_jobs dag ds b = Inr b' \<Longrightarrow> length (b_jobs b') = length (b_jobs b)"
proof (induction ds arbitrary: b)
  case (Cons d ds)
  have carry: "length (b_jobs (fold (carry_rejoin dag fi l bd as) rs c)) = length (b_jobs c)" for fi l bd as rs c
    by (induction rs arbitrary: c) (simp_all add: carry_rejoin_def Let_def)
  obtain b1 where b1: "foreach_job dag d b = Inr b1" "foreach_jobs dag ds b1 = Inr b'"
    using Cons.prems by (auto simp: rbind_eq_Inr)
  have "length (b_jobs b1) = length (b_jobs b)"
    using b1(1) by (auto simp: foreach_job_def removeStr_def Let_def carry split: if_splits option.splits)
  then show ?case using Cons.IH [OF b1(2)] by simp
qed simp

lemma length_link_jobs: "length (b_jobs (link_jobs dag b)) = length (b_jobs b)"
proof -
  have copies: "length (b_jobs (fold (\<lambda>x b. on_job j (add_copy (b_jobs b ! f x)) b) xs b)) = length (b_jobs b)"
    for j f xs b by (induction xs arbitrary: b) simp_all
  have "length (b_jobs (fold (link_job dag) js b)) = length (b_jobs b)" for js
    by (induction js arbitrary: b) (simp_all add: link_job_def copies)
  then show ?thesis by (simp add: link_jobs_def)
qed

lemma FromWafer_head:
  assumes "ResolveDAG w = (dag, [])" "FromWafer types self w event = Inr (Some p)"
  shows "snd p < length (b_jobs (fst p))"
proof -
  obtain fs b where "rmap (job_of_node types self w) dag = Inr fs"
    "foreach_jobs dag dag (add_dependents dag (fresh_build fs)) = Inr b" "dag \<noteq> []"
    "p = (on_job (head_index dag) (set_fields (\<lambda>x. x\<lparr> Input := initial_input event \<rparr>)) (link_jobs dag b), head_index dag)"
    by (rule FromWafer_Some [OF assms])
  then show ?thesis
    using head_index_less [of dag]
    by (auto simp: length_link_jobs length_foreach_jobs length_add_dependents fresh_build_def rmap_eq_Inr
        dest: list_all2_lengthD)
qed

definition run_started :: "string \<Rightarrow> string \<Rightarrow> wafer \<Rightarrow> dag_node list \<Rightarrow> node_job \<Rightarrow> int \<Rightarrow> jdb \<Rightarrow> jdb" where
  "run_started queue run w dag j now d = d\<lparr>
     db_runs := upsert run \<lparr> rr_workflow = w_name w, rr_status = RunRunning, rr_pending = 1, rr_created = now \<rparr> (db_runs d),
     db_deps := deps_started run dag (db_deps d),
     db_calls := db_calls d @ [QEnqueue queue j None] \<rparr>"

lemma StartRun_does:
  assumes "calm s" "run \<noteq> ''''" "ResolveDAG w = (dag, [])" "distinct (map dn_name dag)"
    and "FromWafer types self w event = Inr (Some p)" "payload_of p run = Inr j"
  shows "does s (StartRun types self queue w event run) run (run_started queue run w dag j (w_now s) (w_db s))"
proof -
  let ?d1 = "(w_db s)\<lparr> db_runs := upsert run \<lparr> rr_workflow = w_name w, rr_status = RunRunning, rr_pending = 1,
     rr_created = w_now s \<rparr> (db_runs (w_db s)) \<rparr>"
  let ?s1 = "s\<lparr> w_db := ?d1 \<rparr>"
  have 1: "CreateRun run (w_name w) s = (Inr (), ?s1)"
    using assms(1,2) by (simp add: CreateRun_def bind_def)
  have 2: "initDeps w run ?s1 = (Inr (), s\<lparr> w_db := ?d1\<lparr> db_deps := deps_started run dag (db_deps (w_db s)) \<rparr> \<rparr>)"
    using does_initDeps [of ?s1 w dag run] assms(1,3,4) by (simp add: does_def)
  show ?thesis
    using assms(1) by (simp add: does_def StartRun_def bind_def of_res_apply assms(5,6) 1 2 queue_Enqueue_def wrapping_def
        ret_apply run_started_def)
qed

text \<open>Starting a run establishes what its jobs need: with no statement failing, a run of a
  workflow with distinct node names has one running row with one pending job, a count for
  every node equal to the number of nodes it depends on, and exactly one new job, the head
  with the run's id; so a fresh run's pending count is the number of its jobs in flight.\<close>

theorem StartRun_establishes:
  assumes "calm s" "run \<noteq> ''''" "ResolveDAG w = (dag, [])" "distinct (map dn_name dag)"
    and "FromWafer types self w event = Inr (Some p)" "payload_of p run = Inr j"
  shows "\<exists>d. StartRun types self queue w event run s = (Inr run, s\<lparr> w_db := d \<rparr>)
    \<and> status_of d run = RunRunning \<and> map_option rr_pending (select run (db_runs d)) = Some 1
    \<and> (\<forall>n\<in>set dag. select (run, dn_name n) (db_deps d) = Some (int (length (dn_depends_on n))))
    \<and> db_calls d = db_calls (w_db s) @ [QEnqueue queue j None] \<and> RunID (nj j) = run
    \<and> (enqueued run (db_calls (w_db s)) = 0 \<longrightarrow> surplus claimed False run d = 0)"
proof -
  let ?d = "run_started queue run w dag j (w_now s) (w_db s)"
  have "RunID (nj j) = run" by (rule payload_RunID [OF assms(6) FromWafer_head [OF assms(3,5)]])
  moreover have "StartRun types self queue w event run s = (Inr run, s\<lparr> w_db := ?d \<rparr>)"
    using StartRun_does [OF assms] by (simp add: does_def)
  ultimately show ?thesis
    using select_deps_started [OF assms(4)]
    by (intro exI [of _ ?d]) (simp add: run_started_def status_of_def surplus_def tbl.get_put)
qed

theorem StartRun_establishes_witness:
  "\<exists>d. StartRun mechanisms ''servitor'' ''q'' two_roots None ''r1'' (calm_world empty_db)
       = (Inr ''r1'', (calm_world empty_db)\<lparr> w_db := d \<rparr>)
     \<and> status_of d ''r1'' = RunRunning \<and> db_calls d = [QEnqueue ''q'' two_roots_job None]"
proof -
  obtain p where p: "FromWafer mechanisms ''servitor'' two_roots None = Inr (Some p)" "payload_of p ''r1'' = Inr two_roots_job"
    using two_roots_evaluated(3) by blast
  have r: "ResolveDAG two_roots = (fst (ResolveDAG two_roots), [])"
    using two_roots_evaluated(1) by (metis prod.collapse)
  have "calm (calm_world empty_db :: jworld)" by simp
  from StartRun_establishes [OF this _ r two_roots_evaluated(2) p, of "''q''"] show ?thesis
    by (auto simp: empty_db_def)
qed


section \<open>Reruns\<close>

definition rerun_continued :: "string \<Rightarrow> string \<Rightarrow> node_job \<Rightarrow> jdb \<Rightarrow> jdb" where
  "rerun_continued queue run j d = d\<lparr>
     db_runs := modify_row run (\<lambda>r. r\<lparr> rr_status := RunRunning, rr_pending := 1 \<rparr>) (db_runs d),
     db_calls := db_calls d @ [QEnqueue queue j None] \<rparr>"

lemma GetFailedContinuation_calm:
  "calm s \<Longrightarrow> GetFailedContinuation run s = (Inr (map_option (\<lambda>r. \<lparr> fl_run = run, fl_workflow = fc_workflow r,
     fl_event = fc_event r, fl_payload = fc_payload r \<rparr>) (select run (db_failed (w_db s)))), s)"
  by (simp add: GetFailedContinuation_def split: option.split)

lemma rerun_continue_calm:
  assumes "calm s" "select run (db_failed (w_db s)) = Some row"
  shows "Rerun types self um queue run ''continue'' s
    = (Inr (), s\<lparr> w_db := rerun_continued queue run (fc_payload row) (w_db s) \<rparr>)"
proof -
  let ?cont = "\<lparr> fl_run = run, fl_workflow = fc_workflow row, fl_event = fc_event row, fl_payload = fc_payload row \<rparr>"
  have 1: "does s (SetRunStatusTx run RunRunning) () (put_status run RunRunning (w_db s))"
    unfolding SetRunStatusTx_def by (simp add: does_exec_sql assms(1))
  let ?d = "put_status run RunRunning (w_db s)"
  have 2: "does (s\<lparr> w_db := ?d \<rparr>) (exec_sql (\<lambda>d. d\<lparr> db_runs := modify_row run (\<lambda>r. r\<lparr> rr_pending := 1 \<rparr>) (db_runs d) \<rparr>)) ()
      (?d\<lparr> db_runs := modify_row run (\<lambda>r. r\<lparr> rr_pending := 1 \<rparr>) (db_runs ?d) \<rparr>)"
    using assms(1) by (simp add: does_def)
  have 3: "does (s\<lparr> w_db := ?d\<lparr> db_runs := modify_row run (\<lambda>r. r\<lparr> rr_pending := 1 \<rparr>) (db_runs ?d) \<rparr> \<rparr>)
      (Tx_Enqueue queue (fc_payload row)) () (rerun_continued queue run (fc_payload row) (w_db s))"
    using assms(1) by (simp add: does_def Tx_Enqueue_def rerun_continued_def put_status_def modify_row_comp comp_def)
  have "does s (rerunContinue queue ?cont) () (rerun_continued queue run (fc_payload row) (w_db s))"
    unfolding rerunContinue_def
    by (rule does_WithTx [OF assms(1)]) (use does_bind [OF 1 does_bind [OF 2, of "\<lambda>_. Tx_Enqueue queue (fc_payload row)"]] 3 in simp)
  then show ?thesis
    using assms by (simp add: Rerun_def bind_def GetFailedContinuation_calm does_def)
qed



section \<open>Cron\<close>

lemma modify_row_missing: "select k t = None \<Longrightarrow> modify_row k f t = t"
  by (induction t) (auto simp: modify_row_def select_def split: if_splits)

lemma initDeps_runs: "runs (initDeps w run) d a d' \<Longrightarrow> db_runs d' = db_runs d \<and> db_calls d' = db_calls d
    \<and> db_workflows d' = db_workflows d"
  by (auto simp: initDeps_def InitRunDeps_def fold_db_deps split: prod.splits if_splits
      dest!: runs_WithTx runs_each_exec)

text \<open>A run started by a cron trigger has no row of its own: registering the trigger writes none,
  and at the end of every node of a run without a row, whatever is still queued for it, the
  run is taken as complete and the completion callback is called.\<close>

theorem cron_runs_have_no_row:
  assumes "RegisterCron types self queue w task s0 = (Inr (), s1)"
    and "calm s" "select (RunID (nj sj)) (db_runs (w_db s)) = None" "wk_onDone wk = Some f"
  shows "db_runs (w_db s1) = db_runs (w_db s0)
    \<and> checkRunComplete wk sj s = (Inr (), snd (f (WorkflowID (nj sj)) (RunID (nj sj)) s))"
proof
  have "runs (RegisterCron types self queue w task) (w_db s0) () (w_db s1)"
    using assms(1) by (rule runsI)
  then show "db_runs (w_db s1) = db_runs (w_db s0)"
    by (auto simp: RegisterCron_def RegisterScheduledTask_def split: option.splits
        dest!: runs_of_res runs_qcall initDeps_runs)
  have "put_status (RunID (nj sj)) RunCompleted (w_db s) = w_db s"
    using assms(3) by (simp add: put_status_def modify_row_missing)
  then show "checkRunComplete wk sj s = (Inr (), snd (f (WorkflowID (nj sj)) (RunID (nj sj)) s))"
    using assms(2-4)
    by (simp add: checkRunComplete_def RunPending_def RunStatus_def SetRunStatus_def status_of_def notify_def bind_def
        ignore_def wrapping_def)
qed

definition nightly :: cron_task where
  "nightly = \<lparr> ct_Name = ''orders:cron-0'', ct_Schedule = ''0 0 * * *'', ct_RunID = ''r1'', ct_Event = None \<rparr>"

theorem cron_runs_have_no_row_witness:
  "db_runs (w_db (snd (RegisterCron mechanisms ''servitor'' ''q'' two_roots nightly (calm_world empty_db)))) = []
   \<and> fst (checkRunComplete ((test_worker VNull)\<lparr> wk_onDone := Some (\<lambda>_ _. queue_Enqueue ''done'' two_roots_job) \<rparr>)
       two_roots_job (calm_world empty_db)) = Inr ()"
proof -
  let ?w = "(test_worker VNull)\<lparr> wk_onDone := Some (\<lambda>_ _. queue_Enqueue ''done'' two_roots_job) \<rparr>"
  have "fst (RegisterCron mechanisms ''servitor'' ''q'' two_roots nightly (calm_world empty_db)) = Inr ()"
    by code_simp
  then have "RegisterCron mechanisms ''servitor'' ''q'' two_roots nightly (calm_world empty_db)
      = (Inr (), snd (RegisterCron mechanisms ''servitor'' ''q'' two_roots nightly (calm_world empty_db)))"
    by (metis prod.collapse)
  from cron_runs_have_no_row [OF this, of "calm_world empty_db" two_roots_job ?w] show ?thesis
    by (simp add: empty_db_def select_def)
qed

end
