(* ===== verification/PayloadLaws.thy ===== *)
theory PayloadLaws
  imports RunnerLaws
begin

text \<open>
  The encoding of a run's payload follows the Body pointers of loops from job to job. The model gives it as much
  fuel as there are jobs; here is why that is enough whenever no chain of pointers comes back to itself.
\<close>

section \<open>Body pointers\<close>

fun bodies :: "cell \<Rightarrow> nat set" where
  "bodies (Cell x dp rj ds bd) = set_option bd \<union> (\<Union>c\<in>set ds. bodies c)"

definition body_rel :: "build \<Rightarrow> (nat \<times> nat) set" where
  "body_rel b = {(i, k). i < length (b_jobs b) \<and> k \<in> bodies (b_jobs b ! i)}"

text \<open>How many jobs a job's pointers lead to, however far.\<close>

definition reach :: "build \<Rightarrow> nat \<Rightarrow> nat" where
  "reach b i = card ((body_rel b)\<^sup>+ `` {i})"

definition in_range :: "build \<Rightarrow> bool" where
  "in_range b \<longleftrightarrow> (\<forall>c\<in>set (b_jobs b). bodies c \<subseteq> {..<length (b_jobs b)})"

lemma body_rel_range: "in_range b \<Longrightarrow> body_rel b \<subseteq> {..<length (b_jobs b)} \<times> {..<length (b_jobs b)}"
  by (fastforce simp: body_rel_def in_range_def)

lemma trancl_range: "in_range b \<Longrightarrow> (body_rel b)\<^sup>+ `` {i} \<subseteq> {..<length (b_jobs b)}"
  using trancl_mono_subset [OF body_rel_range] trancl_subset_Sigma [OF body_rel_range] by blast

lemma finite_reach: "in_range b \<Longrightarrow> finite ((body_rel b)\<^sup>+ `` {i})"
  by (rule finite_subset [OF trancl_range]) simp_all

lemma reach_decreases:
  assumes "acyclic (body_rel b)" "in_range b" "(i, k) \<in> body_rel b"
  shows "reach b k < reach b i"
proof -
  have "(body_rel b)\<^sup>+ `` {k} \<subset> (body_rel b)\<^sup>+ `` {i}"
    using assms(1,3) by (auto simp: acyclic_def intro: trancl_into_trancl2)
  then show ?thesis
    unfolding reach_def by (rule psubset_card_mono [OF finite_reach [OF assms(2)]])
qed

lemma reach_bounded:
  assumes "acyclic (body_rel b)" "in_range b" "i < length (b_jobs b)"
  shows "reach b i < length (b_jobs b)"
proof -
  have "(body_rel b)\<^sup>+ `` {i} \<subset> {..<length (b_jobs b)}"
    using trancl_range [OF assms(2), of i] assms(1,3) by (auto simp: acyclic_def)
  then show ?thesis
    unfolding reach_def using psubset_card_mono [of "{..<length (b_jobs b)}"] by simp
qed

section \<open>Enough fuel\<close>

lemma rmap_cong: "(\<And>x. x \<in> set xs \<Longrightarrow> f x = g x) \<Longrightarrow> rmap f xs = rmap g xs"
  by (induction xs) auto

lemma fuel_irrelevant:
  assumes "acyclic (body_rel b)" "in_range b"
  shows "bodies c \<subseteq> {..<length (b_jobs b)} \<Longrightarrow> (\<And>i. i \<in> bodies c \<Longrightarrow> reach b i < n \<and> reach b i < m) \<Longrightarrow>
      marshal_job b n c = marshal_job b m c"
proof (induction n arbitrary: m c rule: less_induct)
  case (less n)
  show ?case using less.prems
  proof (induction c)
    case (Cell x dp rj ds bd)
    have "marshal_job b n d = marshal_job b m d" if "d \<in> set ds" for d
      using that Cell.prems by (intro Cell.IH) auto
    then have ds: "marshal_jobs b n ds = marshal_jobs b m ds"
      unfolding marshal_jobs_rmap by (rule rmap_cong)
    show ?case
    proof (cases bd)
      case None
      then show ?thesis by (simp add: ds)
    next
      case (Some i)
      then have i: "i < length (b_jobs b)" "reach b i < n" "reach b i < m" using Cell.prems by auto
      then obtain n' m' where nm: "n = Suc n'" "m = Suc m'" by (metis less_imp_Suc_add)
      have "reach b k < reach b i" if "k \<in> bodies (b_jobs b ! i)" for k
        using that i(1) by (intro reach_decreases [OF assms]) (simp add: body_rel_def)
      then have "marshal_job b n' (b_jobs b ! i) = marshal_job b m' (b_jobs b ! i)"
        using i nm assms(2) by (intro less.IH) (auto simp: in_range_def dest: less_trans_Suc)
      then show ?thesis using ds unfolding nm by (simp add: Some del: json_marshal.simps)
    qed
  qed
qed

section \<open>The pointers of a workflow's jobs stay among its jobs\<close>

definition bounded :: "nat \<Rightarrow> build \<Rightarrow> bool" where
  "bounded N b \<longleftrightarrow> length (b_jobs b) = N \<and> (\<forall>c\<in>set (b_jobs b). bodies c \<subseteq> {..<N})"

lemma bodies_edits [simp]:
  "bodies (set_fields f c) = bodies c" "bodies (set_dependents dp c) = bodies c"
  "bodies (add_copy c' c) = bodies c' \<union> bodies c"
  by (cases c; auto)+

lemma bodies_assign [simp]: "bodies (assign_run run c) = bodies c"
  by (induction c) auto

lemma bodies_set_body: "bodies (set_body i as rj c) \<subseteq> insert i (bodies c)"
  by (cases c) auto

lemma bounded_on_job:
  assumes "bounded N b" "\<And>c. bodies c \<subseteq> {..<N} \<Longrightarrow> bodies (f c) \<subseteq> {..<N}"
  shows "bounded N (on_job i f b)"
proof (cases "i < length (b_jobs b)")
  case True
  then have "bodies (f (b_jobs b ! i)) \<subseteq> {..<N}" using assms by (simp add: bounded_def)
  then show ?thesis using assms(1) by (auto simp: bounded_def on_job_def dest!: set_update_subset_insert [THEN subsetD])
next
  case False
  then show ?thesis using assms(1) by (simp add: on_job_def bounded_def list_update_beyond)
qed

lemma bounded_arrays [simp]: "bounded N (b\<lparr> b_arrays := a \<rparr>) = bounded N b"
  by (simp add: bounded_def)

lemma bounded_fold: "(\<And>x b. P x \<Longrightarrow> bounded N b \<Longrightarrow> bounded N (f x b)) \<Longrightarrow> (\<And>x. x \<in> set xs \<Longrightarrow> P x) \<Longrightarrow> bounded N b \<Longrightarrow> bounded N (fold f xs b)"
  by (induction xs arbitrary: b) auto

lemma bounded_nth: "bounded N b \<Longrightarrow> i < N \<Longrightarrow> bodies (b_jobs b ! i) \<subseteq> {..<N}"
  by (simp add: bounded_def)

lemma idx_by_name_less: "idx_by_name dag n = Some j \<Longrightarrow> j < length dag"
  by (auto simp: idx_by_name_def dest!: map_of_SomeD in_set_zipE)

lemma idx_or_0_less: "dag \<noteq> [] \<Longrightarrow> idx_or_0 dag n < length dag"
  by (auto simp: idx_or_0_def dest: idx_by_name_less split: option.split)

lemma bounded_add_dependents: "bounded N b \<Longrightarrow> bounded N (add_dependents dag b)"
  unfolding add_dependents_def add_dependent_def
  by (intro bounded_fold [where P = "\<lambda>_. True"]) (auto simp: Let_def intro!: bounded_on_job split: option.split)

lemma bounded_foreach_job:
  assumes "bounded (length dag) b" "dag \<noteq> []" "foreach_job dag d b = Inr b'"
  shows "bounded (length dag) b'"
proof -
  have carry: "bounded (length dag) (carry_rejoin dag fi l bd as r c)" if "bounded (length dag) c" for fi l bd as r c
  proof -
    let ?ri = "idx_or_0 dag r"
    let ?c = "on_job ?ri (set_fields (\<lambda>x. x\<lparr> CollectFrom := bd, CollectAs := as, CollectName := l \<rparr>)) c"
    have c: "bounded (length dag) ?c" using that by (intro bounded_on_job) simp_all
    from bounded_nth [OF c idx_or_0_less [OF assms(2)]] show ?thesis
      unfolding carry_rejoin_def Let_def by (intro bounded_on_job [OF c]) simp
  qed
  have all: "bounded (length dag) (fold (carry_rejoin dag fi l bd as) rs c)" if "bounded (length dag) c" for fi l bd as rs c
    by (rule bounded_fold [where P = "\<lambda>_. True"]) (simp_all add: carry that)
  have body: "bodies (set_body i as rj c) \<subseteq> {..<length dag}"
    if "idx_by_name dag n = Some i" "bodies c \<subseteq> {..<length dag}" for n i as rj c
    using bodies_set_body [of i as rj c] idx_by_name_less [OF that(1)] that(2) by auto
  consider "b' = b" | n i fi as rj rs dp a where "idx_by_name dag n = Some i" "b' = fold (carry_rejoin dag fi (dn_name d) n as) rs
      (on_job fi (set_body i as rj) (on_job fi (set_dependents dp) (b\<lparr> b_arrays := a \<rparr>)))"
    using assms(3) unfolding foreach_job_def removeStr_def Let_def
    by (auto simp del: fold.simps split: if_splits option.splits)
  then show ?thesis
  proof cases
    case 2
    show ?thesis unfolding 2(2) by (intro all bounded_on_job) (simp_all add: assms(1) body [OF 2(1)])
  qed (simp add: assms(1))
qed

lemma bounded_foreach_jobs:
  "bounded (length dag) b \<Longrightarrow> dag \<noteq> [] \<Longrightarrow> foreach_jobs dag ds b = Inr b' \<Longrightarrow> bounded (length dag) b'"
  by (induction ds arbitrary: b) (auto simp: rbind_eq_Inr dest: bounded_foreach_job)

lemma bounded_link_jobs: "bounded (length dag) b \<Longrightarrow> dag \<noteq> [] \<Longrightarrow> bounded (length dag) (link_jobs dag b)"
proof -
  assume b: "bounded (length dag) b" and dag: "dag \<noteq> []"
  have "bounded (length dag) (on_job j (add_copy (b_jobs c ! idx_or_0 dag n)) c)" if "bounded (length dag) c" for j n c
    using bounded_nth [OF that idx_or_0_less [OF dag]] by (intro bounded_on_job [OF that]) simp
  then have "bounded (length dag) (link_job dag j c)" if "bounded (length dag) c" for j c
    unfolding link_job_def by (intro bounded_fold [where P = "\<lambda>_. True"] that) simp_all
  then show ?thesis unfolding link_jobs_def by (intro bounded_fold [where P = "\<lambda>_. True"] b) simp_all
qed

lemma FromWafer_bounded:
  assumes "FromWafer types self w event = Inr (Some (b, h))"
  shows "h < length (b_jobs b)" "in_range (on_job h (assign_run runID) b)"
proof -
  obtain dag where r: "ResolveDAG w = (dag, [])"
    using assms by (cases "ResolveDAG w") (auto simp: FromWafer_def split: if_splits)
  obtain fs b0 where fs: "rmap (job_of_node types self w) dag = Inr fs"
    and b0: "foreach_jobs dag dag (add_dependents dag (fresh_build fs)) = Inr b0" and dag: "dag \<noteq> []"
    and p: "(b, h) = (on_job (head_index dag) (set_fields (\<lambda>x. x\<lparr> Input := initial_input event \<rparr>)) (link_jobs dag b0), head_index dag)"
    by (rule FromWafer_Some [OF r assms])
  have "length fs = length dag" using fs by (auto simp: rmap_eq_Inr dest: list_all2_lengthD)
  then have "bounded (length dag) (fresh_build fs)"
    by (auto simp: bounded_def fresh_build_def in_set_enumerate_eq)
  from bounded_link_jobs [OF bounded_foreach_jobs [OF bounded_add_dependents [OF this] dag b0] dag]
  have "bounded (length dag) (on_job (head_index dag) (set_fields (\<lambda>x. x\<lparr> Input := initial_input event \<rparr>)) (link_jobs dag b0))"
    by (rule bounded_on_job) simp
  then have "bounded (length dag) b" using p by simp
  moreover from this have "bounded (length dag) (on_job h (assign_run runID) b)" by (rule bounded_on_job) simp
  ultimately show "h < length (b_jobs b)" "in_range (on_job h (assign_run runID) b)"
    using p head_index_less [OF dag] by (auto simp: bounded_def in_range_def)
qed

lemma enough_fuel:
  assumes "b' = on_job h (assign_run runID) b" "h < length (b_jobs b)"
    and "acyclic (body_rel b')" "in_range b'" "length (b_jobs b) \<le> n"
  shows "marshal_job b' n (b_jobs b' ! h) = payload_of (b, h) runID"
proof -
  have l: "length (b_jobs b') = length (b_jobs b)" by (simp add: assms(1) on_job_def)
  have c: "bodies (b_jobs b' ! h) \<subseteq> {..<length (b_jobs b')}"
    using assms(2,4) l by (auto simp: in_range_def)
  then have "marshal_job b' n (b_jobs b' ! h) = marshal_job b' (length (b_jobs b')) (b_jobs b' ! h)"
    using reach_bounded [OF assms(3,4)] assms(5) l by (intro fuel_irrelevant [OF assms(3,4)]) fastforce+
  then show ?thesis by (simp add: payload_of_def Let_def l flip: assms(1))
qed


lemma body_rel_cong: "map bodies (b_jobs b) = map bodies (b_jobs b') \<Longrightarrow> body_rel b = body_rel b'"
  unfolding body_rel_def by (metis (no_types, lifting) length_map nth_map)

lemma assigned_bodies: "map bodies (b_jobs (on_job h (assign_run run) b)) = map bodies (b_jobs b)"
proof (cases "h < length (b_jobs b)")
  case True
  then show ?thesis by (simp add: on_job_def map_update) (metis list_update_id nth_map)
qed (simp add: on_job_def list_update_beyond)


end
