(* ===== verification/Io.thy ===== *)
theory Io
  imports Prelude "HOL-Library.Sublist"
begin

text \<open>
  Code that keeps a state and may fail: a function from the state to a result and the new state.
  The protocol clients, the capability writer and the command line are written with it. A failed
  step keeps the state it reached, as Go code that returns early does.
\<close>

section \<open>Steps\<close>

type_synonym ('s, 'a) io = "'s \<Rightarrow> 'a res \<times> 's"

definition io_ret :: "'a \<Rightarrow> ('s, 'a) io" where
  "io_ret a s = (Inr a, s)"

definition io_throw :: "err \<Rightarrow> ('s, 'a) io" where
  "io_throw e s = (Inl e, s)"

definition io_of :: "'a res \<Rightarrow> ('s, 'a) io" where
  "io_of r s = (r, s)"

definition io_bind :: "('s, 'a) io \<Rightarrow> ('a \<Rightarrow> ('s, 'b) io) \<Rightarrow> ('s, 'b) io" where
  "io_bind m k s = (case m s of (Inl e, s') \<Rightarrow> (Inl e, s') | (Inr a, s') \<Rightarrow> k a s')"

abbreviation io_seq :: "('s, 'a) io \<Rightarrow> ('s, 'b) io \<Rightarrow> ('s, 'b) io" where
  "io_seq m k \<equiv> io_bind m (\<lambda>_. k)"

text \<open>\<^verbatim>\<open>x, err := m\<close>, and an error wrapped with \<^verbatim>\<open>%w\<close>.\<close>

definition io_attempt :: "('s, 'a) io \<Rightarrow> ('s, 'a res) io" where
  "io_attempt m s = (case m s of (r, s') \<Rightarrow> (Inr r, s'))"

definition io_wrap :: "string \<Rightarrow> ('s, 'a) io \<Rightarrow> ('s, 'a) io" where
  "io_wrap pre m s = (case m s of (r, s') \<Rightarrow> (map_err (wrap pre) r, s'))"

fun io_each :: "('x \<Rightarrow> ('s, unit) io) \<Rightarrow> 'x list \<Rightarrow> ('s, unit) io" where
  "io_each f [] = io_ret ()"
| "io_each f (x # xs) = io_seq (f x) (io_each f xs)"

lemma io_apply [simp]:
  "io_ret a s = (Inr a, s)" "io_throw e s = (Inl e, s)" "io_of r s = (r, s)"
  by (simp_all add: io_ret_def io_throw_def io_of_def)

lemma io_bind_results [simp]:
  "m s = (Inl e, s') \<Longrightarrow> io_bind m k s = (Inl e, s')"
  "m s = (Inr a, s') \<Longrightarrow> io_bind m k s = k a s'"
  by (simp_all add: io_bind_def)

lemma io_bind_Inr_iff:
  "io_bind m k s = (Inr b, t) \<longleftrightarrow> (\<exists>a s'. m s = (Inr a, s') \<and> k a s' = (Inr b, t))"
  by (auto simp: io_bind_def split: prod.splits sum.splits)

lemma io_wrap_Inr_iff [simp]: "io_wrap pre m s = (Inr a, t) \<longleftrightarrow> m s = (Inr a, t)"
  by (auto simp: io_wrap_def split: prod.splits)

lemma snd_io_wrap [simp]: "snd (io_wrap pre m s) = snd (m s)"
  by (simp add: io_wrap_def split: prod.splits)

section \<open>What a step leaves behind\<close>

text \<open>
  \<^verbatim>\<open>leaves T m L\<close>: the step extends the log \<^verbatim>\<open>T\<close> of the state by entries that \<^verbatim>\<open>L\<close> allows for its result.
\<close>

definition leaves :: "('s \<Rightarrow> 'l list) \<Rightarrow> ('s, 'a) io \<Rightarrow> ('a res \<Rightarrow> 'l list \<Rightarrow> bool) \<Rightarrow> bool" where
  "leaves T m L \<longleftrightarrow> (\<forall>s. \<exists>t. T (snd (m s)) = T s @ t \<and> L (fst (m s)) t)"

lemma leavesI: "(\<And>s. \<exists>t. T (snd (m s)) = T s @ t \<and> L (fst (m s)) t) \<Longrightarrow> leaves T m L"
  by (simp add: leaves_def)

lemma leavesD: "leaves T m L \<Longrightarrow> \<exists>t. T (snd (m s)) = T s @ t \<and> L (fst (m s)) t"
  by (simp add: leaves_def)

lemma leaves_mono: "leaves T m L \<Longrightarrow> (\<And>r t. L r t \<Longrightarrow> L' r t) \<Longrightarrow> leaves T m L'"
  unfolding leaves_def by blast

lemma leaves_bind:
  assumes m: "leaves T m L" and k: "\<And>a. leaves T (k a) (K a)"
    and fail: "\<And>e t. L (Inl e) t \<Longrightarrow> R (Inl e) t"
    and succ: "\<And>a t r u. L (Inr a) t \<Longrightarrow> K a r u \<Longrightarrow> R r (t @ u)"
  shows "leaves T (io_bind m k) R"
proof (rule leavesI)
  fix s
  obtain r s' where ms: "m s = (r, s')" by (cases "m s")
  obtain t where t: "T s' = T s @ t" "L r t" using leavesD [OF m, of s] by (auto simp: ms)
  show "\<exists>t. T (snd (io_bind m k s)) = T s @ t \<and> R (fst (io_bind m k s)) t"
  proof (cases r)
    case (Inl e)
    then show ?thesis using t fail by (auto simp: ms)
  next
    case (Inr a)
    obtain u where "T (snd (k a s')) = T s' @ u" "K a (fst (k a s')) u" using leavesD [OF k, of a s'] by auto
    then show ?thesis using t succ Inr by (auto simp: ms)
  qed
qed

lemma leaves_ret: "L (Inr a) [] \<Longrightarrow> leaves T (io_ret a) L"
  by (simp add: leaves_def)

lemma leaves_throw: "L (Inl e) [] \<Longrightarrow> leaves T (io_throw e) L"
  by (simp add: leaves_def)

lemma leaves_of: "L r [] \<Longrightarrow> leaves T (io_of r) L"
  by (simp add: leaves_def)

lemma leaves_wrap:
  assumes "leaves T m L" "\<And>e t. L (Inl e) t \<Longrightarrow> L (Inl (wrap pre e)) t"
  shows "leaves T (io_wrap pre m) L"
proof (rule leavesI)
  fix s
  obtain r s' where ms: "m s = (r, s')" by (cases "m s")
  obtain t where "T s' = T s @ t" "L r t" using leavesD [OF assms(1), of s] by (auto simp: ms)
  then show "\<exists>t. T (snd (io_wrap pre m s)) = T s @ t \<and> L (fst (io_wrap pre m s)) t"
    using assms(2) by (cases r) (auto simp: io_wrap_def ms)
qed

text \<open>The steps of a fixed script: a part of it, all of it on success.\<close>

definition script :: "'l list \<Rightarrow> 'a res \<Rightarrow> 'l list \<Rightarrow> bool" where
  "script ls r t \<longleftrightarrow> (case r of Inl _ \<Rightarrow> prefix t ls | Inr _ \<Rightarrow> t = ls)"

lemma script_simps [simp]: "script ls (Inl e) t \<longleftrightarrow> prefix t ls" "script ls (Inr a) t \<longleftrightarrow> t = ls"
  by (simp_all add: script_def)

lemma script_prefix: "script ls r t \<Longrightarrow> prefix t ls"
  by (cases r) auto

lemma script_append: "script us r u \<Longrightarrow> script (ts @ us) r (ts @ u)"
  by (cases r) auto

lemma leaves_script_bind:
  assumes "leaves T m (script ts)" "\<And>a. leaves T (k a) (script us)"
  shows "leaves T (io_bind m k) (script (ts @ us))"
  by (rule leaves_bind [OF assms]) (auto simp: script_append prefix_prefix)

end
