(* ===== verification/Config.thy ===== *)
theory Config
  imports GoLib Tables
begin

text \<open>
  The declared config (internal/config/config.go): the sections of servitor.config.yaml, their
  edits, and reading and writing the file. A nil section reads as an empty one everywhere, so
  both are the empty table. The YAML codec, filepath.Dir and the file system are parameters.
\<close>

section \<open>The sections\<close>

record webhook_receiver =
  wr_Scheme :: string
  wr_Secret :: string
  wr_Header :: string
  wr_Encoding :: string
  wr_TimestampHeader :: string
  wr_Prefix :: string

record secret_decl =
  sd_Source :: string
  sd_Account :: string
  sd_Permissions :: "string list"
  sd_Expiry :: string

record server =
  sv_Command :: "string list"
  sv_Env :: "string list"
  sv_URL :: string
  sv_Headers :: "(string, string) table"

text \<open>A tap and a target have the same fields.\<close>

record plugin =
  pl_Command :: "string list"
  pl_Env :: "string list"

record conf =
  cf_MCP :: "(string, server) table"
  cf_Taps :: "(string, plugin) table"
  cf_Targets :: "(string, plugin) table"
  cf_Secrets :: "(string, secret_decl) table"
  cf_Webhook :: "(string, webhook_receiver) table"

definition empty_conf :: conf where
  "empty_conf = \<lparr> cf_MCP = [], cf_Taps = [], cf_Targets = [], cf_Secrets = [], cf_Webhook = [] \<rparr>"

abbreviation "SchemeHMAC \<equiv> ''hmac''"
abbreviation "SchemeStandard \<equiv> ''standard''"
abbreviation "DefaultFile \<equiv> ''servitor.config.yaml''"

section \<open>Edits\<close>

definition AddMCPServer :: "string \<Rightarrow> string list \<Rightarrow> string list \<Rightarrow> conf \<Rightarrow> conf" where
  "AddMCPServer name command env c =
     c\<lparr> cf_MCP := upsert name \<lparr> sv_Command = command, sv_Env = env, sv_URL = '''', sv_Headers = [] \<rparr> (cf_MCP c) \<rparr>"

definition RemoveMCPServer :: "string \<Rightarrow> conf \<Rightarrow> bool \<times> conf" where
  "RemoveMCPServer name c = (if select name (cf_MCP c) = None then (False, c)
     else (True, c\<lparr> cf_MCP := delete_row name (cf_MCP c) \<rparr>))"

definition AddTap :: "string \<Rightarrow> string list \<Rightarrow> string list \<Rightarrow> conf \<Rightarrow> conf" where
  "AddTap name command env c = c\<lparr> cf_Taps := upsert name \<lparr> pl_Command = command, pl_Env = env \<rparr> (cf_Taps c) \<rparr>"

definition RemoveTap :: "string \<Rightarrow> conf \<Rightarrow> bool \<times> conf" where
  "RemoveTap name c = (if select name (cf_Taps c) = None then (False, c)
     else (True, c\<lparr> cf_Taps := delete_row name (cf_Taps c) \<rparr>))"

definition AddTarget :: "string \<Rightarrow> string list \<Rightarrow> string list \<Rightarrow> conf \<Rightarrow> conf" where
  "AddTarget name command env c = c\<lparr> cf_Targets := upsert name \<lparr> pl_Command = command, pl_Env = env \<rparr> (cf_Targets c) \<rparr>"

definition RemoveTarget :: "string \<Rightarrow> conf \<Rightarrow> bool \<times> conf" where
  "RemoveTarget name c = (if select name (cf_Targets c) = None then (False, c)
     else (True, c\<lparr> cf_Targets := delete_row name (cf_Targets c) \<rparr>))"

definition AddSecret :: "string \<Rightarrow> secret_decl \<Rightarrow> conf \<Rightarrow> conf" where
  "AddSecret name s c = c\<lparr> cf_Secrets := upsert name s (cf_Secrets c) \<rparr>"

definition RemoveSecret :: "string \<Rightarrow> conf \<Rightarrow> bool \<times> conf" where
  "RemoveSecret name c = (if select name (cf_Secrets c) = None then (False, c)
     else (True, c\<lparr> cf_Secrets := delete_row name (cf_Secrets c) \<rparr>))"

definition AddWebhookReceiver :: "string \<Rightarrow> webhook_receiver \<Rightarrow> conf \<Rightarrow> conf" where
  "AddWebhookReceiver path r c = c\<lparr> cf_Webhook := upsert path r (cf_Webhook c) \<rparr>"

definition RemoveWebhookReceiver :: "string \<Rightarrow> conf \<Rightarrow> bool \<times> conf" where
  "RemoveWebhookReceiver path c = (if select path (cf_Webhook c) = None then (False, c)
     else (True, c\<lparr> cf_Webhook := delete_row path (cf_Webhook c) \<rparr>))"

section \<open>Readings\<close>

definition SecretSources :: "conf \<Rightarrow> (string, string) table" where
  "SecretSources c = map (\<lambda>(name, s). (name, sd_Source s)) (cf_Secrets c)"

definition sortedKeys :: "(string, 'v) table \<Rightarrow> string list" where
  "sortedKeys m = sort (remdups (map fst m))"

definition ServerNames :: "conf \<Rightarrow> string list" where
  "ServerNames c = sortedKeys (cf_MCP c)"

definition ReceiverPaths :: "conf \<Rightarrow> string list" where
  "ReceiverPaths c = sortedKeys (cf_Webhook c)"

definition TapNames :: "conf \<Rightarrow> string list" where
  "TapNames c = sortedKeys (cf_Taps c)"

definition TargetNames :: "conf \<Rightarrow> string list" where
  "TargetNames c = sortedKeys (cf_Targets c)"

section \<open>The file\<close>

fun validate_receivers :: "(string, webhook_receiver) table \<Rightarrow> unit res" where
  "validate_receivers [] = Inr ()"
| "validate_receivers ((path, r) # rs) =
     (if wr_Scheme r \<noteq> SchemeHMAC \<and> wr_Scheme r \<noteq> SchemeStandard
      then Inl (errorf (''config: webhook receiver '' @ quote path @ '': unknown scheme '' @ quote (wr_Scheme r) @
        '' (must be '' @ quote SchemeHMAC @ '' or '' @ quote SchemeStandard @ '')''))
      else validate_receivers rs)"

definition validate :: "conf \<Rightarrow> unit res" where
  "validate c = validate_receivers (cf_Webhook c)"

text \<open>What the code uses of its surroundings; a path without a file reads as ErrNotExist.\<close>

record config_os =
  co_marshal :: "conf \<Rightarrow> string res"
  co_unmarshal :: "string \<Rightarrow> conf res"
  co_dir :: "string \<Rightarrow> string"
  co_mkdir :: "string \<Rightarrow> unit res"
  co_can_write :: "string \<Rightarrow> unit res"

type_synonym config_files = "string \<rightharpoonup> string res"

definition path_or_default :: "string \<Rightarrow> string" where
  "path_or_default path = (if path = '''' then DefaultFile else path)"

definition Load :: "config_os \<Rightarrow> config_files \<Rightarrow> string \<Rightarrow> conf res" where
  "Load os fs path = (let path = path_or_default path in
     case fs path of
       None \<Rightarrow> Inr empty_conf
     | Some (Inl e) \<Rightarrow> Inl (wrap (''config: read '' @ path @ '': '') e)
     | Some (Inr text) \<Rightarrow>
         rbind (map_err (wrap (''config: parse '' @ path @ '': '')) (co_unmarshal os text)) (\<lambda>c.
         rbind (validate c) (\<lambda>_. Inr c)))"

definition Save :: "config_os \<Rightarrow> conf \<Rightarrow> string \<Rightarrow> config_files \<Rightarrow> unit res \<times> config_files" where
  "Save os c path fs = (let path = path_or_default path in
     case co_marshal os c of
       Inl e \<Rightarrow> (Inl (wrap ''config: marshal: '' e), fs)
     | Inr text \<Rightarrow>
        (let dir = co_dir os path;
             made = (if dir \<noteq> ''.'' \<and> dir \<noteq> '''' then co_mkdir os dir else Inr ()) in
         case made of
           Inl e \<Rightarrow> (Inl (wrap ''config: create dir: '' e), fs)
         | Inr _ \<Rightarrow> (case co_can_write os path of
             Inl e \<Rightarrow> (Inl (wrap (''config: write '' @ path @ '': '') e), fs)
           | Inr _ \<Rightarrow> (Inr (), fs(path \<mapsto> Inr text)))))"

section \<open>Every section keeps the contract of a keyed table\<close>

text \<open>A section as the CLI uses it: what is declared under a name, a declaration, a removal.\<close>

locale section_edits =
  fixes entry :: "string \<Rightarrow> conf \<Rightarrow> 'v option"
    and add :: "string \<Rightarrow> 'v \<Rightarrow> conf \<Rightarrow> conf"
    and remove :: "string \<Rightarrow> conf \<Rightarrow> bool \<times> conf"
    and others :: "conf \<Rightarrow> 'o"
  assumes entry_add: "entry n (add m v c) = (if n = m then Some v else entry n c)"
    and remove_hit: "fst (remove m c) \<longleftrightarrow> entry m c \<noteq> None"
    and entry_remove: "entry n (snd (remove m c)) = (if n = m then None else entry n c)"
    and others_add: "others (add m v c) = others c"
    and others_remove: "others (snd (remove m c)) = others c"
begin

lemma remove_after_add:
  "fst (remove n (add n v c)) \<and> entry k (snd (remove n (add n v c))) = (if k = n then None else entry k c)"
  by (simp add: remove_hit entry_remove entry_add)

lemma remove_twice: "\<not> fst (remove n (snd (remove n c)))"
  by (simp add: remove_hit entry_remove)

lemma add_replaces: "entry k (add n v (add n u c)) = entry k (add n v c)"
  by (simp add: entry_add)

lemma others_edited: "others (add n v (snd (remove m c))) = others c"
  by (simp add: others_add others_remove)

end

interpretation mcp_section: section_edits
    "\<lambda>n c. map_option (\<lambda>s. \<lparr> pl_Command = sv_Command s, pl_Env = sv_Env s \<rparr>) (select n (cf_MCP c))"
    "\<lambda>n v. AddMCPServer n (pl_Command v) (pl_Env v)" RemoveMCPServer
    "\<lambda>c. (cf_Taps c, cf_Targets c, cf_Secrets c, cf_Webhook c)"
  by unfold_locales (auto simp: AddMCPServer_def RemoveMCPServer_def tbl.get_put tbl.get_del)

interpretation tap_section: section_edits "\<lambda>n c. select n (cf_Taps c)"
    "\<lambda>n v. AddTap n (pl_Command v) (pl_Env v)" RemoveTap
    "\<lambda>c. (cf_MCP c, cf_Targets c, cf_Secrets c, cf_Webhook c)"
  by unfold_locales (auto simp: AddTap_def RemoveTap_def tbl.get_put tbl.get_del)

interpretation target_section: section_edits "\<lambda>n c. select n (cf_Targets c)"
    "\<lambda>n v. AddTarget n (pl_Command v) (pl_Env v)" RemoveTarget
    "\<lambda>c. (cf_MCP c, cf_Taps c, cf_Secrets c, cf_Webhook c)"
  by unfold_locales (auto simp: AddTarget_def RemoveTarget_def tbl.get_put tbl.get_del)

interpretation secret_section: section_edits "\<lambda>n c. select n (cf_Secrets c)" AddSecret RemoveSecret
    "\<lambda>c. (cf_MCP c, cf_Taps c, cf_Targets c, cf_Webhook c)"
  by unfold_locales (auto simp: AddSecret_def RemoveSecret_def tbl.get_put tbl.get_del)

interpretation webhook_section: section_edits "\<lambda>n c. select n (cf_Webhook c)" AddWebhookReceiver RemoveWebhookReceiver
    "\<lambda>c. (cf_MCP c, cf_Taps c, cf_Targets c, cf_Secrets c)"
  by unfold_locales (auto simp: AddWebhookReceiver_def RemoveWebhookReceiver_def tbl.get_put tbl.get_del)

section \<open>Round trip\<close>

definition known_schemes :: "conf \<Rightarrow> bool" where
  "known_schemes c \<longleftrightarrow> list_all (\<lambda>(_, r). wr_Scheme r \<in> {SchemeHMAC, SchemeStandard}) (cf_Webhook c)"

lemma validate_receivers_iff:
  "validate_receivers rs = Inr () \<longleftrightarrow> list_all (\<lambda>(_, r). wr_Scheme r \<in> {SchemeHMAC, SchemeStandard}) rs"
  by (induction rs) (auto split: if_splits)

lemma validate_iff: "validate c = Inr () \<longleftrightarrow> known_schemes c"
  by (simp add: validate_def validate_receivers_iff known_schemes_def)

text \<open>The documented inverse of the YAML codec on a config.\<close>

definition codec_inverts :: "config_os \<Rightarrow> conf \<Rightarrow> bool" where
  "codec_inverts os c \<longleftrightarrow> (case co_marshal os c of Inl _ \<Rightarrow> False | Inr t \<Rightarrow> co_unmarshal os t = Inr c)"

definition writable :: "config_os \<Rightarrow> string \<Rightarrow> bool" where
  "writable os path \<longleftrightarrow> co_mkdir os (co_dir os (path_or_default path)) = Inr ()
     \<and> co_can_write os (path_or_default path) = Inr ()"

text \<open>A config that is written reads back: what Save wrote, Load returns unchanged, provided every
  webhook receiver's scheme is one of the two known ones; Save does not check the scheme, so a
  config with an unknown one is written all the same and every later Load of it fails. A failed
  Save leaves the files as they were.\<close>

theorem Save_then_Load:
  assumes "codec_inverts os c" "writable os path"
  shows "fst (Save os c path fs) = Inr ()
    \<and> (if known_schemes c then Load os (snd (Save os c path fs)) path = Inr c
       else \<exists>e. Load os (snd (Save os c path fs)) path = Inl e)
    \<and> (\<forall>os' c'. fst (Save os' c' path fs) \<noteq> Inr () \<longrightarrow> snd (Save os' c' path fs) = fs)"
proof -
  obtain t where t: "co_marshal os c = Inr t" "co_unmarshal os t = Inr c"
    using assms(1) by (auto simp: codec_inverts_def split: sum.splits)
  have sv: "Save os c path fs = (Inr (), fs(path_or_default path \<mapsto> Inr t))"
    using t assms(2) by (simp add: Save_def writable_def Let_def)
  have dd: "path_or_default (path_or_default path) = path_or_default path" by (simp add: path_or_default_def)
  have "Load os (fs(path_or_default path \<mapsto> Inr t)) path = rbind (validate c) (\<lambda>_. Inr c)"
    using t by (simp add: Load_def)
  moreover have "(if known_schemes c then validate c = Inr () else \<exists>e. validate c = Inl e)"
    using validate_iff [of c] by (cases "validate c") auto
  moreover have "snd (Save os' c' path fs) = fs" if "fst (Save os' c' path fs) \<noteq> Inr ()" for os' c'
    using that by (auto simp: Save_def Let_def split: sum.splits)
  ultimately show ?thesis
    using sv by (auto split: if_splits)
qed

definition typo_conf :: conf where
  "typo_conf = AddWebhookReceiver ''/hook'' \<lparr> wr_Scheme = ''hmca'', wr_Secret = '''', wr_Header = '''',
     wr_Encoding = '''', wr_TimestampHeader = '''', wr_Prefix = '''' \<rparr> empty_conf"

definition memory_os :: config_os where
  "memory_os = \<lparr> co_marshal = (\<lambda>c. Inr (if cf_Webhook c = [] then ''empty'' else ''typo'')),
     co_unmarshal = (\<lambda>t. Inr (if t = ''empty'' then empty_conf else typo_conf)), co_dir = (\<lambda>_. ''.''),
     co_mkdir = (\<lambda>_. Inr ()), co_can_write = (\<lambda>_. Inr ()) \<rparr>"

theorem Save_then_Load_witness:
  "Load memory_os (snd (Save memory_os empty_conf '''' Map.empty)) '''' = Inr empty_conf
   \<and> (\<exists>e. Load memory_os (snd (Save memory_os typo_conf '''' Map.empty)) '''' = Inl e)"
proof -
  have a: "codec_inverts memory_os empty_conf" "codec_inverts memory_os typo_conf" "writable memory_os ''''"
    "known_schemes empty_conf" "\<not> known_schemes typo_conf" by code_simp+
  show ?thesis
    using Save_then_Load [OF a(1,3)] Save_then_Load [OF a(2,3)] a(4,5) by auto
qed

end
