(* ===== verification/Trigger.thy ===== *)
theory Trigger
  imports Runner Worker Config "HOL-Library.Word"
begin

text \<open>
  The trigger receiver (internal/trigger/trigger.go): webhooks and their signatures, manual
  runs, the completed and failed triggers and the items of a poll. A request is its method,
  its path, what reading its body gives and its headers as http.Header.Get answers. HMAC-SHA256
  is a parameter; the clock is a function of the world it is read in (nanoseconds).
\<close>

section \<open>Library: numbers, splitting, encodings\<close>

text \<open>strconv.ParseInt(s, 10, 64): an optional sign, digits, and the range of int64.\<close>

definition is_digit :: "char \<Rightarrow> bool" where
  "is_digit c \<longleftrightarrow> 48 \<le> (of_char c :: nat) \<and> (of_char c :: nat) \<le> 57"

definition digits_value :: "string \<Rightarrow> int" where
  "digits_value ds = foldl (\<lambda>n c. n * 10 + (of_char c - 48)) 0 ds"

definition parse_int64 :: "string \<Rightarrow> int option" where
  "parse_int64 s = (let (neg, ds) = (case s of [] \<Rightarrow> (False, []) | c # cs \<Rightarrow>
         if c = CHR ''-'' then (True, cs) else if c = CHR ''+'' then (False, cs) else (False, s));
       n = (if neg then - digits_value ds else digits_value ds) in
     if ds = [] \<or> \<not> list_all is_digit ds \<or> n < - (2 ^ 63) \<or> n \<ge> 2 ^ 63 then None else Some n)"

text \<open>Subtraction of int64 values wraps.\<close>

definition sub64 :: "int \<Rightarrow> int \<Rightarrow> int" where
  "sub64 a b = sint (word_of_int (a - b) :: 64 word)"

fun split_at :: "char \<Rightarrow> string \<Rightarrow> string list" where
  "split_at c [] = [[]]"
| "split_at c (x # xs) = (if x = c then [] # split_at c xs
     else (case split_at c xs of [] \<Rightarrow> [[x]] | p # ps \<Rightarrow> (x # p) # ps))"

definition trim_prefix :: "string \<Rightarrow> string \<Rightarrow> string" where
  "trim_prefix s p = (if take (length p) s = p then drop (length p) s else s)"

definition hex_encode :: "string \<Rightarrow> string" where
  "hex_encode bs = concat (map (\<lambda>c. hex2 (of_char c)) bs)"

definition b64_char :: "nat \<Rightarrow> char" where
  "b64_char n = ''ABCDEFGHIJKLMNOPQRSTUVWXYZabcdefghijklmnopqrstuvwxyz0123456789+/'' ! (n mod 64)"

text \<open>base64.StdEncoding: three bytes become four characters, the last group padded.\<close>

fun b64_encode :: "string \<Rightarrow> string" where
  "b64_encode [] = []"
| "b64_encode [a] = (let n = of_char a * 65536 in
     [b64_char (n div 262144), b64_char (n div 4096), CHR ''='', CHR ''=''])"
| "b64_encode [a, b] = (let n = of_char a * 65536 + of_char b * 256 in
     [b64_char (n div 262144), b64_char (n div 4096), b64_char (n div 64), CHR ''=''])"
| "b64_encode (a # b # c # r) = (let n = of_char a * 65536 + of_char b * 256 + of_char c in
     b64_char (n div 262144) # b64_char (n div 4096) # b64_char (n div 64) # b64_char n # b64_encode r)"

section \<open>Webhook trigger types\<close>

definition isWebhookType :: "string \<Rightarrow> bool" where
  "isWebhookType t \<longleftrightarrow> t = ''hmac-webhook'' \<or> t = ''standard-webhook''"

definition SchemeForType :: "string \<Rightarrow> string" where
  "SchemeForType t = (if t = ''hmac-webhook'' then SchemeHMAC
     else if t = ''standard-webhook'' then SchemeStandard else '''')"

definition TypeForScheme :: "string \<Rightarrow> string" where
  "TypeForScheme scheme = (if scheme = SchemeHMAC then ''hmac-webhook''
     else if scheme = SchemeStandard then ''standard-webhook'' else '''')"

definition matchPath :: "trigger \<Rightarrow> string" where
  "matchPath tr = str_or_empty (map_of (tr_config tr) ''path'')"

section \<open>The receiver\<close>

record email =
  em_from :: string
  em_to :: "string list option"
  em_subject :: string
  em_body :: string
  em_date :: string
  em_message_id :: string

text \<open>
  The fields of Receiver, then what it uses of its process: the registered capabilities and
  the path of the binary (for the jobs it builds), the YAML decoder, the MAC, and the decoding of
  an encoded item into email.Email.
\<close>

record trigger_receiver =
  tc_queue :: string
  tc_resolver :: "resolver option"
  tc_receivers :: "(string, webhook_receiver) table"
  tc_now :: "jworld \<Rightarrow> int"
  tc_types :: "capability list"
  tc_self :: string
  tc_unmarshal :: "string \<Rightarrow> (string \<times> value) list res"
  tc_mac :: "string \<Rightarrow> string \<Rightarrow> string"
  tc_email :: "value \<Rightarrow> email res"

record request =
  rq_method :: string
  rq_path :: string
  rq_body :: "string res"
  rq_header :: "string \<Rightarrow> string"

definition unix_of :: "int \<Rightarrow> int" where
  "unix_of nanos = nanos div 1000000000"

section \<open>Signatures\<close>

definition within_window :: "int \<Rightarrow> int \<Rightarrow> bool" where
  "within_window now ts \<longleftrightarrow> \<not> (sub64 now ts < - 300 \<or> sub64 now ts > 300)"

definition verifyStandardWebhook :: "(string \<Rightarrow> string \<Rightarrow> string) \<Rightarrow> string \<Rightarrow> (string \<Rightarrow> string) \<Rightarrow> string \<Rightarrow> int \<Rightarrow> bool" where
  "verifyStandardWebhook mac secret h body now =
     (let ident = h ''webhook-id''; tsRaw = h ''webhook-timestamp''; sigHeader = h ''webhook-signature'' in
      if ident = '''' \<or> tsRaw = '''' \<or> sigHeader = '''' then False
      else case parse_int64 tsRaw of
        None \<Rightarrow> False
      | Some ts \<Rightarrow>
         if \<not> within_window (unix_of now) ts then False
         else let expected = b64_encode (mac secret (ident @ ''.'' @ tsRaw @ ''.'' @ body)) in
           list_ex (\<lambda>part. case cut_at (CHR '','') part of
               None \<Rightarrow> False | Some (v, sig) \<Rightarrow> v = ''v1'' \<and> sig = expected) (split_at (CHR '' '') sigHeader))"

definition verifyHMAC :: "(string \<Rightarrow> string \<Rightarrow> string) \<Rightarrow> string \<Rightarrow> (string \<Rightarrow> string) \<Rightarrow> string
    \<Rightarrow> webhook_receiver \<Rightarrow> int \<Rightarrow> bool" where
  "verifyHMAC mac secret h body r now =
     (let header = (if wr_Header r = '''' then ''x-servitor-signature'' else wr_Header r);
          raw = h header in
      if raw = '''' then False
      else let got = (if wr_Prefix r \<noteq> '''' then trim_prefix raw (wr_Prefix r @ ''='') else raw);
          message = (if wr_TimestampHeader r = '''' then Some body
             else let tsRaw = h (wr_TimestampHeader r) in
               if tsRaw = '''' then None
               else case parse_int64 tsRaw of
                 None \<Rightarrow> None
               | Some ts \<Rightarrow> if \<not> within_window (unix_of now) ts then None
                   else Some ((if wr_Prefix r \<noteq> '''' then wr_Prefix r @ '':'' else '''') @ tsRaw @ '':'' @ body));
          encoding = (if wr_Encoding r = '''' then ''base64'' else wr_Encoding r) in
        case message of
          None \<Rightarrow> False
        | Some m \<Rightarrow>
           if encoding = ''hex'' then got = hex_encode (mac secret m)
           else if encoding = ''base64'' then got = b64_encode (mac secret m)
           else False)"

definition verify :: "trigger_receiver \<Rightarrow> webhook_receiver \<Rightarrow> (string \<Rightarrow> string) \<Rightarrow> string \<Rightarrow> int \<Rightarrow> bool" where
  "verify rc r h body now =
     (case tc_resolver rc of
        None \<Rightarrow> True
      | Some resolver \<Rightarrow>
         if wr_Secret r = '''' then True
         else case Resolve resolver ''webhook'' [wr_Secret r] of
           (Inl e, _) \<Rightarrow> True
         | (Inr vals, missing) \<Rightarrow>
            if missing \<noteq> [] then True
            else let secret = (case select (wr_Secret r) vals of None \<Rightarrow> '''' | Some v \<Rightarrow> v) in
              if secret = '''' then True
              else if wr_Scheme r = SchemeStandard then verifyStandardWebhook (tc_mac rc) secret h body now
              else if wr_Scheme r = SchemeHMAC then verifyHMAC (tc_mac rc) secret h body r now
              else True)"

section \<open>Starting runs\<close>

definition start :: "trigger_receiver \<Rightarrow> wafer \<Rightarrow> (string \<times> value) list \<Rightarrow> string \<Rightarrow> unit wsm" where
  "start rc w event runID = seq (StartRun (tc_types rc) (tc_self rc) (tc_queue rc) w (Some event) runID) (ret ())"

text \<open>A run id from a prefix and the clock.\<close>

definition fresh_id :: "trigger_receiver \<Rightarrow> string \<Rightarrow> string wsm" where
  "fresh_id rc pre s = (Inr (pre @ itoa (tc_now rc s)), s)"

definition enqueueRun :: "trigger_receiver \<Rightarrow> wafer \<Rightarrow> string \<Rightarrow> string \<Rightarrow> unit wsm" where
  "enqueueRun rc w path body =
     bind (fresh_id rc (w_name w @ ''-'')) (\<lambda>runID.
     start rc w [(''trigger'', VStr ''webhook''), (''path'', VStr path), (''body'', VStr body)] runID)"

section \<open>Inbound webhooks\<close>

text \<open>A response: the status and the body.\<close>

definition reply :: "int \<Rightarrow> string \<Rightarrow> (int \<times> string) wsm" where
  "reply status text = ret (status, text @ [CHR 0x0A])"

definition trigger_matches :: "webhook_receiver \<Rightarrow> string \<Rightarrow> trigger \<Rightarrow> bool" where
  "trigger_matches recv path tr \<longleftrightarrow> isWebhookType (tr_type tr) \<and> matchPath tr = path
     \<and> SchemeForType (tr_type tr) = wr_Scheme recv"

text \<open>The enabled workflows that parse, once per matching trigger.\<close>

definition webhook_matches :: "trigger_receiver \<Rightarrow> webhook_receiver \<Rightarrow> string \<Rightarrow> (string \<times> workflow_row) list \<Rightarrow> wafer list" where
  "webhook_matches rc recv path wfs = concat (map (\<lambda>(_, row).
     if \<not> wf_enabled row then []
     else case Parse (tc_unmarshal rc) (wf_wafer row) of
       Inl _ \<Rightarrow> []
     | Inr w \<Rightarrow> map (\<lambda>_. w) (filter (trigger_matches recv path) (w_on w))) wfs)"

definition ServeHTTP :: "trigger_receiver \<Rightarrow> request \<Rightarrow> (int \<times> string) wsm" where
  "ServeHTTP rc req =
     (if rq_method req \<noteq> ''POST'' then reply 405 ''method not allowed''
      else case rq_body req of
        Inl _ \<Rightarrow> reply 400 ''read body''
      | Inr body \<Rightarrow>
         try_or (AppendEvent (rq_path req) body) (\<lambda>_. reply 500 ''persist event'') (\<lambda>_.
         case select (rq_path req) (tc_receivers rc) of
           None \<Rightarrow> reply 200 ''ok''
         | Some recv \<Rightarrow> (\<lambda>s.
            (if \<not> verify rc recv (rq_header req) body (tc_now rc s) then reply 401 ''invalid signature''
             else try_or ListWorkflows (\<lambda>_. reply 500 ''list workflows'') (\<lambda>wfs.
               try_or (each (\<lambda>m. enqueueRun rc m (rq_path req) body) (webhook_matches rc recv (rq_path req) wfs))
                 (\<lambda>_. reply 500 ''enqueue run'') (\<lambda>_. reply 200 ''ok''))) s)))"

section \<open>Manual runs\<close>

definition Manual :: "trigger_receiver \<Rightarrow> string \<Rightarrow> (string \<times> value) list option \<Rightarrow> unit wsm" where
  "Manual rc name inputs =
     bind (GetWorkflow name) (\<lambda>wf. case wf of
        None \<Rightarrow> throw (errorf (''trigger: workflow '' @ quote name @ '' is not registered''))
      | Some row \<Rightarrow>
         if \<not> wf_enabled row then throw (errorf (''trigger: workflow '' @ quote name @ '' is disabled''))
         else bind (wrapping (''trigger: workflow '' @ quote name @ '': '') (of_res (Parse (tc_unmarshal rc) (wf_wafer row)))) (\<lambda>w.
           bind (fresh_id rc (name @ ''-'')) (\<lambda>runID.
           wrapping (''trigger: manual '' @ quote name @ '': '')
             (start rc w (case inputs of None \<Rightarrow> [] | Some m \<Rightarrow> m) runID))))"

section \<open>The end of another run\<close>

text \<open>Completed and Failed differ in the trigger type and the words of their messages.\<close>

definition upstream_of :: "trigger \<Rightarrow> string" where
  "upstream_of tr = str_or_empty (map_of (tr_config tr) ''workflow'')"

definition fire_trigger :: "trigger_receiver \<Rightarrow> string \<Rightarrow> string \<Rightarrow> string \<Rightarrow> wafer \<Rightarrow> trigger \<Rightarrow> unit wsm" where
  "fire_trigger rc kind upstream run w tr =
     (if tr_type tr \<noteq> kind \<or> upstream_of tr \<noteq> upstream then ret ()
      else bind (fresh_id rc (w_name w @ ''-'' @ kind @ ''-'')) (\<lambda>runID.
        wrapping (''trigger: '' @ kind @ '' '' @ quote (w_name w) @ '': '')
          (start rc w [(''trigger'', VStr kind), (''from'', VStr upstream), (''from_run'', VStr run)] runID)))"

definition fire_all :: "trigger_receiver \<Rightarrow> string \<Rightarrow> string \<Rightarrow> string \<Rightarrow> unit wsm" where
  "fire_all rc kind upstream run =
     bind (wrapping (''trigger: '' @ kind @ '' list workflows: '') ListWorkflows)
       (each (\<lambda>(_, row).
          if \<not> wf_enabled row then ret ()
          else case Parse (tc_unmarshal rc) (wf_wafer row) of
            Inl _ \<Rightarrow> ret ()
          | Inr w \<Rightarrow> each (fire_trigger rc kind upstream run w) (w_on w)))"

definition Completed :: "trigger_receiver \<Rightarrow> string \<Rightarrow> string \<Rightarrow> unit wsm" where
  "Completed rc completedWorkflow completedRun = fire_all rc ''completed'' completedWorkflow completedRun"

definition Failed :: "trigger_receiver \<Rightarrow> string \<Rightarrow> string \<Rightarrow> unit wsm" where
  "Failed rc failedWorkflow failedRun = fire_all rc ''failed'' failedWorkflow failedRun"

section \<open>Polls\<close>

definition pollEvent :: "trigger_receiver \<Rightarrow> string \<Rightarrow> value \<Rightarrow> (string \<times> value) list res" where
  "pollEvent rc kind item =
     (if kind = ''email'' then
        rbind (map_err (wrap ''trigger: poll email encode: '') (json_marshal item)) (\<lambda>_.
        rbind (map_err (wrap ''trigger: poll email decode: '') (tc_email rc item)) (\<lambda>e.
        Inr [(''trigger'', VStr ''email_received''), (''from'', VStr (em_from e)),
             (''to'', case em_to e of None \<Rightarrow> VNull | Some ts \<Rightarrow> VArr (map VStr ts)), (''subject'', VStr (em_subject e)),
             (''body'', VStr (em_body e)), (''date'', VStr (em_date e)),
             (''message_id'', VStr (em_message_id e))]))
      else Inr [(''trigger'', VStr kind), (''item'', item)])"

definition Polled :: "trigger_receiver \<Rightarrow> string \<Rightarrow> string \<Rightarrow> value list \<Rightarrow> unit wsm" where
  "Polled rc workflowID kind items =
     bind (wrapping (''trigger: poll get workflow '' @ quote workflowID @ '': '') (GetWorkflow workflowID)) (\<lambda>wf.
     case wf of
       None \<Rightarrow> ret ()
     | Some row \<Rightarrow>
        if \<not> wf_enabled row then ret ()
        else bind (wrapping (''trigger: poll workflow '' @ quote workflowID @ '': '')
               (of_res (Parse (tc_unmarshal rc) (wf_wafer row)))) (\<lambda>w.
          each (\<lambda>item.
            bind (of_res (pollEvent rc kind item)) (\<lambda>event.
            bind (fresh_id rc (w_name w @ ''-poll-'')) (\<lambda>runID.
            wrapping (''trigger: poll '' @ quote (w_name w) @ '': '') (start rc w event runID)))) items))"

end
