(* ===== verification/Daemon.thy ===== *)
theory Daemon
  imports Trigger Validate Suspend
begin

text \<open>
  The runner daemon (internal/daemon/daemon.go) and its control protocol (internal/protocol): the
  handlers of the control plane, the cron and email tasks they arm and disarm, the callbacks the
  daemon gives its workers and the loopback check. How the daemon starts, listens and stops is in Boot.
\<close>

section \<open>The control protocol\<close>

abbreviation "PathHealth \<equiv> ''/v1/health''"
abbreviation "PathStop \<equiv> ''/v1/stop''"
abbreviation "PathSubmit \<equiv> ''/v1/submit''"
abbreviation "PathUpdate \<equiv> ''/v1/update''"
abbreviation "PathEnable \<equiv> ''/v1/enable''"
abbreviation "PathDisable \<equiv> ''/v1/disable''"
abbreviation "PathTrigger \<equiv> ''/v1/trigger''"
abbreviation "PathRuns \<equiv> ''/v1/runs''"
abbreviation "PathRun \<equiv> ''/v1/run''"
abbreviation "PathCancel \<equiv> ''/v1/cancel''"
abbreviation "PathResume \<equiv> ''/v1/resume''"
abbreviation "PathRerun \<equiv> ''/v1/rerun''"

text \<open>What a handler reads of its request, and what it answers.\<close>

record control_request =
  cr_path :: string
  cr_query :: "string \<Rightarrow> string"
  cr_body :: "string res"

datatype payload =
    Text string
  | Issues result
  | Runs "(string \<times> run_row) list"
  | RunNodesOf "string \<times> run_row" "(string \<times> value) list"

type_synonym response = "int \<times> payload"

definition http_error :: "int \<Rightarrow> string \<Rightarrow> response wsm" where
  "http_error status text = ret (status, Text (text @ [CHR 0x0A]))"

definition say :: "string \<Rightarrow> response wsm" where
  "say text = ret (200, Text (text @ [CHR 0x0A]))"

section \<open>The server\<close>

text \<open>
  The fields of Server (a store is there or not), then what it uses of its process: the registered
  capabilities, the path of the binary, the YAML decoders and the JSON decoder.
\<close>

record daemon =
  dm_store :: bool
  dm_queue :: "string option"
  dm_receiver :: "trigger_receiver option"
  dm_resolver :: "resolver option"
  dm_receivers :: "(string, webhook_receiver) table"
  dm_types :: "capability list"
  dm_self :: string
  dm_executable :: "string res"
  dm_yaml :: "string \<Rightarrow> value res"
  dm_yaml_map :: "string \<Rightarrow> (string \<times> value) list res"
  dm_json :: "string \<Rightarrow> value res"

definition no_store :: "response wsm" where
  "no_store = http_error 409 ''no store; run the daemon with --db''"

section \<open>Scheduled tasks of a workflow\<close>

definition cron_name :: "wafer \<Rightarrow> nat \<Rightarrow> string" where
  "cron_name w i = w_name w @ '':cron-'' @ show_nat i"

definition email_name :: "wafer \<Rightarrow> nat \<Rightarrow> string" where
  "email_name w i = w_name w @ '':email-'' @ show_nat i"

definition register_cron_trigger :: "daemon \<Rightarrow> string \<Rightarrow> wafer \<Rightarrow> nat \<times> trigger \<Rightarrow> unit wsm" where
  "register_cron_trigger d queue w p = (case p of (i, tr) \<Rightarrow>
     if tr_type tr \<noteq> ''cron'' then ret ()
     else let schedule = str_or_empty (map_of (tr_config tr) ''schedule'') in
       if schedule = '''' then throw (errorf (''cron trigger '' @ show_nat i @ '' has no schedule''))
       else RegisterCron (dm_types d) (dm_self d) queue w \<lparr> ct_Name = cron_name w i, ct_Schedule = schedule,
         ct_RunID = w_name w @ ''-cron-'' @ show_nat i, ct_Event = Some [(''trigger'', VStr ''cron'')] \<rparr>)"

definition registerCron :: "daemon \<Rightarrow> wafer \<Rightarrow> unit wsm" where
  "registerCron d w = (case dm_queue d of
      Some queue \<Rightarrow> if dm_store d then each (register_cron_trigger d queue w) (enumerate 0 (w_on w)) else ret ()
    | None \<Rightarrow> ret ())"

definition unregisterCron :: "wafer \<Rightarrow> unit wsm" where
  "unregisterCron w = each (\<lambda>(i, tr). if tr_type tr \<noteq> ''cron'' then ret ()
     else wrapping (''cron: unregister '' @ cron_name w i @ '': '') (UnregisterScheduledTask (cron_name w i)))
     (enumerate 0 (w_on w))"

definition register_email_trigger :: "daemon \<Rightarrow> string \<Rightarrow> wafer \<Rightarrow> nat \<times> trigger \<Rightarrow> unit wsm" where
  "register_email_trigger d queue w p = (case p of (i, tr) \<Rightarrow>
     if tr_type tr \<noteq> ''email_received'' then ret ()
     else let str = (\<lambda>k. str_or_empty (map_of (tr_config tr) k));
              schedule = (if str ''poll'' = '''' then ''*/5 * * * *'' else str ''poll'') in
       if str ''host'' = '''' \<or> str ''username'' = '''' \<or> str ''secret'' = ''''
       then throw (errorf (''email_received trigger '' @ show_nat i @ '' requires host, username, and secret''))
       else bind (wrapping ''email_received: locate servitor binary: '' (of_res (dm_executable d))) (\<lambda>exe.
         RegisterPoll queue \<lparr> pt_Name = email_name w i, pt_Schedule = schedule, pt_WorkflowID = w_name w,
           pt_Kind = ''email'', pt_Command = [exe, ''__email_poll''], pt_Secrets = [str ''secret''],
           pt_Config = tr_config tr \<rparr>))"

definition registerEmail :: "daemon \<Rightarrow> wafer \<Rightarrow> unit wsm" where
  "registerEmail d w = (case dm_queue d of
      Some queue \<Rightarrow> if dm_store d then each (register_email_trigger d queue w) (enumerate 0 (w_on w)) else ret ()
    | None \<Rightarrow> ret ())"

definition unregisterEmail :: "wafer \<Rightarrow> unit wsm" where
  "unregisterEmail w = each (\<lambda>(i, tr). if tr_type tr \<noteq> ''email_received'' then ret ()
     else wrapping (''email: unregister '' @ email_name w i @ '': '') (UnregisterScheduledTask (email_name w i)))
     (enumerate 0 (w_on w))"

section \<open>Registration\<close>

definition undeclared_secrets :: "daemon \<Rightarrow> wafer \<Rightarrow> string list" where
  "undeclared_secrets d w = (case dm_resolver d of
      None \<Rightarrow> [] | Some r \<Rightarrow> filter (\<lambda>n. \<not> Declared r n) (ReferencedSecrets w))"

text \<open>The receiver whose scheme a webhook trigger contradicts, if any.\<close>

definition scheme_mismatch :: "daemon \<Rightarrow> trigger \<Rightarrow> (string \<times> string \<times> string) option" where
  "scheme_mismatch d tr = (let path = str_or_empty (map_of (tr_config tr) ''path'') in
     if tr_type tr \<noteq> ''hmac-webhook'' \<and> tr_type tr \<noteq> ''standard-webhook'' then None
     else case select path (dm_receivers d) of
       None \<Rightarrow> None
     | Some recv \<Rightarrow> if SchemeForType (tr_type tr) \<noteq> wr_Scheme recv
         then Some (tr_type tr, path, wr_Scheme recv) else None)"

definition mismatch_message :: "string \<times> string \<times> string \<Rightarrow> string" where
  "mismatch_message m = (case m of (typ', path, scheme) \<Rightarrow>
     ''webhook trigger type '' @ quote typ' @ '' does not match the declared receiver '' @ quote path @ '' scheme '' @
     quote scheme @ ''; set the trigger type to '' @ quote (TypeForScheme scheme) @ '' or fix the receiver'')"

text \<open>Before an update: the old workflow's tasks go; an early answer, or none.\<close>

definition retire_old :: "daemon \<Rightarrow> wafer \<Rightarrow> response option wsm" where
  "retire_old d wa =
     try_or (GetWorkflow (w_name wa)) (\<lambda>e. bind (http_error 500 (err_msg e)) (\<lambda>r. ret (Some r))) (\<lambda>existing.
     case existing of
       None \<Rightarrow> bind (http_error 404 (''workflow '' @ w_name wa @ '' is not registered; use submit to register it''))
          (\<lambda>r. ret (Some r))
     | Some row \<Rightarrow> (case Parse (dm_yaml_map d) (wf_wafer row) of
         Inl _ \<Rightarrow> ret None
       | Inr old \<Rightarrow>
          try_or (unregisterCron old) (\<lambda>e. bind (http_error 500 (''unregister old cron: '' @ err_msg e)) (\<lambda>r. ret (Some r))) (\<lambda>_.
          try_or (unregisterEmail old) (\<lambda>e. bind (http_error 500 (''unregister old email: '' @ err_msg e)) (\<lambda>r. ret (Some r)))
            (\<lambda>_. ret None))))"

definition register_wafer :: "daemon \<Rightarrow> wafer \<Rightarrow> string \<Rightarrow> response wsm" where
  "register_wafer d wa body =
     try_or (RegisterWorkflow (w_name wa) body) (\<lambda>e. http_error 500 (err_msg e)) (\<lambda>_.
     try_or (registerCron d wa) (\<lambda>e. http_error 500 (''register cron: '' @ err_msg e)) (\<lambda>_.
     try_or (registerEmail d wa) (\<lambda>e. http_error 500 (''register email: '' @ err_msg e)) (\<lambda>_. say ''ok'')))"

definition handleRegister :: "daemon \<Rightarrow> control_request \<Rightarrow> bool \<Rightarrow> response wsm" where
  "handleRegister d req requireExisting =
     (if \<not> dm_store d then no_store
      else case cr_body req of
        Inl _ \<Rightarrow> http_error 400 ''read body''
      | Inr body \<Rightarrow>
         let found = Validate (dm_types d) (dm_yaml d) body in
         if \<not> Valid found then ret (422, Issues found)
         else case Parse (dm_yaml_map d) body of
           Inl e \<Rightarrow> http_error 400 (''parse wafer: '' @ err_msg e)
         | Inr wa \<Rightarrow>
            if undeclared_secrets d wa \<noteq> [] then
              http_error 422 (''workflow references undeclared secret(s): '' @
                join_with '', '' (undeclared_secrets d wa) @ '' (declare them with `servitor secret add`)'')
            else case List.map_filter (scheme_mismatch d) (w_on wa) of
              m # _ \<Rightarrow> http_error 422 (mismatch_message m)
            | [] \<Rightarrow>
               bind (if requireExisting then retire_old d wa else ret None) (\<lambda>early.
               case early of Some r \<Rightarrow> ret r | None \<Rightarrow> register_wafer d wa body))"

definition handleSubmit :: "daemon \<Rightarrow> control_request \<Rightarrow> response wsm" where
  "handleSubmit d req = handleRegister d req False"

definition handleUpdate :: "daemon \<Rightarrow> control_request \<Rightarrow> response wsm" where
  "handleUpdate d req = handleRegister d req True"

section \<open>Enabling and disabling\<close>

definition syncCron :: "daemon \<Rightarrow> string \<Rightarrow> bool \<Rightarrow> unit wsm" where
  "syncCron d name enabled =
     (if \<not> dm_store d \<or> dm_queue d = None then ret ()
      else bind (GetWorkflow name) (\<lambda>wa. case wa of
        None \<Rightarrow> ret ()
      | Some row \<Rightarrow> bind (of_res (Parse (dm_yaml_map d) (wf_wafer row))) (\<lambda>w.
          if enabled then seq (registerCron d w) (registerEmail d w)
          else seq (unregisterCron w) (unregisterEmail w))))"

definition handleSetEnabled :: "daemon \<Rightarrow> control_request \<Rightarrow> bool \<Rightarrow> response wsm" where
  "handleSetEnabled d req enabled =
     (if \<not> dm_store d then no_store
      else let name = cr_query req ''name'' in
      if name = '''' then http_error 400 ''missing name''
      else try_or (SetWorkflowEnabled name enabled) (\<lambda>e. http_error 404 (err_msg e)) (\<lambda>_.
        try_or (syncCron d name enabled) (\<lambda>e. http_error 500 (''sync cron: '' @ err_msg e)) (\<lambda>_. say ''ok'')))"

section \<open>Runs\<close>

text \<open>json.Unmarshal into a map: an object, or null for the nil map.\<close>

definition json_object :: "(string \<Rightarrow> value res) \<Rightarrow> string \<Rightarrow> (string \<times> value) list option res" where
  "json_object dec body = (case dec body of
      Inl e \<Rightarrow> Inl e
    | Inr (VObj m) \<Rightarrow> Inr (Some m)
    | Inr VNull \<Rightarrow> Inr None
    | Inr _ \<Rightarrow> Inl (errorf ''json: cannot unmarshal into Go value of type map[string]interface {}''))"

definition handleTrigger :: "daemon \<Rightarrow> control_request \<Rightarrow> response wsm" where
  "handleTrigger d req = (case dm_receiver d of
      None \<Rightarrow> http_error 409 ''no trigger receiver; run the daemon with --db''
    | Some rc \<Rightarrow>
       let name = cr_query req ''name'' in
       if name = '''' then http_error 400 ''missing name''
       else case cr_body req of
         Inl _ \<Rightarrow> http_error 400 ''read body''
       | Inr body \<Rightarrow> (case (if body = '''' then Inr None else json_object (dm_json d) body) of
           Inl _ \<Rightarrow> http_error 400 ''inputs must be JSON''
         | Inr inputs \<Rightarrow> try_or (Manual rc name inputs) (\<lambda>e. http_error 404 (err_msg e)) (\<lambda>_. say ''ok'')))"

definition handleRuns :: "daemon \<Rightarrow> control_request \<Rightarrow> response wsm" where
  "handleRuns d req = (if \<not> dm_store d then no_store
     else try_or ListRuns (\<lambda>e. http_error 500 (err_msg e)) (\<lambda>runs. ret (200, Runs runs)))"

definition handleRun :: "daemon \<Rightarrow> control_request \<Rightarrow> response wsm" where
  "handleRun d req = (if \<not> dm_store d then no_store
     else let ident = cr_query req ''id'' in
     if ident = '''' then http_error 400 ''missing id''
     else try_or (GetRun ident) (\<lambda>e. http_error 500 (err_msg e)) (\<lambda>run. case run of
         None \<Rightarrow> http_error 404 ''run not found''
       | Some row \<Rightarrow> try_or (RunNodes ident) (\<lambda>e. http_error 500 (err_msg e))
           (\<lambda>nodes. ret (200, RunNodesOf (ident, row) nodes))))"

definition handleCancel :: "daemon \<Rightarrow> control_request \<Rightarrow> response wsm" where
  "handleCancel d req = (if \<not> dm_store d then no_store
     else let ident = cr_query req ''id'' in
     if ident = '''' then http_error 400 ''missing id''
     else try_or (GetRun ident) (\<lambda>e. http_error 500 (err_msg e)) (\<lambda>run. case run of
         None \<Rightarrow> http_error 404 ''run not found''
       | Some _ \<Rightarrow> try_or (CancelRun ident) (\<lambda>e. http_error 500 (err_msg e)) (\<lambda>_. say ''ok'')))"

definition workflowRerunMode :: "daemon \<Rightarrow> string \<Rightarrow> string wsm" where
  "workflowRerunMode d runID =
     try_or (GetRun runID) (\<lambda>_. ret ''continue'') (\<lambda>run. case run of
       None \<Rightarrow> ret ''continue''
     | Some row \<Rightarrow> try_or (GetWorkflow (rr_workflow row)) (\<lambda>_. ret ''continue'') (\<lambda>wa. case wa of
         None \<Rightarrow> ret ''continue''
       | Some wrow \<Rightarrow> (case Parse (dm_yaml_map d) (wf_wafer wrow) of
           Inl _ \<Rightarrow> ret ''continue''
         | Inr w \<Rightarrow> ret (if w_on_failure w = '''' then ''continue'' else w_on_failure w))))"

definition handleRerun :: "daemon \<Rightarrow> control_request \<Rightarrow> response wsm" where
  "handleRerun d req = (case dm_queue d of
      None \<Rightarrow> no_store
    | Some queue \<Rightarrow> if \<not> dm_store d then no_store
       else let runID = cr_query req ''run-id'' in
       if runID = '''' then http_error 400 ''missing run-id''
       else bind (if cr_query req ''mode'' = '''' then workflowRerunMode d runID else ret (cr_query req ''mode'')) (\<lambda>mode.
         try_or (Rerun (dm_types d) (dm_self d) (dm_yaml_map d) queue runID mode)
           (\<lambda>e. http_error 422 (err_msg e)) (\<lambda>_. say ''ok'')))"

definition handleResume :: "daemon \<Rightarrow> control_request \<Rightarrow> response wsm" where
  "handleResume d req = (case dm_queue d of
      None \<Rightarrow> no_store
    | Some queue \<Rightarrow> if \<not> dm_store d then no_store
       else let name = cr_query req ''name'' in
       if name = '''' then http_error 400 ''missing name''
       else case cr_body req of
         Inl _ \<Rightarrow> http_error 400 ''read body''
       | Inr body \<Rightarrow> (case (if body = '''' then Inr VNull else dm_json d body) of
           Inl _ \<Rightarrow> http_error 400 ''payload must be JSON''
         | Inr v \<Rightarrow> try_or (ResumeBySignal queue name v) (\<lambda>e. http_error 422 (err_msg e)) (\<lambda>_. say ''ok'')))"

section \<open>Routing\<close>

text \<open>NewServer's mux; the shutdown a stop starts is the process's.\<close>

definition route :: "daemon \<Rightarrow> control_request \<Rightarrow> response wsm" where
  "route d req = (let p = cr_path req in
     if p = PathHealth then say ''ok''
     else if p = PathStop then say ''stopping''
     else if p = PathSubmit then handleSubmit d req
     else if p = PathUpdate then handleUpdate d req
     else if p = PathEnable then handleSetEnabled d req True
     else if p = PathDisable then handleSetEnabled d req False
     else if p = PathTrigger then handleTrigger d req
     else if p = PathRuns then handleRuns d req
     else if p = PathRun then handleRun d req
     else if p = PathCancel then handleCancel d req
     else if p = PathResume then handleResume d req
     else if p = PathRerun then handleRerun d req
     else http_error 404 ''404 page not found'')"

section \<open>The callbacks of the workers\<close>

definition on_receiver :: "daemon \<Rightarrow> (trigger_receiver \<Rightarrow> unit wsm) \<Rightarrow> unit wsm" where
  "on_receiver d f = (case dm_receiver d of None \<Rightarrow> ret () | Some rc \<Rightarrow> ignore (f rc))"

definition daemon_worker :: "daemon \<Rightarrow> string \<Rightarrow> worker \<Rightarrow> worker" where
  "daemon_worker d queue w = New (w\<lparr>
     wk_queue := queue,
     wk_onDone := Some (\<lambda>workflowID runID. on_receiver d (\<lambda>rc. Completed rc workflowID runID)),
     wk_onFailed := Some (\<lambda>workflowID runID. on_receiver d (\<lambda>rc. Failed rc workflowID runID)),
     wk_onPoll := Some (\<lambda>workflowID kind items. on_receiver d (\<lambda>rc. Polled rc workflowID kind items)),
     wk_onRerun := Some (\<lambda>runID mode. Rerun (dm_types d) (dm_self d) (dm_yaml_map d) queue runID mode) \<rparr>)"

section \<open>The loopback check\<close>

text \<open>net.SplitHostPort.\<close>

fun index_of :: "char \<Rightarrow> string \<Rightarrow> nat option" where
  "index_of c [] = None"
| "index_of c (x # xs) = (if x = c then Some 0 else map_option Suc (index_of c xs))"

definition last_index_of :: "char \<Rightarrow> string \<Rightarrow> nat option" where
  "last_index_of c s = map_option (\<lambda>i. length s - 1 - i) (index_of c (rev s))"

definition addr_error :: "string \<Rightarrow> string \<Rightarrow> 'a res" where
  "addr_error addr why = Inl (errorf (''address '' @ addr @ '': '' @ why))"

definition SplitHostPort :: "string \<Rightarrow> (string \<times> string) res" where
  "SplitHostPort hp = (case last_index_of (CHR '':'') hp of
      None \<Rightarrow> addr_error hp ''missing port in address''
    | Some i \<Rightarrow>
       rbind (if take 1 hp = ''['' then
           (case index_of (CHR '']'') hp of
              None \<Rightarrow> addr_error hp (''missing '' @ [CHR 0x27] @ '']'' @ [CHR 0x27] @ '' in address'')
            | Some e \<Rightarrow>
               if e + 1 = length hp then addr_error hp ''missing port in address''
               else if e + 1 = i then Inr (drop 1 (take e hp), 1, e + 1)
               else if hp ! (e + 1) = CHR '':'' then addr_error hp ''too many colons in address''
               else addr_error hp ''missing port in address'')
         else if CHR '':'' \<in> set (take i hp) then addr_error hp ''too many colons in address''
         else Inr (take i hp, 0, 0)) (\<lambda>(host, j, k).
       if CHR ''['' \<in> set (drop j hp) then addr_error hp ''unexpected left bracket in address''
       else if CHR '']'' \<in> set (drop k hp) then addr_error hp ''unexpected right bracket in address''
       else Inr (host, drop (i + 1) hp)))"

text \<open>IP.IsLoopback on the sixteen bytes net.ParseIP gives (a parameter): 127.0.0.0/8 or ::1.\<close>

definition IsLoopback :: "int list \<Rightarrow> bool" where
  "IsLoopback ip \<longleftrightarrow> (if take 12 ip = replicate 10 0 @ [255, 255] then ip ! 12 = 127
     else ip = replicate 15 0 @ [1])"

definition checkLoopback :: "(string \<Rightarrow> int list option) \<Rightarrow> string \<Rightarrow> unit res" where
  "checkLoopback parse_ip addr = (case SplitHostPort addr of
      Inl e \<Rightarrow> Inl (wrap (''invalid address '' @ quote addr @ '': '') e)
    | Inr (host, _) \<Rightarrow>
       if host = ''localhost'' then Inr ()
       else case parse_ip host of
         Some ip \<Rightarrow> if IsLoopback ip then Inr () else
           Inl (errorf (''refusing to bind a non-loopback address (ADR-0009: control plane is loopback-only): '' @ quote addr))
       | None \<Rightarrow>
           Inl (errorf (''refusing to bind a non-loopback address (ADR-0009: control plane is loopback-only): '' @ quote addr)))"

end
