(* ===== verification/Client.thy ===== *)
theory Client
  imports Io Refs Daemon
begin

text \<open>
  The client of the control protocol (internal/protocol/client.go): the request each operation
  makes, its query escaped as net/url does, and the reading of the answer. The transport is a
  parameter; one of them is the daemon of Daemon.thy itself, whose server reads the query back.
\<close>

section \<open>Queries (net/url)\<close>

definition unreserved :: "char \<Rightarrow> bool" where
  "unreserved ch \<longleftrightarrow> ref_char ch \<or> ch \<in> set ''-.~''"

definition upper_digit :: "nat \<Rightarrow> char" where
  "upper_digit n = ''0123456789ABCDEF'' ! n"

definition query_char :: "char \<Rightarrow> string" where
  "query_char ch = (if unreserved ch then [ch] else if ch = CHR '' '' then ''+''
     else (let n = of_char ch in [CHR ''%'', upper_digit (n div 16), upper_digit (n mod 16)]))"

definition QueryEscape :: "string \<Rightarrow> string" where
  "QueryEscape s = concat (map query_char s)"

definition digit_of :: "char \<Rightarrow> nat option" where
  "digit_of ch =
     (if CHR ''0'' \<le> ch \<and> ch \<le> CHR ''9'' then Some (of_char ch - 48)
      else if CHR ''A'' \<le> ch \<and> ch \<le> CHR ''F'' then Some (of_char ch - 55)
      else if CHR ''a'' \<le> ch \<and> ch \<le> CHR ''f'' then Some (of_char ch - 87) else None)"

text \<open>url.QueryUnescape; None is its error, a percent sign without two digits behind it.\<close>

function QueryUnescape :: "string \<Rightarrow> string option" where
  "QueryUnescape [] = Some []"
| "QueryUnescape (ch # s) =
     (if ch = CHR ''%'' then (case s of
        a # b # r \<Rightarrow> (case (digit_of a, digit_of b) of
            (Some h, Some l) \<Rightarrow> map_option ((#) (char_of (16 * h + l))) (QueryUnescape r)
          | _ \<Rightarrow> None)
      | _ \<Rightarrow> None)
      else map_option ((#) (if ch = CHR ''+'' then CHR '' '' else ch)) (QueryUnescape s))"
  by pat_completeness auto
termination by (relation "measure length") auto

text \<open>url.ParseQuery: a setting with a semicolon, an empty one, or one that cannot be unescaped is
  left out. Get returns the first value of a key.\<close>

definition query_setting :: "string \<Rightarrow> (string \<times> string) option" where
  "query_setting s =
     (if CHR '';'' \<in> set s \<or> s = '''' then None
      else let (k, v) = (case cut_at (CHR ''='') s of None \<Rightarrow> (s, '''') | Some p \<Rightarrow> p) in
        (case (QueryUnescape k, QueryUnescape v) of (Some k, Some v) \<Rightarrow> Some (k, v) | _ \<Rightarrow> None))"

definition query_get :: "string \<Rightarrow> string \<Rightarrow> string" where
  "query_get raw key =
     (case map_of (List.map_filter query_setting (split_at (CHR ''&'') raw)) key of Some v \<Rightarrow> v | None \<Rightarrow> '''')"

section \<open>The client\<close>

record client_request =
  cl_method :: string
  cl_url :: string
  cl_body :: "string option"

record client_reply =
  cy_code :: int
  cy_status :: string
  cy_body :: string          \<comment> \<open>as much of it as could be read\<close>

record 's transport =
  tn_bad :: "client_request \<Rightarrow> err option"       \<comment> \<open>http.NewRequest refuses it\<close>
  tn_do :: "client_request \<Rightarrow> ('s, client_reply) io"

definition doBody :: "'s transport \<Rightarrow> string \<Rightarrow> string \<Rightarrow> string \<Rightarrow> string option \<Rightarrow> ('s, string) io" where
  "doBody tn addr method path body =
     (let req = \<lparr> cl_method = method, cl_url = ''http://'' @ addr @ path, cl_body = body \<rparr> in
      case tn_bad tn req of
        Some e \<Rightarrow> io_throw e
      | None \<Rightarrow> io_bind (tn_do tn req) (\<lambda>y.
          if cy_code y \<noteq> 200 then
            io_throw (errorf (''daemon '' @ path @ '' failed: '' @
              (if trim_space (cy_body y) = '''' then cy_status y else trim_space (cy_body y))))
          else io_ret (cy_body y)))"

definition Client_Stop :: "'s transport \<Rightarrow> string \<Rightarrow> ('s, unit) io" where
  "Client_Stop tn addr = io_seq (doBody tn addr ''POST'' PathStop None) (io_ret ())"

definition Client_Health :: "'s transport \<Rightarrow> string \<Rightarrow> ('s, unit) io" where
  "Client_Health tn addr = io_seq (doBody tn addr ''GET'' PathHealth None) (io_ret ())"

definition Client_Submit :: "'s transport \<Rightarrow> string \<Rightarrow> string \<Rightarrow> ('s, string) io" where
  "Client_Submit tn addr wafer = doBody tn addr ''POST'' PathSubmit (Some wafer)"

definition Client_Update :: "'s transport \<Rightarrow> string \<Rightarrow> string \<Rightarrow> ('s, string) io" where
  "Client_Update tn addr wafer = doBody tn addr ''POST'' PathUpdate (Some wafer)"

definition Client_Enable :: "'s transport \<Rightarrow> string \<Rightarrow> string \<Rightarrow> ('s, unit) io" where
  "Client_Enable tn addr name =
     io_seq (doBody tn addr ''POST'' (PathEnable @ ''?name='' @ QueryEscape name) None) (io_ret ())"

definition Client_Disable :: "'s transport \<Rightarrow> string \<Rightarrow> string \<Rightarrow> ('s, unit) io" where
  "Client_Disable tn addr name =
     io_seq (doBody tn addr ''POST'' (PathDisable @ ''?name='' @ QueryEscape name) None) (io_ret ())"

definition Client_Trigger :: "'s transport \<Rightarrow> string \<Rightarrow> string \<Rightarrow> string option \<Rightarrow> ('s, unit) io" where
  "Client_Trigger tn addr name inputs =
     io_seq (doBody tn addr ''POST'' (PathTrigger @ ''?name='' @ QueryEscape name) inputs) (io_ret ())"

definition Client_ListRuns :: "'s transport \<Rightarrow> string \<Rightarrow> ('s, string) io" where
  "Client_ListRuns tn addr = doBody tn addr ''GET'' PathRuns None"

definition Client_GetRun :: "'s transport \<Rightarrow> string \<Rightarrow> string \<Rightarrow> ('s, string) io" where
  "Client_GetRun tn addr ident = doBody tn addr ''GET'' (PathRun @ ''?id='' @ QueryEscape ident) None"

definition Client_Cancel :: "'s transport \<Rightarrow> string \<Rightarrow> string \<Rightarrow> ('s, unit) io" where
  "Client_Cancel tn addr ident =
     io_seq (doBody tn addr ''POST'' (PathCancel @ ''?id='' @ QueryEscape ident) None) (io_ret ())"

definition Client_Resume :: "'s transport \<Rightarrow> string \<Rightarrow> string \<Rightarrow> string option \<Rightarrow> ('s, unit) io" where
  "Client_Resume tn addr name payload =
     io_seq (doBody tn addr ''POST'' (PathResume @ ''?name='' @ QueryEscape name) payload) (io_ret ())"

definition Client_Rerun :: "'s transport \<Rightarrow> string \<Rightarrow> string \<Rightarrow> string \<Rightarrow> ('s, unit) io" where
  "Client_Rerun tn addr runID mode =
     io_seq (doBody tn addr ''POST'' (PathRerun @ ''?run-id='' @ QueryEscape runID @ ''&mode='' @ QueryEscape mode) None)
       (io_ret ())"

section \<open>The daemon as a transport\<close>

text \<open>The server's view of a request: the path and the query of its target.\<close>

definition control_of :: "string \<Rightarrow> string option \<Rightarrow> control_request" where
  "control_of target body =
     (let (path, raw) = (case cut_at (CHR ''?'') target of None \<Rightarrow> (target, '''') | Some p \<Rightarrow> p) in
      \<lparr> cr_path = path, cr_query = query_get raw,
        cr_body = Inr (case body of None \<Rightarrow> '''' | Some b \<Rightarrow> b) \<rparr>)"

text \<open>The answer as text: \<^verbatim>\<open>enc\<close> is the server's encoding of a payload.\<close>

definition reply_of :: "(payload \<Rightarrow> string) \<Rightarrow> response \<Rightarrow> client_reply" where
  "reply_of enc r = \<lparr> cy_code = fst r, cy_status = itoa (fst r), cy_body = enc (snd r) \<rparr>"

definition served :: "(payload \<Rightarrow> string) \<Rightarrow> response wsm \<Rightarrow> (jworld, client_reply) io" where
  "served enc h w = (case h w of (Inl e, w') \<Rightarrow> (Inl e, w') | (Inr r, w') \<Rightarrow> (Inr (reply_of enc r), w'))"

definition loopback :: "daemon \<Rightarrow> (payload \<Rightarrow> string) \<Rightarrow> string \<Rightarrow> jworld transport" where
  "loopback d enc addr = \<lparr> tn_bad = (\<lambda>_. None),
     tn_do = (\<lambda>req. served enc (route d (control_of (drop (7 + length addr) (cl_url req)) (cl_body req)))) \<rparr>"

section \<open>An escaped value reads back\<close>

lemma upper_digit_of: "n < 16 \<Longrightarrow> digit_of (upper_digit n) = Some n"
proof -
  have "\<forall>n\<in>set [0..<16]. digit_of (upper_digit n) = Some n" by code_simp
  then show "n < 16 \<Longrightarrow> digit_of (upper_digit n) = Some n" by simp
qed

lemma unreserved_plain: "unreserved ch \<Longrightarrow> ch \<noteq> CHR ''%'' \<and> ch \<noteq> CHR ''+''"
  by (auto simp: unreserved_def ref_char_def)

lemma char_digit: "(of_char ch :: nat) div 16 < 16"
  using nat_of_char_less_256 [of ch] by (intro less_mult_imp_div_less) simp

lemma QueryUnescape_char: "QueryUnescape (query_char ch @ s) = map_option ((#) ch) (QueryUnescape s)"
proof -
  have "(of_char ch :: nat) div 16 < 16" by (rule char_digit)
  moreover have "char_of (16 * (of_char ch div 16) + of_char ch mod 16 :: nat) = ch" by simp
  ultimately show ?thesis
    using unreserved_plain [of ch] by (simp add: query_char_def Let_def upper_digit_of)
qed

lemma QueryUnescape_QueryEscape: "QueryUnescape (QueryEscape s) = Some s"
proof (induction s)
  case (Cons ch s)
  then show ?case using QueryUnescape_char [of ch "QueryEscape s"] by (simp add: QueryEscape_def)
qed (simp add: QueryEscape_def)

text \<open>An escaped text is made of unreserved characters, plus and percent signs.\<close>

definition escaped_char :: "char \<Rightarrow> bool" where
  "escaped_char ch \<longleftrightarrow> unreserved ch \<or> ch = CHR ''+'' \<or> ch = CHR ''%''"

lemma upper_digit_unreserved: "n < 16 \<Longrightarrow> unreserved (upper_digit n)"
proof -
  have "\<forall>n\<in>set [0..<16]. unreserved (upper_digit n)" by code_simp
  then show "n < 16 \<Longrightarrow> unreserved (upper_digit n)" by simp
qed

lemma query_char_escaped: "list_all escaped_char (query_char ch)"
proof -
  have "(of_char ch :: nat) div 16 < 16" by (rule char_digit)
  then show ?thesis by (simp add: query_char_def Let_def escaped_char_def upper_digit_unreserved)
qed

lemma QueryEscape_escaped: "list_all escaped_char (QueryEscape s)"
  by (induction s) (simp_all add: QueryEscape_def query_char_escaped)

lemma escaped_no_separator:
  "escaped_char ch \<Longrightarrow> ch \<noteq> CHR ''&'' \<and> ch \<noteq> CHR ''='' \<and> ch \<noteq> CHR '';'' \<and> ch \<noteq> CHR ''?''"
  by (auto simp: escaped_char_def unreserved_def ref_char_def)

lemma QueryEscape_no_separator:
  "CHR ''&'' \<notin> set (QueryEscape s)" "CHR ''='' \<notin> set (QueryEscape s)"
  "CHR '';'' \<notin> set (QueryEscape s)" "CHR ''?'' \<notin> set (QueryEscape s)"
  using QueryEscape_escaped [of s] escaped_no_separator unfolding list_all_iff by blast+

lemma split_at_none: "c \<notin> set s \<Longrightarrow> split_at c s = [s]"
  by (induction s) auto

lemma split_at_append: "c \<notin> set a \<Longrightarrow> split_at c (a @ c # b) = a # split_at c b"
  by (induction a) auto

text \<open>One setting of a key that is plain text.\<close>

definition plain_key :: "string \<Rightarrow> bool" where
  "plain_key k \<longleftrightarrow> k \<noteq> '''' \<and> list_all (\<lambda>ch. ch = CHR ''-'' \<or> ref_char ch) k"

lemma key_char: "ch = CHR ''-'' \<or> ref_char ch \<Longrightarrow> ch \<noteq> CHR ''%'' \<and> ch \<noteq> CHR ''+''"
  by (auto simp: ref_char_def)

lemma QueryUnescape_plain: "list_all (\<lambda>ch. ch = CHR ''-'' \<or> ref_char ch) k \<Longrightarrow> QueryUnescape k = Some k"
proof (induction k)
  case (Cons ch k)
  then have "ch \<noteq> CHR ''%''" "ch \<noteq> CHR ''+''" using key_char [of ch] by simp_all
  then show ?case using Cons by simp
qed simp

lemma key_no_separator:
  "ch = CHR ''-'' \<or> ref_char ch \<Longrightarrow> ch \<noteq> CHR ''&'' \<and> ch \<noteq> CHR ''='' \<and> ch \<noteq> CHR '';'' \<and> ch \<noteq> CHR ''?''"
  by (auto simp: ref_char_def)

lemma plain_key_separator:
  "plain_key k \<Longrightarrow> CHR ''&'' \<notin> set k \<and> CHR ''='' \<notin> set k \<and> CHR '';'' \<notin> set k \<and> CHR ''?'' \<notin> set k"
  unfolding plain_key_def list_all_iff using key_no_separator by blast

lemma query_setting_escaped: "plain_key k \<Longrightarrow> query_setting (k @ CHR ''='' # QueryEscape v) = Some (k, v)"
  using plain_key_separator [of k] QueryEscape_no_separator [of v]
  by (simp add: query_setting_def QueryUnescape_QueryEscape QueryUnescape_plain plain_key_def)

lemma query_get_one: "plain_key k \<Longrightarrow> query_get (k @ CHR ''='' # QueryEscape v) k = v"
  using plain_key_separator [of k] QueryEscape_no_separator [of v]
  by (simp add: query_get_def split_at_none query_setting_escaped List.map_filter_simps)

lemma query_get_two:
  assumes "plain_key k" "plain_key k'" "k \<noteq> k'"
  shows "query_get (k @ CHR ''='' # QueryEscape v @ CHR ''&'' # k' @ CHR ''='' # QueryEscape v') k = v"
    and "query_get (k @ CHR ''='' # QueryEscape v @ CHR ''&'' # k' @ CHR ''='' # QueryEscape v') k' = v'"
proof -
  have "split_at (CHR ''&'') ((k @ CHR ''='' # QueryEscape v) @ CHR ''&'' # (k' @ CHR ''='' # QueryEscape v'))
      = [k @ CHR ''='' # QueryEscape v, k' @ CHR ''='' # QueryEscape v']"
    using plain_key_separator [OF assms(1)] plain_key_separator [OF assms(2)] QueryEscape_no_separator
    by (subst split_at_append) (auto simp: split_at_none)
  then show "query_get (k @ CHR ''='' # QueryEscape v @ CHR ''&'' # k' @ CHR ''='' # QueryEscape v') k = v"
    "query_get (k @ CHR ''='' # QueryEscape v @ CHR ''&'' # k' @ CHR ''='' # QueryEscape v') k' = v'"
    using assms by (simp_all add: query_get_def query_setting_escaped List.map_filter_simps)
qed

section \<open>A request reaches its handler\<close>

definition answered :: "(payload \<Rightarrow> string) \<Rightarrow> string \<Rightarrow> response wsm \<Rightarrow> (jworld, string) io" where
  "answered enc path h = io_bind (served enc h) (\<lambda>y.
     if cy_code y \<noteq> 200 then
       io_throw (errorf (''daemon '' @ path @ '' failed: '' @
         (if trim_space (cy_body y) = '''' then cy_status y else trim_space (cy_body y))))
     else io_ret (cy_body y))"

lemma drop_origin: "drop (7 + length addr) (''http://'' @ addr @ path) = path"
proof -
  have "7 + length addr = length (''http://'' @ addr)" by simp
  then show ?thesis by (metis append_assoc append_eq_conv_conj)
qed

lemma doBody_loopback: "doBody (loopback d enc addr) addr method path body = answered enc path (route d (control_of path body))"
  using drop_origin [of addr path]
  by (simp only: doBody_def loopback_def answered_def Let_def transport.simps client_request.simps option.case)

lemma control_of_query:
  "CHR ''?'' \<notin> set p \<Longrightarrow> control_of (p @ CHR ''?'' # q) body =
     \<lparr> cr_path = p, cr_query = query_get q, cr_body = Inr (case body of None \<Rightarrow> '''' | Some b \<Rightarrow> b) \<rparr>"
  by (simp add: control_of_def)

text \<open>C32: 
  C48: What the operator names is what the daemon's handler gets. Over the daemon as its transport,
  every operation of the client that names a workflow, a run or a signal is the answer of its own
  handler to a request whose query reads that name back (a rerun: the run and the mode), whatever
  characters they hold, with the body unchanged.
\<close>

theorem client_reaches_handler:
  "\<exists>q1 q2 q3 q4 q5 q6 q7.
     q1 ''name'' = name \<and> Client_Enable (loopback d enc addr) addr name =
       io_seq (answered enc (PathEnable @ ''?name='' @ QueryEscape name)
         (handleSetEnabled d \<lparr> cr_path = PathEnable, cr_query = q1, cr_body = Inr '''' \<rparr> True)) (io_ret ())
   \<and> q2 ''name'' = name \<and> Client_Disable (loopback d enc addr) addr name =
       io_seq (answered enc (PathDisable @ ''?name='' @ QueryEscape name)
         (handleSetEnabled d \<lparr> cr_path = PathDisable, cr_query = q2, cr_body = Inr '''' \<rparr> False)) (io_ret ())
   \<and> q3 ''name'' = name \<and> Client_Trigger (loopback d enc addr) addr name (Some body) =
       io_seq (answered enc (PathTrigger @ ''?name='' @ QueryEscape name)
         (handleTrigger d \<lparr> cr_path = PathTrigger, cr_query = q3, cr_body = Inr body \<rparr>)) (io_ret ())
   \<and> q4 ''name'' = name \<and> Client_Resume (loopback d enc addr) addr name (Some body) =
       io_seq (answered enc (PathResume @ ''?name='' @ QueryEscape name)
         (handleResume d \<lparr> cr_path = PathResume, cr_query = q4, cr_body = Inr body \<rparr>)) (io_ret ())
   \<and> q5 ''id'' = ident \<and> Client_GetRun (loopback d enc addr) addr ident =
       answered enc (PathRun @ ''?id='' @ QueryEscape ident)
         (handleRun d \<lparr> cr_path = PathRun, cr_query = q5, cr_body = Inr '''' \<rparr>)
   \<and> q6 ''id'' = ident \<and> Client_Cancel (loopback d enc addr) addr ident =
       io_seq (answered enc (PathCancel @ ''?id='' @ QueryEscape ident)
         (handleCancel d \<lparr> cr_path = PathCancel, cr_query = q6, cr_body = Inr '''' \<rparr>)) (io_ret ())
   \<and> q7 ''run-id'' = ident \<and> q7 ''mode'' = mode \<and> Client_Rerun (loopback d enc addr) addr ident mode =
       io_seq (answered enc (PathRerun @ ''?run-id='' @ QueryEscape ident @ ''&mode='' @ QueryEscape mode)
         (handleRerun d \<lparr> cr_path = PathRerun, cr_query = q7, cr_body = Inr '''' \<rparr>)) (io_ret ())"
proof -
  have keys: "plain_key ''name''" "plain_key ''id''" "plain_key ''run-id''" "plain_key ''mode''" by code_simp+
  have name: "query_get (''name='' @ QueryEscape v) ''name'' = v" and id: "query_get (''id='' @ QueryEscape v) ''id'' = v" for v
    using query_get_one [OF keys(1), of v] query_get_one [OF keys(2), of v] by simp_all
  have rerun: "query_get (''run-id='' @ QueryEscape ident @ ''&mode='' @ QueryEscape mode) ''run-id'' = ident"
    "query_get (''run-id='' @ QueryEscape ident @ ''&mode='' @ QueryEscape mode) ''mode'' = mode"
    using query_get_two [OF keys(3,4), of ident mode] by simp_all
  have target: "control_of (p @ ''?name='' @ v) b = \<lparr> cr_path = p, cr_query = query_get (''name='' @ v),
        cr_body = Inr (case b of None \<Rightarrow> '''' | Some b \<Rightarrow> b) \<rparr>"
    "control_of (p @ ''?id='' @ v) b = \<lparr> cr_path = p, cr_query = query_get (''id='' @ v),
        cr_body = Inr (case b of None \<Rightarrow> '''' | Some b \<Rightarrow> b) \<rparr>"
    "control_of (p @ ''?run-id='' @ v) b = \<lparr> cr_path = p, cr_query = query_get (''run-id='' @ v),
        cr_body = Inr (case b of None \<Rightarrow> '''' | Some b \<Rightarrow> b) \<rparr>" if "CHR ''?'' \<notin> set p" for p v b
    using control_of_query [OF that, of "''name='' @ v" b] control_of_query [OF that, of "''id='' @ v" b]
      control_of_query [OF that, of "''run-id='' @ v" b] by simp_all
  have routed:
    "route d \<lparr> cr_path = PathEnable, cr_query = q, cr_body = b \<rparr> = handleSetEnabled d \<lparr> cr_path = PathEnable, cr_query = q, cr_body = b \<rparr> True"
    "route d \<lparr> cr_path = PathDisable, cr_query = q, cr_body = b \<rparr> = handleSetEnabled d \<lparr> cr_path = PathDisable, cr_query = q, cr_body = b \<rparr> False"
    "route d \<lparr> cr_path = PathTrigger, cr_query = q, cr_body = b \<rparr> = handleTrigger d \<lparr> cr_path = PathTrigger, cr_query = q, cr_body = b \<rparr>"
    "route d \<lparr> cr_path = PathResume, cr_query = q, cr_body = b \<rparr> = handleResume d \<lparr> cr_path = PathResume, cr_query = q, cr_body = b \<rparr>"
    "route d \<lparr> cr_path = PathRun, cr_query = q, cr_body = b \<rparr> = handleRun d \<lparr> cr_path = PathRun, cr_query = q, cr_body = b \<rparr>"
    "route d \<lparr> cr_path = PathCancel, cr_query = q, cr_body = b \<rparr> = handleCancel d \<lparr> cr_path = PathCancel, cr_query = q, cr_body = b \<rparr>"
    "route d \<lparr> cr_path = PathRerun, cr_query = q, cr_body = b \<rparr> = handleRerun d \<lparr> cr_path = PathRerun, cr_query = q, cr_body = b \<rparr>" for q b
    by (simp_all add: route_def Let_def)
  have plain: "CHR ''?'' \<notin> set PathEnable" "CHR ''?'' \<notin> set PathDisable" "CHR ''?'' \<notin> set PathTrigger"
    "CHR ''?'' \<notin> set PathResume" "CHR ''?'' \<notin> set PathRun" "CHR ''?'' \<notin> set PathCancel" "CHR ''?'' \<notin> set PathRerun"
    by simp_all
  let ?n = "query_get (''name='' @ QueryEscape name)" and ?i = "query_get (''id='' @ QueryEscape ident)"
  let ?r = "query_get (''run-id='' @ QueryEscape ident @ ''&mode='' @ QueryEscape mode)"
  show ?thesis
    by (rule exI [of _ ?n], rule exI [of _ ?n], rule exI [of _ ?n], rule exI [of _ ?n], rule exI [of _ ?i],
        rule exI [of _ ?i], rule exI [of _ ?r])
      (simp only: Client_Enable_def Client_Disable_def Client_Trigger_def Client_Resume_def Client_GetRun_def
        Client_Cancel_def Client_Rerun_def doBody_loopback target [OF plain(1)] target [OF plain(2)] target [OF plain(3)]
        target [OF plain(4)] target [OF plain(5)] target [OF plain(6)] target [OF plain(7)] routed name id rerun
        option.case simp_thms)
qed


end
