(* ===== verification/McpClient.thy ===== *)
theory McpClient
  imports Mcp Singer Io Refs
begin

text \<open>
  The MCP client (internal/components/mcp: mcp.go, http.go, discover.go): JSON-RPC requests, the
  session over a subprocess's pipes and the session over Streamable HTTP, the probe for the
  protocol mode, the handshake of the classic mode, listing tools and calling one. Both sessions
  meet one interface, the locale at the end.

  The peer is a parameter: what a process prints given the lines written to it so far, and what
  a server answers to the requests posted so far. So are the decoders of its JSON texts. A
  process that neither prints nor exits is stopped when its context ends, so what it prints is
  a finite text.
\<close>

section \<open>Messages\<close>

text \<open>A nil map and an empty one are both omitted; a request without an id is a notification.\<close>

record rpc_request =
  rp_ID :: "int option"
  rp_Method :: string
  rp_Params :: object
  rp_Meta :: object

record rpc_response =
  ra_ID :: int
  ra_Result :: string               \<comment> \<open>the raw JSON text, empty when absent\<close>
  ra_Error :: "(int \<times> string) option"

definition json_member :: "string \<times> value \<Rightarrow> string res" where
  "json_member p = rbind (json_marshal (snd p)) (\<lambda>t. Inr (json_string (fst p) @ '':'' @ t))"

definition request_members :: "rpc_request \<Rightarrow> (string \<times> value) list" where
  "request_members req =
     [(''jsonrpc'', VStr ''2.0'')] @
     (case rp_ID req of None \<Rightarrow> [] | Some i \<Rightarrow> [(''id'', VInt i)]) @
     [(''method'', VStr (rp_Method req))] @
     (if rp_Params req = [] then [] else [(''params'', VObj (rp_Params req))]) @
     (if rp_Meta req = [] then [] else [(''_meta'', VObj (rp_Meta req))])"

definition encode_request :: "rpc_request \<Rightarrow> string res" where
  "encode_request req = rbind (rmap json_member (request_members req)) (\<lambda>ts.
     Inr (''{'' @ join_with '','' ts @ ''}''))"

text \<open>The decoders: one message, the first message of a longer text, a tool list, a tool result
  (its content blocks and the error flag).\<close>

record rpc_codec =
  cd_message :: "string \<Rightarrow> rpc_response res"
  cd_first :: "string \<Rightarrow> rpc_response res"
  cd_tools :: "string \<Rightarrow> tool list res"
  cd_result :: "string \<Rightarrow> (object list \<times> bool) res"

definition clientInfo :: "value" where
  "clientInfo = VObj [(''name'', VStr ''servitor''), (''version'', VStr ''0'')]"

definition meta :: object where
  "meta = [(''protocolVersion'', VStr ''2026-07-28''), (''capabilities'', VObj []), (''clientInfo'', clientInfo)]"

definition initialize_params :: object where
  "initialize_params =
     [(''protocolVersion'', VStr ''2025-06-18''), (''capabilities'', VObj []), (''clientInfo'', clientInfo)]"

definition call_params :: "string \<Rightarrow> object option \<Rightarrow> object" where
  "call_params name args =
     [(''name'', VStr name), (''arguments'', case args of None \<Rightarrow> VNull | Some m \<Rightarrow> VObj m)]"

definition result_of :: "(object list \<times> bool) \<Rightarrow> call_result" where
  "result_of p = \<lparr> cs_content = textFromContent (fst p), cs_data = fst p, cs_is_error = snd p \<rparr>"

section \<open>The session over a subprocess (mcp.go)\<close>

record mcp_process =
  mp_start :: "string list \<Rightarrow> string list \<Rightarrow> err option"   \<comment> \<open>argv, environment\<close>
  mp_write :: "string list \<Rightarrow> err option"                 \<comment> \<open>the lines so far, the last being written\<close>
  mp_flush :: "string list \<Rightarrow> err option"
  mp_out :: "string list \<Rightarrow> string"
  mp_read_err :: "string list \<Rightarrow> err option"
  mp_ctx_err :: "string list \<Rightarrow> err option"
  mp_stderr :: "string list \<Rightarrow> string"

record stdio_client =
  sc_sent :: "rpc_request list"
  sc_read :: nat                    \<comment> \<open>lines of the output consumed\<close>
  sc_next :: int

definition new_stdio :: stdio_client where
  "new_stdio = \<lparr> sc_sent = [], sc_read = 0, sc_next = 1 \<rparr>"

definition start_server :: "mcp_process \<Rightarrow> server_request \<Rightarrow> stdio_client res" where
  "start_server p req = (case sv_command req of
      [] \<Rightarrow> Inl (errorf ''mcp: empty command'')
    | name # _ \<Rightarrow> (case mp_start p (sv_command req) (sv_env req) of
        Some e \<Rightarrow> Inl (wrap (''mcp: start '' @ name @ '': '') e)
      | None \<Rightarrow> Inr new_stdio))"

definition line_of :: "rpc_request \<Rightarrow> string" where
  "line_of req = (case encode_request req of Inl _ \<Rightarrow> '''' | Inr t \<Rightarrow> t)"

text \<open>Writing one line; the errors of Write and Flush are told apart by their prefix.\<close>

definition write_line :: "mcp_process \<Rightarrow> string \<Rightarrow> string \<Rightarrow> rpc_request \<Rightarrow> (stdio_client, unit) io" where
  "write_line p wpre fpre req c =
     (let c' = c\<lparr> sc_sent := sc_sent c @ [req] \<rparr>; lines = map line_of (sc_sent c') in
      case mp_write p lines of
        Some e \<Rightarrow> (Inl (wrap wpre e), c')
      | None \<Rightarrow> (case mp_flush p lines of
          Some e \<Rightarrow> (Inl (wrap fpre e), c')
        | None \<Rightarrow> (Inr (), c')))"

text \<open>
  The read loop: blank and undecodable lines and answers to other requests are skipped. The
  result is the answer found, the number of lines consumed, and whether a line was too long for
  the scanner, which then stays where it is.
\<close>

fun read_answer :: "rpc_codec \<Rightarrow> int \<Rightarrow> string list \<Rightarrow> nat \<Rightarrow> rpc_response option \<times> nat \<times> bool" where
  "read_answer cd i [] n = (None, n, False)"
| "read_answer cd i (l # ls) n =
     (if int (length l) \<ge> max_token then (None, n, True)
      else if trim_space l = [] then read_answer cd i ls (Suc n)
      else case cd_message cd (trim_space l) of
        Inl _ \<Rightarrow> read_answer cd i ls (Suc n)
      | Inr r \<Rightarrow> if ra_ID r = i then (Some r, Suc n, False) else read_answer cd i ls (Suc n))"

definition no_answer :: "mcp_process \<Rightarrow> string \<Rightarrow> bool \<Rightarrow> string list \<Rightarrow> err" where
  "no_answer p method long lines =
     (if long then errorf ''bufio.Scanner: token too long''
      else case mp_read_err p lines of Some e \<Rightarrow> e
      | None \<Rightarrow> (case mp_ctx_err p lines of Some e \<Rightarrow> e
      | None \<Rightarrow> errorf (''mcp: server closed without responding to '' @ method @ '': '' @ mp_stderr p lines)))"

definition send :: "mcp_process \<Rightarrow> rpc_codec \<Rightarrow> string \<Rightarrow> object \<Rightarrow> object \<Rightarrow> (stdio_client, rpc_response) io" where
  "send p cd method ps mt c =
     (let i = sc_next c;
          req = \<lparr> rp_ID = Some i, rp_Method = method, rp_Params = ps, rp_Meta = mt \<rparr>;
          c = c\<lparr> sc_next := i + 1 \<rparr> in
      case encode_request req of
        Inl e \<Rightarrow> (Inl e, c)
      | Inr _ \<Rightarrow> (case write_line p (''mcp: write '' @ method @ '': '') (''mcp: flush '' @ method @ '': '') req c of
          (Inl e, c) \<Rightarrow> (Inl e, c)
        | (Inr _, c) \<Rightarrow>
           let lines = map line_of (sc_sent c) in
           (case read_answer cd i (drop (sc_read c) (lines_of [] (mp_out p lines))) (sc_read c) of
              (Some r, n, _) \<Rightarrow> (Inr r, c\<lparr> sc_read := n \<rparr>)
            | (None, n, long) \<Rightarrow> (Inl (no_answer p method long lines), c\<lparr> sc_read := n \<rparr>))))"

definition initialize :: "mcp_process \<Rightarrow> rpc_codec \<Rightarrow> (stdio_client, unit) io" where
  "initialize p cd =
     io_bind (send p cd ''initialize'' initialize_params []) (\<lambda>resp.
     case ra_Error resp of
       Some e \<Rightarrow> io_throw (errorf (''mcp: initialize: '' @ snd e))
     | None \<Rightarrow> write_line p ''mcp: initialized: '' ''''
         \<lparr> rp_ID = None, rp_Method = ''notifications/initialized'', rp_Params = [], rp_Meta = [] \<rparr>)"

definition probe :: "mcp_process \<Rightarrow> rpc_codec \<Rightarrow> (stdio_client, string) io" where
  "probe p cd =
     io_bind (io_attempt (send p cd ''tools/list'' [] meta)) (\<lambda>r.
     case r of
       Inr resp \<Rightarrow> if ra_Error resp = None then io_ret ModeStateless
         else io_seq (io_wrap ''mcp: probe: neither stateless nor classic: '' (initialize p cd)) (io_ret ModeClassic)
     | Inl _ \<Rightarrow> io_seq (io_wrap ''mcp: probe: neither stateless nor classic: '' (initialize p cd)) (io_ret ModeClassic))"

definition listTools :: "mcp_process \<Rightarrow> rpc_codec \<Rightarrow> string \<Rightarrow> (stdio_client, tool list) io" where
  "listTools p cd mode =
     io_bind (send p cd ''tools/list'' [] (if mode = ModeClassic then [] else meta)) (\<lambda>resp.
     case ra_Error resp of
       Some e \<Rightarrow> io_throw (errorf (''mcp: tools/list: '' @ snd e))
     | None \<Rightarrow> io_of (map_err (wrap ''mcp: tools/list result: '') (cd_tools cd (ra_Result resp))))"

definition discover_session :: "mcp_process \<Rightarrow> rpc_codec \<Rightarrow> (stdio_client, discovery) io" where
  "discover_session p cd =
     io_bind (probe p cd) (\<lambda>mode.
     io_bind (listTools p cd mode) (\<lambda>ts. io_ret \<lparr> di_mode = mode, di_tools = ts \<rparr>))"

definition Discover :: "mcp_process \<Rightarrow> rpc_codec \<Rightarrow> server_request \<Rightarrow> discovery res" where
  "Discover p cd req = rbind (start_server p req) (\<lambda>c. fst (discover_session p cd c))"

definition call_session :: "mcp_process \<Rightarrow> rpc_codec \<Rightarrow> call_request \<Rightarrow> (stdio_client, call_result) io" where
  "call_session p cd req =
     io_bind (if sv_mode (ca_server req) = '''' then probe p cd
              else if sv_mode (ca_server req) = ModeClassic then io_seq (initialize p cd) (io_ret ModeClassic)
              else io_ret (sv_mode (ca_server req))) (\<lambda>mode.
     io_bind (send p cd ''tools/call'' (call_params (ca_tool req) (ca_input req))
                (if mode = ModeStateless then meta else [])) (\<lambda>resp.
     case ra_Error resp of
       Some e \<Rightarrow> io_throw (errorf (''mcp: tools/call '' @ ca_tool req @ '': '' @ snd e))
     | None \<Rightarrow> io_bind (io_of (map_err (wrap ''mcp: tools/call result: '') (cd_result cd (ra_Result resp))))
         (\<lambda>p. io_ret (result_of p))))"

definition Call :: "mcp_process \<Rightarrow> rpc_codec \<Rightarrow> call_request \<Rightarrow> call_result res" where
  "Call p cd req = rbind (start_server p (ca_server req)) (\<lambda>c. fst (call_session p cd req c))"

section \<open>The session over Streamable HTTP (http.go)\<close>

text \<open>net/http's canonical form of a header name; a name with a byte no header may have is kept.\<close>

definition header_char :: "char \<Rightarrow> bool" where
  "header_char ch \<longleftrightarrow> ref_char ch \<or> ch \<in> set ''!#$%&*+-.^`|~'' \<or> ch = CHR 0x27"

definition upper_char :: "char \<Rightarrow> char" where
  "upper_char ch = (if CHR ''a'' \<le> ch \<and> ch \<le> CHR ''z'' then char_of (of_char ch - 32 :: nat) else ch)"

definition lower_char :: "char \<Rightarrow> char" where
  "lower_char ch = (if CHR ''A'' \<le> ch \<and> ch \<le> CHR ''Z'' then char_of (of_char ch + 32 :: nat) else ch)"

fun canonical_from :: "bool \<Rightarrow> string \<Rightarrow> string" where
  "canonical_from up [] = []"
| "canonical_from up (ch # s) = (if up then upper_char ch else lower_char ch) # canonical_from (ch = CHR ''-'') s"

definition canonical_header :: "string \<Rightarrow> string" where
  "canonical_header k = (if list_all header_char k then canonical_from True k else k)"

definition set_header :: "string \<Rightarrow> string \<Rightarrow> (string, string) table \<Rightarrow> (string, string) table" where
  "set_header k v hs = upsert (canonical_header k) v hs"

record http_request =
  hq_url :: string
  hq_headers :: "(string, string) table"
  hq_message :: rpc_request
  hq_body :: string

record http_answer =
  ha_code :: int
  ha_status :: string
  ha_session :: string
  ha_ctype :: string
  ha_body :: string

record mcp_server =
  ms_bad_url :: "string \<Rightarrow> err option"                  \<comment> \<open>http.NewRequest refuses it\<close>
  ms_do :: "http_request list \<Rightarrow> http_answer res"     \<comment> \<open>the requests so far, the last being answered\<close>

record http_client =
  hp_url :: string
  hp_headers :: "(string \<times> string) list"
  hp_session :: string
  hp_next :: int
  hp_sent :: "http_request list"

definition newHTTPClient :: "http_connector \<Rightarrow> http_client" where
  "newHTTPClient conn = \<lparr> hp_url = hc_url conn, hp_headers = hc_headers conn, hp_session = '''',
     hp_next = 0, hp_sent = [] \<rparr>"

definition post_headers :: "http_client \<Rightarrow> (string, string) table" where
  "post_headers c =
     (let hs = fold (\<lambda>(k, v). set_header k v) (hp_headers c)
        (set_header ''Accept'' ''application/json, text/event-stream'' (set_header ''Content-Type'' ''application/json'' []))
      in if hp_session c = '''' then hs else set_header ''Mcp-Session-Id'' (hp_session c) hs)"

definition http_post :: "mcp_server \<Rightarrow> rpc_request \<Rightarrow> string \<Rightarrow> (http_client, http_answer) io" where
  "http_post ms req body c = (case ms_bad_url ms (hp_url c) of
      Some e \<Rightarrow> (Inl (wrap ''mcp http: '' e), c)
    | None \<Rightarrow>
       let c' = c\<lparr> hp_sent := hp_sent c @ [\<lparr> hq_url = hp_url c, hq_headers = post_headers c,
                     hq_message = req, hq_body = body \<rparr>] \<rparr> in
       (map_err (wrap (''mcp http: '' @ hp_url c @ '': '')) (ms_do ms (hp_sent c')), c'))"

definition keep_session :: "http_answer \<Rightarrow> (http_client, unit) io" where
  "keep_session a c = (Inr (), if ha_session a = '''' then c else c\<lparr> hp_session := ha_session a \<rparr>)"

text \<open>strings.Contains.\<close>

fun contains_text :: "string \<Rightarrow> string \<Rightarrow> bool" where
  "contains_text [] p = (p = [])"
| "contains_text (ch # s) p = (has_prefix (ch # s) p \<or> contains_text s p)"

definition sse_data :: "string \<Rightarrow> string" where
  "sse_data line = (if has_prefix line ''data:'' then
     (let d = trim_space (drop 5 line) in if d = ''[DONE]'' then '''' else d) else '''')"

definition readSSE :: "rpc_codec \<Rightarrow> string \<Rightarrow> rpc_response res" where
  "readSSE cd body = (let data = concat (map sse_data (fst (scan body))) in
     if data = '''' then Inl (errorf ''mcp http: empty SSE response'')
     else map_err (wrap ''mcp http: parse SSE data: '') (cd_message cd data))"

definition read_reply :: "rpc_codec \<Rightarrow> http_answer \<Rightarrow> rpc_response res" where
  "read_reply cd a =
     (if contains_text (ha_ctype a) ''text/event-stream'' then readSSE cd (ha_body a)
      else if ha_code a < 200 \<or> ha_code a \<ge> 300
        then Inl (errorf (''mcp http: '' @ ha_status a @ '': '' @ trim_space (ha_body a)))
      else map_err (wrap ''mcp http: decode response: '') (cd_first cd (ha_body a)))"

definition roundtrip :: "mcp_server \<Rightarrow> rpc_codec \<Rightarrow> rpc_request \<Rightarrow> (http_client, rpc_response) io" where
  "roundtrip ms cd req =
     io_bind (io_of (encode_request req)) (\<lambda>body.
     io_bind (http_post ms req body) (\<lambda>a.
     io_seq (keep_session a) (io_of (read_reply cd a))))"

definition http_send :: "mcp_server \<Rightarrow> rpc_codec \<Rightarrow> string \<Rightarrow> object \<Rightarrow> object \<Rightarrow> (http_client, rpc_response) io" where
  "http_send ms cd method ps mt c =
     (let i = hp_next c + 1 in
      roundtrip ms cd \<lparr> rp_ID = Some i, rp_Method = method, rp_Params = ps, rp_Meta = mt \<rparr> (c\<lparr> hp_next := i \<rparr>))"

definition http_notify :: "mcp_server \<Rightarrow> string \<Rightarrow> object \<Rightarrow> (http_client, unit) io" where
  "http_notify ms method ps =
     (let req = \<lparr> rp_ID = None, rp_Method = method, rp_Params = ps, rp_Meta = [] \<rparr> in
      io_bind (io_of (encode_request req)) (\<lambda>body.
      io_bind (http_post ms req body) keep_session))"

definition http_initialize :: "mcp_server \<Rightarrow> rpc_codec \<Rightarrow> (http_client, unit) io" where
  "http_initialize ms cd =
     io_bind (http_send ms cd ''initialize'' initialize_params []) (\<lambda>resp.
     case ra_Error resp of
       Some e \<Rightarrow> io_throw (errorf (''mcp http: initialize: '' @ snd e))
     | None \<Rightarrow> http_notify ms ''notifications/initialized'' [])"

definition http_probe :: "mcp_server \<Rightarrow> rpc_codec \<Rightarrow> (http_client, string) io" where
  "http_probe ms cd =
     io_bind (io_attempt (http_send ms cd ''tools/list'' [] meta)) (\<lambda>r.
     case r of
       Inr resp \<Rightarrow> if ra_Error resp = None then io_ret ModeStateless
         else io_seq (io_wrap ''mcp http: probe: neither stateless nor classic: '' (http_initialize ms cd)) (io_ret ModeClassic)
     | Inl _ \<Rightarrow> io_seq (io_wrap ''mcp http: probe: neither stateless nor classic: '' (http_initialize ms cd)) (io_ret ModeClassic))"

definition http_listTools :: "mcp_server \<Rightarrow> rpc_codec \<Rightarrow> string \<Rightarrow> (http_client, tool list) io" where
  "http_listTools ms cd mode =
     io_bind (http_send ms cd ''tools/list'' [] (if mode = ModeClassic then [] else meta)) (\<lambda>resp.
     case ra_Error resp of
       Some e \<Rightarrow> io_throw (errorf (''mcp http: tools/list: '' @ snd e))
     | None \<Rightarrow> io_of (map_err (wrap ''mcp http: tools/list result: '') (cd_tools cd (ra_Result resp))))"

definition http_discover_session :: "mcp_server \<Rightarrow> rpc_codec \<Rightarrow> (http_client, discovery) io" where
  "http_discover_session ms cd =
     io_bind (http_probe ms cd) (\<lambda>mode.
     io_bind (http_listTools ms cd mode) (\<lambda>ts. io_ret \<lparr> di_mode = mode, di_tools = ts \<rparr>))"

definition HTTPDiscover :: "mcp_server \<Rightarrow> rpc_codec \<Rightarrow> http_connector \<Rightarrow> discovery res" where
  "HTTPDiscover ms cd conn = fst (http_discover_session ms cd (newHTTPClient conn))"

record http_call_request =
  hr_connector :: http_connector
  hr_mode :: string
  hr_tool :: string
  hr_input :: "object option"

definition http_call_session :: "mcp_server \<Rightarrow> rpc_codec \<Rightarrow> http_call_request \<Rightarrow> (http_client, call_result) io" where
  "http_call_session ms cd req =
     io_bind (if hr_mode req = '''' then http_probe ms cd
              else if hr_mode req = ModeClassic then io_seq (http_initialize ms cd) (io_ret ModeClassic)
              else io_ret (hr_mode req)) (\<lambda>mode.
     io_bind (http_send ms cd ''tools/call'' (call_params (hr_tool req) (hr_input req))
                (if mode = ModeStateless then meta else [])) (\<lambda>resp.
     case ra_Error resp of
       Some e \<Rightarrow> io_throw (errorf (''mcp http: tools/call '' @ hr_tool req @ '': '' @ snd e))
     | None \<Rightarrow> io_bind (io_of (map_err (wrap ''mcp http: tools/call result: '') (cd_result cd (ra_Result resp))))
         (\<lambda>p. io_ret (result_of p))))"

definition HTTPCall :: "mcp_server \<Rightarrow> rpc_codec \<Rightarrow> http_call_request \<Rightarrow> call_result res" where
  "HTTPCall ms cd req = fst (http_call_session ms cd req (newHTTPClient (hr_connector req)))"

section \<open>Discovery of the declared servers (discover.go)\<close>

record discovered_server =
  ds_name :: string
  ds_mode :: string
  ds_tools :: "tool list"
  ds_probe_err :: string

definition discovered :: "string \<Rightarrow> discovery res \<Rightarrow> discovered_server" where
  "discovered name d = (case d of
      Inl e \<Rightarrow> \<lparr> ds_name = name, ds_mode = '''', ds_tools = [], ds_probe_err = err_msg e \<rparr>
    | Inr d \<Rightarrow> \<lparr> ds_name = name, ds_mode = di_mode d, ds_tools = di_tools d, ds_probe_err = '''' \<rparr>)"

definition discoverServer :: "(string list \<Rightarrow> mcp_process) \<Rightarrow> rpc_codec \<Rightarrow> string list \<Rightarrow> string \<Rightarrow> string list \<Rightarrow> discovered_server" where
  "discoverServer procs cd env name command =
     (let command = (if command = [] then [name] else command) in
      discovered name (Discover (procs command) cd \<lparr> sv_command = command, sv_env = env, sv_mode = '''' \<rparr>))"

definition DiscoverServers :: "(string list \<Rightarrow> mcp_process) \<Rightarrow> rpc_codec \<Rightarrow> (string, string list) table
    \<Rightarrow> string list \<Rightarrow> discovered_server list" where
  "DiscoverServers procs cd declared env =
     map (\<lambda>name. discoverServer procs cd env name (case select name declared of None \<Rightarrow> [] | Some c \<Rightarrow> c))
       (sort (remdups (map fst declared)))"

section \<open>What a session says\<close>

text \<open>The messages sent, each with its method and whether it carries the stateless \<^verbatim>\<open>_meta\<close>.\<close>

type_synonym said = "(string \<times> bool) list"

definition spoken :: "rpc_request \<Rightarrow> string \<times> bool" where
  "spoken r = (rp_Method r, rp_Meta r \<noteq> [])"

definition stdio_said :: "stdio_client \<Rightarrow> said" where
  "stdio_said c = map spoken (sc_sent c)"

definition http_said :: "http_client \<Rightarrow> said" where
  "http_said c = map (spoken \<circ> hq_message) (hp_sent c)"

definition handshake :: said where
  "handshake = [(''initialize'', False), (''notifications/initialized'', False)]"

text \<open>What a call says when the mode is authored: nothing is probed.\<close>

definition call_script :: "string \<Rightarrow> said" where
  "call_script mode = (if mode = ModeClassic then handshake else []) @ [(''tools/call'', mode = ModeStateless)]"

text \<open>What a probe says, given its outcome.\<close>

definition probe_script :: "string res \<Rightarrow> said \<Rightarrow> bool" where
  "probe_script r t \<longleftrightarrow> (case r of
      Inl _ \<Rightarrow> \<exists>u v. t = u @ v \<and> prefix u [(''tools/list'', True)] \<and> prefix v handshake
    | Inr mode \<Rightarrow> if mode = ModeStateless then t = [(''tools/list'', True)]
        else mode = ModeClassic \<and> (\<exists>u. t = u @ handshake \<and> prefix u [(''tools/list'', True)]))"

end
