(* ===== verification/Capabilities.thy ===== *)
theory Capabilities
  imports McpClient Config Registry Secrets
begin

text \<open>
  What the box offers, written as files an agent reads: the discovery of Singer taps
  (internal/components/singer/discover.go) and the capability set (internal/capabilities), one file
  per type, an index, and a report each on secrets, secret sources, taps, servers and receivers.
  The YAML encoder, the JSON decoder, the programs and servers probed and the file system's
  refusals are parameters; the files are a table from paths to texts.
\<close>

section \<open>Taps (discover.go)\<close>

record stream =
  st_stream :: string
  st_tap_stream_id :: string
  st_schema :: object
  st_metadata :: "value list"

record discovered_tap =
  dt_name :: string
  dt_config :: object
  dt_catalog :: "stream list"
  dt_about_err :: string
  dt_discover_err :: string

text \<open>json.Unmarshal into a map: null is the nil map.\<close>

definition unmarshalObject :: "(string \<Rightarrow> value res) \<Rightarrow> string \<Rightarrow> object res" where
  "unmarshalObject dec b = map_err (wrap ''not a JSON object: '') (case dec b of
      Inl e \<Rightarrow> Inl e
    | Inr (VObj m) \<Rightarrow> Inr m
    | Inr VNull \<Rightarrow> Inr []
    | Inr _ \<Rightarrow> Inl (errorf ''json: cannot unmarshal into Go value of type map[string]interface {}''))"

text \<open>The items of a catalog: an array, or the \<^verbatim>\<open>streams\<close> of an object.\<close>

definition catalog_items :: "value \<Rightarrow> value list" where
  "catalog_items v = (case v of
      VArr vs \<Rightarrow> vs
    | VObj m \<Rightarrow> (case as_arr (map_of m ''streams'') of Some vs \<Rightarrow> vs | None \<Rightarrow> [])
    | _ \<Rightarrow> [])"

definition selected_metadata :: "value" where
  "selected_metadata = VObj [(''breadcrumb'', VArr []), (''metadata'', VObj [(''selected'', VBool True)])]"

definition stream_of :: "value \<Rightarrow> stream option" where
  "stream_of item = (case item of
      VObj m \<Rightarrow> (let name = str_or_empty (map_of m ''stream''); sid = str_or_empty (map_of m ''tap_stream_id'') in
        if name = '''' then None
        else Some \<lparr> st_stream = name, st_tap_stream_id = (if sid = '''' then name else sid),
               st_schema = (case as_obj (map_of m ''schema'') of Some s \<Rightarrow> s | None \<Rightarrow> []),
               st_metadata = [selected_metadata] \<rparr>)
    | _ \<Rightarrow> None)"

definition parseCatalog :: "(string \<Rightarrow> value res) \<Rightarrow> string \<Rightarrow> stream list" where
  "parseCatalog dec b = (case dec b of
      Inl _ \<Rightarrow> [] | Inr v \<Rightarrow> List.map_filter stream_of (catalog_items v))"

text \<open>\<^verbatim>\<open>output argv\<close> is what the program prints, or why it failed.\<close>

definition discover :: "(string list \<Rightarrow> string res) \<Rightarrow> (string \<Rightarrow> value res) \<Rightarrow> string \<Rightarrow> string list \<Rightarrow> discovered_tap" where
  "discover output dec name command =
     (let base = (if command = [] then [name] else command);
          about = output (base @ [''--about'']);
          disc = output (base @ [''--discover'']) in
      \<lparr> dt_name = name,
        dt_config = (case about of Inl _ \<Rightarrow> [] | Inr out \<Rightarrow>
           (case unmarshalObject dec out of Inl _ \<Rightarrow> [] | Inr cfg \<Rightarrow> cfg)),
        dt_catalog = (case disc of Inl _ \<Rightarrow> [] | Inr out \<Rightarrow> parseCatalog dec out),
        dt_about_err = (case about of Inl e \<Rightarrow> err_msg e | Inr _ \<Rightarrow> ''''),
        dt_discover_err = (case disc of Inl e \<Rightarrow> err_msg e | Inr _ \<Rightarrow> '''') \<rparr>)"

definition DiscoverTaps :: "(string list \<Rightarrow> string res) \<Rightarrow> (string \<Rightarrow> value res) \<Rightarrow> (string, string list) table \<Rightarrow> discovered_tap list" where
  "DiscoverTaps output dec declared =
     map (\<lambda>name. discover output dec name (case select name declared of None \<Rightarrow> [] | Some c \<Rightarrow> c)) (sortedKeys declared)"

section \<open>Reports (capabilities.go)\<close>

record entry =
  en_kind :: string
  en_type :: string
  en_group :: string
  en_role :: string
  en_delivery :: string
  en_description :: string
  en_schema :: object
  en_example :: object

record mechanism_group =
  mg_name :: string
  mg_nodes :: "string list"
  mg_triggers :: "string list"
  mg_sources :: "string list"

record secret_entry =
  se_name :: string
  se_source :: string
  se_account :: string
  se_permissions :: "string list"
  se_expiry :: string

record receiver_entry =
  re_path :: string
  re_scheme :: string
  re_secret :: string
  re_header :: string
  re_encoding :: string
  re_timestamp_header :: string
  re_prefix :: string

text \<open>The documents encoded; each but an entry also says that it is generated.\<close>

datatype report =
    Entry entry
  | Index "mechanism_group list"
  | SecretsReport "secret_entry list"
  | SourcesReport "(string \<times> string) list"         \<comment> \<open>name, description\<close>
  | TapsReport string "discovered_tap list"          \<comment> \<open>note\<close>
  | ServersReport string "discovered_server list"
  | ReceiversReport string "receiver_entry list"

record cap_os =
  cp_mkdir :: "string \<Rightarrow> err option"
  cp_write :: "string \<Rightarrow> err option"
  cp_yaml :: "report \<Rightarrow> string res"
  cp_config_os :: config_os
  cp_config_files :: config_files
  cp_output :: "string list \<Rightarrow> string res"
  cp_json :: "string \<Rightarrow> value res"
  cp_procs :: "string list \<Rightarrow> mcp_process"
  cp_server :: mcp_server
  cp_codec :: rpc_codec
  cp_providers :: registry              \<comment> \<open>secret.DefaultRegistry\<close>
  cp_types :: "capability list"

abbreviation "DefaultDir \<equiv> ''.servitor/capabilities''"

text \<open>filepath.Join of a clean directory name and a plain element.\<close>

definition in_dir :: "string \<Rightarrow> string \<Rightarrow> string" where
  "in_dir dir name = dir @ ''/'' @ name"

definition make_dir :: "cap_os \<Rightarrow> string \<Rightarrow> string \<Rightarrow> (files, unit) io" where
  "make_dir os pre path fs = (case cp_mkdir os path of Some e \<Rightarrow> (Inl (wrap pre e), fs) | None \<Rightarrow> (Inr (), fs))"

definition put_file :: "cap_os \<Rightarrow> string \<Rightarrow> string \<Rightarrow> string \<Rightarrow> (files, unit) io" where
  "put_file os pre path body fs =
     (case cp_write os path of Some e \<Rightarrow> (Inl (wrap pre e), fs) | None \<Rightarrow> (Inr (), upsert path body fs))"

definition marshal_report :: "cap_os \<Rightarrow> string \<Rightarrow> report \<Rightarrow> (files, string) io" where
  "marshal_report os what r = io_of (map_err (wrap (''capabilities: marshal '' @ what @ '': '')) (cp_yaml os r))"

definition load_config :: "cap_os \<Rightarrow> conf res" where
  "load_config os = Load (cp_config_os os) (cp_config_files os) ''''"

text \<open>A report of a group: encoded, the group's directory made, the file written.\<close>

definition write_report :: "cap_os \<Rightarrow> string \<Rightarrow> string \<Rightarrow> string \<Rightarrow> string \<Rightarrow> report \<Rightarrow> (files, unit) io" where
  "write_report os dir what grp name r =
     io_bind (marshal_report os what r) (\<lambda>data.
     io_seq (make_dir os (''capabilities: create '' @ grp @ '' group: '') (in_dir dir grp))
       (put_file os (''capabilities: write '' @ grp @ ''/'' @ name @ '': '') (in_dir (in_dir dir grp) name) data))"

section \<open>Types and the index\<close>

definition role_string :: "role \<Rightarrow> string" where
  "role_string r = (case r of RoleTrigger \<Rightarrow> ''trigger'' | RoleAction \<Rightarrow> ''action'' | RoleFlow \<Rightarrow> ''flow'' | RoleUnset \<Rightarrow> '''')"

definition node_entry :: "capability \<Rightarrow> entry" where
  "node_entry st = \<lparr> en_kind = ''node'', en_type = c_name st, en_group = c_group st, en_role = role_string (c_role st),
     en_delivery = '''', en_description = c_desc st, en_schema = JSONSchema st, en_example = NodeExample st \<rparr>"

definition trigger_entry :: "capability \<Rightarrow> entry" where
  "trigger_entry tt = \<lparr> en_kind = ''trigger'', en_type = c_name tt, en_group = c_group tt, en_role = ''trigger'',
     en_delivery = c_delivery tt, en_description = c_desc tt, en_schema = JSONSchema tt, en_example = TriggerExample tt \<rparr>"

definition entry_path :: "string \<Rightarrow> entry \<Rightarrow> string" where
  "entry_path dir e = in_dir (in_dir dir (en_group e)) (en_type e @ ''.yaml'')"

definition writeEntry :: "cap_os \<Rightarrow> string \<Rightarrow> entry \<Rightarrow> (files, unit) io" where
  "writeEntry os dir e =
     io_seq (make_dir os (''capabilities: create '' @ in_dir dir (en_group e) @ '': '') (in_dir dir (en_group e)))
    (io_bind (marshal_report os (en_type e) (Entry e)) (\<lambda>data.
       put_file os (''capabilities: write '' @ entry_path dir e @ '': '') (entry_path dir e) data))"

definition writeTypes :: "cap_os \<Rightarrow> string \<Rightarrow> (files, unit) io" where
  "writeTypes os dir =
     io_seq (io_each (\<lambda>st. writeEntry os dir (node_entry st)) (Nodes (cp_types os)))
       (io_each (\<lambda>tt. writeEntry os dir (trigger_entry tt)) (TriggerTypes (cp_types os)))"

definition names_in :: "string \<Rightarrow> capability list \<Rightarrow> string list" where
  "names_in grp ts = map c_name (filter (\<lambda>t. c_group t = grp) ts)"

definition group_of :: "cap_os \<Rightarrow> string \<Rightarrow> mechanism_group" where
  "group_of os grp = \<lparr> mg_name = grp,
     mg_nodes = sort (names_in grp (Nodes (cp_types os))),
     mg_triggers = sort (names_in grp (TriggerTypes (cp_types os))),
     mg_sources = (if grp = ''secret-resolution'' then sort (SourceNames (cp_providers os)) else []) \<rparr>"

definition index_groups :: "cap_os \<Rightarrow> mechanism_group list" where
  "index_groups os = map (group_of os) (sort (first_uses
     (map c_group (Nodes (cp_types os)) @ map c_group (TriggerTypes (cp_types os)) @ [''secret-resolution''])))"

definition writeIndex :: "cap_os \<Rightarrow> string \<Rightarrow> (files, unit) io" where
  "writeIndex os dir =
     io_bind (marshal_report os ''index'' (Index (index_groups os))) (\<lambda>data.
     put_file os ''capabilities: write index: '' (in_dir dir ''index.yaml'') data)"

section \<open>Secrets and their sources\<close>

definition secret_entry_of :: "string \<times> secret_decl \<Rightarrow> secret_entry" where
  "secret_entry_of p = \<lparr> se_name = fst p, se_source = sd_Source (snd p), se_account = sd_Account (snd p),
     se_permissions = sd_Permissions (snd p), se_expiry = sd_Expiry (snd p) \<rparr>"

text \<open>The rows of a section in the order of their keys.\<close>

definition sorted_rows :: "(string, 'v) table \<Rightarrow> (string \<times> 'v) list" where
  "sorted_rows t = List.map_filter (\<lambda>k. map_option (Pair k) (select k t)) (sortedKeys t)"

definition writeSecrets :: "cap_os \<Rightarrow> string \<Rightarrow> (files, unit) io" where
  "writeSecrets os dir =
     io_bind (io_of (map_err (wrap ''capabilities: load config: '') (load_config os))) (\<lambda>cfg.
     io_bind (marshal_report os ''secrets'' (SecretsReport (map secret_entry_of (sorted_rows (cf_Secrets cfg))))) (\<lambda>data.
     put_file os ''capabilities: write secrets.yaml: '' (in_dir dir ''secrets.yaml'') data))"

definition sourceDescription :: "string \<Rightarrow> string" where
  "sourceDescription source =
     (if source = ''env'' then ''plain environment: the operator exports the value (dev/testing fallback)''
      else if source = ''varlock'' then ''varlock pull source: loads the resolved set once, serves per node''
      else if source = ''onbox'' then ''push-based on-box ciphertext: sealed to the box, decrypted locally (recommended)''
      else '''')"

definition writeSecretSources :: "cap_os \<Rightarrow> string \<Rightarrow> (files, unit) io" where
  "writeSecretSources os dir =
     io_bind (marshal_report os ''secret sources''
       (SourcesReport (map (\<lambda>n. (n, sourceDescription n)) (SourceNames (cp_providers os))))) (\<lambda>data.
     io_seq (make_dir os ''capabilities: create secret-resolution: '' (in_dir dir ''secret-resolution''))
       (put_file os ''capabilities: write secret sources: '' (in_dir (in_dir dir ''secret-resolution'') ''sources.yaml'') data))"

section \<open>Taps, servers and receivers\<close>

definition no_config :: "err \<Rightarrow> string" where
  "no_config e = ''could not load config: '' @ err_msg e"

definition taps_report :: "cap_os \<Rightarrow> report" where
  "taps_report os = (case load_config os of
      Inl e \<Rightarrow> TapsReport (no_config e) []
    | Inr cfg \<Rightarrow> TapsReport '''' (DiscoverTaps (cp_output os) (cp_json os)
        (map (\<lambda>(name, t). (name, pl_Command t)) (cf_Taps cfg))))"

definition writeTaps :: "cap_os \<Rightarrow> string \<Rightarrow> (files, unit) io" where
  "writeTaps os dir = write_report os dir ''taps'' GroupSinger ''taps.yaml'' (taps_report os)"

definition resolveConnector :: "string \<Rightarrow> server \<Rightarrow> resolver option \<Rightarrow> http_connector \<times> bool" where
  "resolveConnector name s resolver =
     (let conn = \<lparr> hc_url = sv_URL s, hc_headers = sv_Headers s \<rparr>; names = ReferencedRefs (sv_Headers s) in
      if names = [] then (conn, True)
      else case resolver of
        None \<Rightarrow> (conn, False)
      | Some r \<Rightarrow> (case fst (Resolve r name names) of
          Inl _ \<Rightarrow> (conn, False)
        | Inr vals \<Rightarrow> (case ResolveHeaders (sv_Headers s) (map (\<lambda>(k, v). k @ ''='' @ v) vals) of
            Inl _ \<Rightarrow> (conn, False)
          | Inr hs \<Rightarrow> (conn\<lparr> hc_headers := hs \<rparr>, True))))"

definition http_server_report :: "cap_os \<Rightarrow> resolver option \<Rightarrow> string \<times> server \<Rightarrow> discovered_server" where
  "http_server_report os resolver p = (case resolveConnector (fst p) (snd p) resolver of
      (conn, False) \<Rightarrow> discovered (fst p) (Inl (errorf (''could not resolve the connector'' @ [CHR 0x27] @ ''s secret-referenced headers'')))
    | (conn, True) \<Rightarrow> discovered (fst p) (HTTPDiscover (cp_server os) (cp_codec os) conn))"

definition servers_report :: "cap_os \<Rightarrow> resolver option \<Rightarrow> report" where
  "servers_report os resolver = (case load_config os of
      Inl e \<Rightarrow> ServersReport (no_config e) []
    | Inr cfg \<Rightarrow>
       let declared = map (\<lambda>(name, s). (name, sv_Command s)) (filter (\<lambda>(_, s). sv_Command s \<noteq> []) (cf_MCP cfg));
           urls = filter (\<lambda>(_, s). sv_Command s = [] \<and> sv_URL s \<noteq> '''') (cf_MCP cfg) in
       ServersReport '''' (DiscoverServers (cp_procs os) (cp_codec os) declared [] @ map (http_server_report os resolver) urls))"

definition writeServers :: "cap_os \<Rightarrow> string \<Rightarrow> resolver option \<Rightarrow> (files, unit) io" where
  "writeServers os dir resolver = write_report os dir ''servers'' GroupMCP ''servers.yaml'' (servers_report os resolver)"

definition receiver_entry_of :: "string \<times> webhook_receiver \<Rightarrow> receiver_entry" where
  "receiver_entry_of p = \<lparr> re_path = fst p, re_scheme = wr_Scheme (snd p), re_secret = wr_Secret (snd p),
     re_header = wr_Header (snd p), re_encoding = wr_Encoding (snd p),
     re_timestamp_header = wr_TimestampHeader (snd p), re_prefix = wr_Prefix (snd p) \<rparr>"

definition receivers_report :: "cap_os \<Rightarrow> report" where
  "receivers_report os = (case load_config os of
      Inl e \<Rightarrow> ReceiversReport (no_config e) []
    | Inr cfg \<Rightarrow> ReceiversReport '''' (map receiver_entry_of (sorted_rows (cf_Webhook cfg))))"

definition writeReceivers :: "cap_os \<Rightarrow> string \<Rightarrow> (files, unit) io" where
  "writeReceivers os dir = write_report os dir ''receivers'' GroupWebhook ''receivers.yaml'' (receivers_report os)"

section \<open>The whole set\<close>

definition Write :: "cap_os \<Rightarrow> string \<Rightarrow> resolver option \<Rightarrow> (files, unit) io" where
  "Write os d resolver =
     (let dir = (if d = '''' then DefaultDir else d) in
      io_seq (make_dir os (''capabilities: create '' @ dir @ '': '') dir)
     (io_seq (writeTypes os dir)
     (io_seq (writeIndex os dir)
     (io_seq (writeSecrets os dir)
     (io_seq (writeSecretSources os dir)
     (io_seq (writeTaps os dir)
     (io_seq (writeServers os dir resolver)
       (writeReceivers os dir))))))))"

end
