(* ===== verification/McpLaws.thy ===== *)
theory McpLaws
  imports McpClient
begin

text \<open>
  The MCP client's two sessions meet one interface; what a call, a probe and a discovery say to
  the server, whichever carries it, and which answer a request over a subprocess gets.
\<close>

text \<open>A result computed without the state.\<close>

lemma io_throw_of: "io_throw e = io_of (Inl e)"
  by (simp add: fun_eq_iff)

definition rmap1 :: "('a \<Rightarrow> 'b) \<Rightarrow> 'a res \<Rightarrow> 'b res" where
  "rmap1 f r = rbind r (\<lambda>x. Inr (f x))"

lemma io_of_then: "io_bind (io_of r) (\<lambda>x. io_ret (f x)) = io_of (rmap1 f r)"
  by (cases r) (simp_all add: fun_eq_iff rmap1_def)

section \<open>The interface of both sessions\<close>

definition classic_script :: "string res \<Rightarrow> said \<Rightarrow> bool" where
  "classic_script r t \<longleftrightarrow> (case r of Inl _ \<Rightarrow> prefix t handshake | Inr mode \<Rightarrow> mode = ModeClassic \<and> t = handshake)"

lemma probe_script_failed:
  "prefix u [(''tools/list'', True)] \<Longrightarrow> prefix v handshake \<Longrightarrow> probe_script (Inl e) (u @ v)"
  by (auto simp: probe_script_def)

text \<open>
  A transport sends a request, saying its message at most once, and announces the end of the
  handshake; the rest of the client is built on these two in the same way.
\<close>

locale rpc_client =
  fixes said :: "'s \<Rightarrow> said"
    and snd_req :: "string \<Rightarrow> object \<Rightarrow> object \<Rightarrow> ('s, rpc_response) io"
    and announce :: "('s, unit) io"
    and init :: "('s, unit) io"
    and prb :: "('s, string) io"
    and tools_of :: "string \<Rightarrow> ('s, tool list) io"
    and disc :: "('s, discovery) io"
    and tcall :: "'r \<Rightarrow> ('s, call_result) io"
    and mode_of :: "'r \<Rightarrow> string"
  assumes send_says: "leaves said (snd_req m ps mt) (script [(m, mt \<noteq> [])])"
    and announce_says: "leaves said announce (script [(''notifications/initialized'', False)])"
    and init_is: "\<exists>err. init = io_bind (snd_req ''initialize'' initialize_params [])
       (\<lambda>resp. case ra_Error resp of Some e \<Rightarrow> io_throw (err e) | None \<Rightarrow> announce)"
    and probe_is: "\<exists>pre. prb = io_bind (io_attempt (snd_req ''tools/list'' [] meta)) (\<lambda>r.
       case r of
         Inr resp \<Rightarrow> if ra_Error resp = None then io_ret ModeStateless else io_seq (io_wrap pre init) (io_ret ModeClassic)
       | Inl _ \<Rightarrow> io_seq (io_wrap pre init) (io_ret ModeClassic))"
    and tools_is: "\<exists>res. tools_of mode = io_bind (snd_req ''tools/list'' [] (if mode = ModeClassic then [] else meta))
       (\<lambda>resp. io_of (res resp))"
    and disc_is: "disc = io_bind prb (\<lambda>mode. io_bind (tools_of mode) (\<lambda>ts. io_ret \<lparr> di_mode = mode, di_tools = ts \<rparr>))"
    and call_is: "\<exists>ps res. tcall req =
       io_bind (if mode_of req = '''' then prb
                else if mode_of req = ModeClassic then io_seq init (io_ret ModeClassic) else io_ret (mode_of req)) (\<lambda>mode.
       io_bind (snd_req ''tools/call'' ps (if mode = ModeStateless then meta else [])) (\<lambda>resp. io_of (res resp)))"
begin

lemma init_says: "leaves said init (script handshake)"
proof -
  obtain err where init: "init = io_bind (snd_req ''initialize'' initialize_params [])
       (\<lambda>resp. case ra_Error resp of Some e \<Rightarrow> io_throw (err e) | None \<Rightarrow> announce)"
    using init_is by blast
  have "leaves said init (script ([(''initialize'', False)] @ [(''notifications/initialized'', False)]))"
    unfolding init
    by (rule leaves_script_bind)
      (use send_says [of "''initialize''" initialize_params "[]"] announce_says
        in \<open>auto intro!: leaves_throw split: option.split\<close>)
  then show ?thesis by (simp add: handshake_def)
qed

lemma attempt_says: "leaves said (io_attempt (snd_req m ps mt))
   (\<lambda>r t. case r of Inr (Inr _) \<Rightarrow> t = [(m, mt \<noteq> [])] | _ \<Rightarrow> prefix t [(m, mt \<noteq> [])])"
proof (rule leavesI)
  fix s
  obtain r s' where x: "snd_req m ps mt s = (r, s')" by (cases "snd_req m ps mt s")
  show "\<exists>t. said (snd (io_attempt (snd_req m ps mt) s)) = said s @ t \<and>
      (case fst (io_attempt (snd_req m ps mt) s) of Inr (Inr _) \<Rightarrow> t = [(m, mt \<noteq> [])] | _ \<Rightarrow> prefix t [(m, mt \<noteq> [])])"
    using leavesD [OF send_says [of m ps mt], of s] by (cases r) (auto simp: x io_attempt_def)
qed

lemma meta_present: "meta \<noteq> []"
  by (simp add: meta_def)

text \<open>The handshake after a failed attempt at the stateless protocol.\<close>

lemma classic_says: "leaves said (io_seq (io_wrap pre init) (io_ret ModeClassic)) classic_script"
proof -
  have "leaves said (io_wrap pre init) (script handshake)"
    by (rule leaves_wrap [OF init_says]) simp
  moreover have "leaves said (io_ret ModeClassic) (\<lambda>r t. r = Inr ModeClassic \<and> t = [])"
    by (rule leaves_ret) simp
  ultimately show ?thesis
    by (rule leaves_bind) (auto simp: classic_script_def)
qed

lemma probe_says: "leaves said prb probe_script"
proof -
  obtain pre where prb: "prb = io_bind (io_attempt (snd_req ''tools/list'' [] meta)) (\<lambda>r.
       case r of
         Inr resp \<Rightarrow> if ra_Error resp = None then io_ret ModeStateless else io_seq (io_wrap pre init) (io_ret ModeClassic)
       | Inl _ \<Rightarrow> io_seq (io_wrap pre init) (io_ret ModeClassic))"
    using probe_is by blast
  let ?K = "\<lambda>x r t. (\<not> isl x \<and> r = Inr ModeStateless \<and> t = []) \<or> classic_script r t"
  have k: "leaves said (case x of
         Inr resp \<Rightarrow> if ra_Error resp = None then io_ret ModeStateless else io_seq (io_wrap pre init) (io_ret ModeClassic)
       | Inl _ \<Rightarrow> io_seq (io_wrap pre init) (io_ret ModeClassic)) (?K x)" for x
  proof (cases "\<exists>resp. x = Inr resp \<and> ra_Error resp = None")
    case True
    then show ?thesis by (auto intro: leaves_ret)
  next
    case False
    then have "leaves said (case x of
         Inr resp \<Rightarrow> if ra_Error resp = None then io_ret ModeStateless else io_seq (io_wrap pre init) (io_ret ModeClassic)
       | Inl _ \<Rightarrow> io_seq (io_wrap pre init) (io_ret ModeClassic)) classic_script"
      using classic_says [of pre] by (auto split: sum.split)
    then show ?thesis by (rule leaves_mono) simp
  qed
  show ?thesis
    unfolding prb
  proof (rule leaves_bind [OF attempt_says k])
    fix a t r u
    assume t: "case Inr a of Inr (Inr _) \<Rightarrow> t = [(''tools/list'', meta \<noteq> [])] | _ \<Rightarrow> prefix t [(''tools/list'', meta \<noteq> [])]"
      and u: "?K a r u"
    have p: "prefix t [(''tools/list'', True)]" using t by (cases a) (auto simp: meta_present)
    show "probe_script r (t @ u)"
    proof (cases "\<not> isl a \<and> r = Inr ModeStateless \<and> u = []")
      case True
      then show ?thesis using t by (cases a) (auto simp: probe_script_def meta_present)
    next
      case False
      then have "classic_script r u" using u by blast
      then show ?thesis using p by (cases r) (auto simp: probe_script_def classic_script_def)
    qed
  next
    fix e :: err and t
    assume "case (Inl e :: rpc_response res res) of Inr (Inr _) \<Rightarrow> t = [(''tools/list'', meta \<noteq> [])] | _ \<Rightarrow> prefix t [(''tools/list'', meta \<noteq> [])]"
    then show "probe_script (Inl e) t"
      using probe_script_failed [of t "[]"] by (simp add: meta_present)
  qed
qed

lemma tools_says: "leaves said (tools_of mode) (script [(''tools/list'', mode \<noteq> ModeClassic)])"
proof -
  obtain res where t: "tools_of mode = io_bind (snd_req ''tools/list'' [] (if mode = ModeClassic then [] else meta))
       (\<lambda>resp. io_of (res resp))" using tools_is by blast
  have "leaves said (tools_of mode) (script ([(''tools/list'', (if mode = ModeClassic then [] else meta) \<noteq> [])] @ []))"
    unfolding t by (rule leaves_script_bind [OF send_says]) (auto intro: leaves_of simp: script_def split: sum.split)
  then show ?thesis by (simp add: meta_present split: if_splits)
qed

text \<open>A call whose mode is authored follows the script of the mode.\<close>

lemma call_says:
  assumes "mode_of req \<noteq> ''''"
  shows "leaves said (tcall req) (script (call_script (mode_of req)))"
proof -
  obtain ps res where c: "tcall req =
       io_bind (if mode_of req = '''' then prb
                else if mode_of req = ModeClassic then io_seq init (io_ret ModeClassic) else io_ret (mode_of req)) (\<lambda>mode.
       io_bind (snd_req ''tools/call'' ps (if mode = ModeStateless then meta else [])) (\<lambda>resp. io_of (res resp)))"
    using call_is by blast
  let ?K = "\<lambda>mode. io_bind (snd_req ''tools/call'' ps (if mode = ModeStateless then meta else [])) (\<lambda>resp. io_of (res resp))"
  have k: "leaves said (?K mode) (script [(''tools/call'', mode = ModeStateless)])" for mode
  proof -
    have "leaves said (?K mode) (script ([(''tools/call'', (if mode = ModeStateless then meta else []) \<noteq> [])] @ []))"
      by (rule leaves_script_bind [OF send_says]) (auto intro: leaves_of simp: script_def split: sum.split)
    then show ?thesis by (simp add: meta_present split: if_splits)
  qed
  show ?thesis
  proof (cases "mode_of req = ModeClassic")
    case True
    have "leaves said (io_seq init (io_seq (io_ret ()) (?K ModeClassic))) (script (handshake @ [(''tools/call'', False)]))"
      using leaves_script_bind [OF init_says] k [of ModeClassic] by (simp add: io_bind_def [abs_def])
    moreover have "tcall req = io_seq init (io_seq (io_ret ()) (?K ModeClassic))"
      using True c by (auto simp: io_bind_def fun_eq_iff split: sum.splits prod.splits)
    ultimately show ?thesis using True by (simp add: call_script_def)
  next
    case False
    then have "tcall req = ?K (mode_of req)" using assms c by (simp add: io_bind_def [abs_def])
    then show ?thesis using k [of "mode_of req"] False by (simp add: call_script_def)
  qed
qed

text \<open>A discovery names a mode it has just spoken: the tools come from a request in that mode.\<close>

lemma disc_says: "leaves said disc (\<lambda>r t. case r of
    Inl _ \<Rightarrow> True
  | Inr d \<Rightarrow> \<exists>u. t = u @ [(''tools/list'', di_mode d = ModeStateless)] \<and> probe_script (Inr (di_mode d)) u)"
  unfolding disc_is
proof (rule leaves_bind [OF probe_says])
  show "leaves said (io_bind (tools_of mode) (\<lambda>ts. io_ret \<lparr> di_mode = mode, di_tools = ts \<rparr>))
      (\<lambda>r t. case r of Inl _ \<Rightarrow> True | Inr d \<Rightarrow> di_mode d = mode \<and> t = [(''tools/list'', mode \<noteq> ModeClassic)])" for mode
  proof (rule leaves_bind [OF tools_says])
    show "leaves said (io_ret \<lparr> di_mode = mode, di_tools = ts \<rparr>)
        (\<lambda>r t. t = [] \<and> r = Inr \<lparr> di_mode = mode, di_tools = ts \<rparr>)" for ts
      by (rule leaves_ret) simp
  qed auto
qed (auto simp: probe_script_def split: sum.splits if_splits)

end
section \<open>The subprocess session meets it\<close>

definition stdio_announce :: "mcp_process \<Rightarrow> (stdio_client, unit) io" where
  "stdio_announce p = write_line p ''mcp: initialized: '' ''''
     \<lparr> rp_ID = None, rp_Method = ''notifications/initialized'', rp_Params = [], rp_Meta = [] \<rparr>"

lemma write_line_says: "leaves stdio_said (write_line p wpre fpre req) (script [spoken req])"
  by (rule leavesI) (auto simp: write_line_def Let_def stdio_said_def script_def split: option.split)

lemma send_stdio_says: "leaves stdio_said (send p cd m ps mt) (script [(m, mt \<noteq> [])])"
proof (rule leavesI)
  fix c :: stdio_client
  let ?req = "\<lparr> rp_ID = Some (sc_next c), rp_Method = m, rp_Params = ps, rp_Meta = mt \<rparr>"
  let ?c = "c\<lparr> sc_next := sc_next c + 1 \<rparr> :: stdio_client"
  obtain r c' where w: "write_line p (''mcp: write '' @ m @ '': '') (''mcp: flush '' @ m @ '': '') ?req ?c = (r, c')"
    by fastforce
  have said: "stdio_said c' = stdio_said c @ [(m, mt \<noteq> [])]"
    using w by (auto simp: write_line_def Let_def stdio_said_def spoken_def split: option.splits)
  have same: "stdio_said (x\<lparr> sc_read := n \<rparr>) = stdio_said x" "stdio_said ?c = stdio_said c" for x n
    by (simp_all add: stdio_said_def)
  show "\<exists>t. stdio_said (snd (send p cd m ps mt c)) = stdio_said c @ t \<and> script [(m, mt \<noteq> [])] (fst (send p cd m ps mt c)) t"
  proof (cases "encode_request ?req")
    case (Inl e)
    then show ?thesis by (simp add: send_def Let_def same)
  next
    case (Inr body)
    then show ?thesis
      using w said by (cases r) (auto simp: send_def Let_def same script_def split: prod.split option.split)
  qed
qed

interpretation stdio: rpc_client stdio_said "send p cd" "stdio_announce p" "initialize p cd" "probe p cd"
  "listTools p cd" "discover_session p cd" "call_session p cd" "\<lambda>req. sv_mode (ca_server req)"
  for p cd
proof unfold_locales
  show "leaves stdio_said (send p cd m ps mt) (script [(m, mt \<noteq> [])])" for m ps mt
    by (rule send_stdio_says)
  show "leaves stdio_said (stdio_announce p) (script [(''notifications/initialized'', False)])"
    using write_line_says [of p _ _ "\<lparr> rp_ID = None, rp_Method = ''notifications/initialized'', rp_Params = [], rp_Meta = [] \<rparr>"]
    by (simp add: stdio_announce_def spoken_def)
  show "\<exists>err. initialize p cd = io_bind (send p cd ''initialize'' initialize_params [])
      (\<lambda>resp. case ra_Error resp of Some e \<Rightarrow> io_throw (err e) | None \<Rightarrow> stdio_announce p)"
    unfolding initialize_def stdio_announce_def
    by (rule exI [of _ "\<lambda>e. errorf (''mcp: initialize: '' @ snd e)"]) (rule refl)
  show "\<exists>pre. probe p cd = io_bind (io_attempt (send p cd ''tools/list'' [] meta)) (\<lambda>r.
       case r of
         Inr resp \<Rightarrow> if ra_Error resp = None then io_ret ModeStateless
           else io_seq (io_wrap pre (initialize p cd)) (io_ret ModeClassic)
       | Inl _ \<Rightarrow> io_seq (io_wrap pre (initialize p cd)) (io_ret ModeClassic))"
    unfolding probe_def by blast
  show "\<exists>res. listTools p cd mode = io_bind (send p cd ''tools/list'' [] (if mode = ModeClassic then [] else meta))
      (\<lambda>resp. io_of (res resp))" for mode
    unfolding listTools_def
    by (rule exI [of _ "\<lambda>resp. case ra_Error resp of Some e \<Rightarrow> Inl (errorf (''mcp: tools/list: '' @ snd e))
         | None \<Rightarrow> map_err (wrap ''mcp: tools/list result: '') (cd_tools cd (ra_Result resp))"])
      (intro arg_cong2 [where f = io_bind] refl ext, simp split: option.split)
  show "discover_session p cd = io_bind (probe p cd) (\<lambda>mode. io_bind (listTools p cd mode)
      (\<lambda>ts. io_ret \<lparr> di_mode = mode, di_tools = ts \<rparr>))"
    by (rule discover_session_def)
  show "\<exists>ps res. call_session p cd req =
       io_bind (if sv_mode (ca_server req) = '''' then probe p cd
                else if sv_mode (ca_server req) = ModeClassic then io_seq (initialize p cd) (io_ret ModeClassic)
                else io_ret (sv_mode (ca_server req))) (\<lambda>mode.
       io_bind (send p cd ''tools/call'' ps (if mode = ModeStateless then meta else [])) (\<lambda>resp. io_of (res resp)))" for req
    unfolding call_session_def
    by (rule exI [of _ "call_params (ca_tool req) (ca_input req)"],
        rule exI [of _ "\<lambda>resp. case ra_Error resp of Some e \<Rightarrow> Inl (errorf (''mcp: tools/call '' @ ca_tool req @ '': '' @ snd e))
         | None \<Rightarrow> rmap1 result_of (map_err (wrap ''mcp: tools/call result: '') (cd_result cd (ra_Result resp)))"])
      (intro arg_cong2 [where f = io_bind] refl ext, simp add: io_of_then split: option.split)
qed

section \<open>The HTTP session meets it\<close>

lemma post_says: "leaves http_said (http_post ms req body) (\<lambda>r t. script [spoken req] r t)"
  by (rule leavesI) (auto simp: http_post_def Let_def http_said_def script_def split: option.split sum.split)

lemma keep_session_says: "leaves http_said (keep_session a) (\<lambda>r t. (\<exists>u. r = Inr u) \<and> t = [])"
  by (rule leavesI) (auto simp: keep_session_def http_said_def)

lemma roundtrip_says: "leaves http_said (roundtrip ms cd req) (script [spoken req])"
proof -
  have answer: "leaves http_said (io_seq (keep_session a) (io_of (read_reply cd a))) (script [])" for a
    by (rule leaves_bind [OF keep_session_says leaves_of [where L = "\<lambda>r t. t = []"]]) (auto simp: script_def split: sum.split)
  have "leaves http_said (io_bind (http_post ms req body) (\<lambda>a. io_seq (keep_session a) (io_of (read_reply cd a)))) (script ([spoken req] @ []))" for body
    by (rule leaves_script_bind [OF post_says answer])
  then have "leaves http_said (roundtrip ms cd req) (script ([] @ [spoken req]))"
    unfolding roundtrip_def by (intro leaves_script_bind leaves_of) (auto simp: script_def split: sum.split)
  then show ?thesis by simp
qed

lemma http_send_says: "leaves http_said (http_send ms cd m ps mt) (script [(m, mt \<noteq> [])])"
proof (rule leavesI)
  fix c :: http_client
  let ?req = "\<lparr> rp_ID = Some (hp_next c + 1), rp_Method = m, rp_Params = ps, rp_Meta = mt \<rparr>"
  show "\<exists>t. http_said (snd (http_send ms cd m ps mt c)) = http_said c @ t \<and> script [(m, mt \<noteq> [])] (fst (http_send ms cd m ps mt c)) t"
    using leavesD [OF roundtrip_says [of ms cd ?req], of "c\<lparr> hp_next := hp_next c + 1 \<rparr>"]
    by (simp add: http_send_def Let_def http_said_def spoken_def)
qed

lemma notify_says: "leaves http_said (http_notify ms m ps) (script [(m, False)])"
proof -
  let ?req = "\<lparr> rp_ID = None, rp_Method = m, rp_Params = ps, rp_Meta = [] \<rparr>"
  have "leaves http_said (io_bind (http_post ms ?req body) keep_session) (script ([spoken ?req] @ []))" for body
    by (rule leaves_script_bind [OF post_says leaves_mono [OF keep_session_says]]) auto
  then have "leaves http_said (http_notify ms m ps) (script ([] @ [spoken ?req]))"
    unfolding http_notify_def Let_def by (intro leaves_script_bind leaves_of) (auto simp: script_def split: sum.split)
  then show ?thesis by (simp add: spoken_def)
qed

interpretation http: rpc_client http_said "http_send ms cd" "http_notify ms ''notifications/initialized'' []"
  "http_initialize ms cd" "http_probe ms cd" "http_listTools ms cd" "http_discover_session ms cd"
  "http_call_session ms cd" hr_mode
  for ms cd
proof unfold_locales
  show "leaves http_said (http_send ms cd m ps mt) (script [(m, mt \<noteq> [])])" for m ps mt
    by (rule http_send_says)
  show "leaves http_said (http_notify ms ''notifications/initialized'' []) (script [(''notifications/initialized'', False)])"
    by (rule notify_says)
  show "\<exists>err. http_initialize ms cd = io_bind (http_send ms cd ''initialize'' initialize_params [])
      (\<lambda>resp. case ra_Error resp of Some e \<Rightarrow> io_throw (err e) | None \<Rightarrow> http_notify ms ''notifications/initialized'' [])"
    unfolding http_initialize_def
    by (rule exI [of _ "\<lambda>e. errorf (''mcp http: initialize: '' @ snd e)"]) (rule refl)
  show "\<exists>pre. http_probe ms cd = io_bind (io_attempt (http_send ms cd ''tools/list'' [] meta)) (\<lambda>r.
       case r of
         Inr resp \<Rightarrow> if ra_Error resp = None then io_ret ModeStateless
           else io_seq (io_wrap pre (http_initialize ms cd)) (io_ret ModeClassic)
       | Inl _ \<Rightarrow> io_seq (io_wrap pre (http_initialize ms cd)) (io_ret ModeClassic))"
    unfolding http_probe_def by blast
  show "\<exists>res. http_listTools ms cd mode = io_bind (http_send ms cd ''tools/list'' [] (if mode = ModeClassic then [] else meta))
      (\<lambda>resp. io_of (res resp))" for mode
    unfolding http_listTools_def
    by (rule exI [of _ "\<lambda>resp. case ra_Error resp of Some e \<Rightarrow> Inl (errorf (''mcp http: tools/list: '' @ snd e))
         | None \<Rightarrow> map_err (wrap ''mcp http: tools/list result: '') (cd_tools cd (ra_Result resp))"])
      (intro arg_cong2 [where f = io_bind] refl ext, simp split: option.split)
  show "http_discover_session ms cd = io_bind (http_probe ms cd) (\<lambda>mode. io_bind (http_listTools ms cd mode)
      (\<lambda>ts. io_ret \<lparr> di_mode = mode, di_tools = ts \<rparr>))"
    by (rule http_discover_session_def)
  show "\<exists>ps res. http_call_session ms cd req =
       io_bind (if hr_mode req = '''' then http_probe ms cd
                else if hr_mode req = ModeClassic then io_seq (http_initialize ms cd) (io_ret ModeClassic)
                else io_ret (hr_mode req)) (\<lambda>mode.
       io_bind (http_send ms cd ''tools/call'' ps (if mode = ModeStateless then meta else [])) (\<lambda>resp. io_of (res resp)))" for req
    unfolding http_call_session_def
    by (rule exI [of _ "call_params (hr_tool req) (hr_input req)"],
        rule exI [of _ "\<lambda>resp. case ra_Error resp of Some e \<Rightarrow> Inl (errorf (''mcp http: tools/call '' @ hr_tool req @ '': '' @ snd e))
         | None \<Rightarrow> rmap1 result_of (map_err (wrap ''mcp http: tools/call result: '') (cd_result cd (ra_Result resp)))"])
      (intro arg_cong2 [where f = io_bind] refl ext, simp add: io_of_then split: option.split)
qed

section \<open>Sessions\<close>

text \<open>C30: 
  C41: A node whose mode is authored never probes. The messages a call sends, over a subprocess and
  over HTTP alike, are a part of the script of its mode (the classic handshake and the call, or the
  one call, which carries \<^verbatim>\<open>_meta\<close> exactly in the stateless mode), and all of it when the call succeeds.
\<close>

theorem authored_mode_never_probes:
  assumes "sv_mode (ca_server req) \<noteq> ''''" and "hr_mode hreq \<noteq> ''''"
  shows "script (call_script (sv_mode (ca_server req))) (fst (call_session p cd req new_stdio))
           (stdio_said (snd (call_session p cd req new_stdio)))
       \<and> script (call_script (hr_mode hreq)) (fst (http_call_session ms cd hreq (newHTTPClient conn)))
           (http_said (snd (http_call_session ms cd hreq (newHTTPClient conn))))"
  using leavesD [OF stdio.call_says [where req = req, OF assms(1)], of p cd new_stdio]
    leavesD [OF http.call_says [where req = hreq, OF assms(2)], of ms cd "newHTTPClient conn"]
  by (simp add: stdio_said_def http_said_def new_stdio_def newHTTPClient_def)

text \<open>A process that answers the first two requests, and a server that answers every post.\<close>

definition demo_codec :: rpc_codec where
  "demo_codec = \<lparr>
     cd_message = (\<lambda>t. if t = ''one'' then Inr \<lparr> ra_ID = 1, ra_Result = ''x'', ra_Error = None \<rparr>
        else if t = ''two'' then Inr \<lparr> ra_ID = 2, ra_Result = ''x'', ra_Error = None \<rparr> else Inl (errorf ''bad'')),
     cd_first = (\<lambda>t. Inr \<lparr> ra_ID = 7, ra_Result = t, ra_Error = None \<rparr>),
     cd_tools = (\<lambda>_. Inr []), cd_result = (\<lambda>_. Inr ([], False)) \<rparr>"

definition demo_process :: mcp_process where
  "demo_process = \<lparr> mp_start = (\<lambda>_ _. None), mp_write = (\<lambda>_. None), mp_flush = (\<lambda>_. None),
     mp_out = (\<lambda>lines. ''hello'' @ [CHR 0x0A] @ ''one'' @ [CHR 0x0A] @ (if length lines < 2 then '''' else ''two'')),
     mp_read_err = (\<lambda>_. None), mp_ctx_err = (\<lambda>_. None), mp_stderr = (\<lambda>_. '''') \<rparr>"

definition demo_server :: mcp_server where
  "demo_server = \<lparr> ms_bad_url = (\<lambda>_. None), ms_do = (\<lambda>_. Inr \<lparr> ha_code = 200, ha_status = ''200 OK'',
     ha_session = ''s1'', ha_ctype = ''application/json'', ha_body = ''x'' \<rparr>) \<rparr>"

definition demo_call :: call_request where
  "demo_call = \<lparr> ca_server = \<lparr> sv_command = [''srv''], sv_env = [], sv_mode = ModeClassic \<rparr>,
     ca_tool = ''t'', ca_input = None \<rparr>"

definition demo_http_call :: http_call_request where
  "demo_http_call = \<lparr> hr_connector = \<lparr> hc_url = ''http://h'', hc_headers = [(''x-a'', ''1'')] \<rparr>,
     hr_mode = ModeStateless, hr_tool = ''t'', hr_input = None \<rparr>"

lemma demo_succeeds:
  "case fst (call_session demo_process demo_codec demo_call new_stdio) of Inl _ \<Rightarrow> False | Inr _ \<Rightarrow> True"
  "case fst (http_call_session demo_server demo_codec demo_http_call (newHTTPClient (hr_connector demo_http_call)))
     of Inl _ \<Rightarrow> False | Inr _ \<Rightarrow> True"
  by code_simp+

theorem authored_mode_never_probes_witness:
  "stdio_said (snd (call_session demo_process demo_codec demo_call new_stdio)) = call_script ModeClassic
   \<and> http_said (snd (http_call_session demo_server demo_codec demo_http_call (newHTTPClient (hr_connector demo_http_call))))
       = call_script ModeStateless"
  using authored_mode_never_probes [of demo_call demo_http_call demo_process demo_codec demo_server
      "hr_connector demo_http_call"] demo_succeeds
  by (simp add: demo_call_def demo_http_call_def script_def split: sum.splits)

text \<open>
  C42: Discovery reports a mode it has just spoken. When Discover succeeds, over either transport,
  the last request was tools/list in the reported mode; a stateless report follows one stateless
  tools/list, and a classic report follows the whole handshake.
\<close>

theorem discovered_mode_was_spoken:
  assumes "discover_session p cd new_stdio = (Inr d, c)" and "http_discover_session ms cd (newHTTPClient conn) = (Inr d', c')"
  shows "(\<exists>u. stdio_said c = u @ [(''tools/list'', di_mode d = ModeStateless)] \<and> probe_script (Inr (di_mode d)) u)
     \<and> (\<exists>u. http_said c' = u @ [(''tools/list'', di_mode d' = ModeStateless)] \<and> probe_script (Inr (di_mode d')) u)"
  using leavesD [OF stdio.disc_says, of p cd new_stdio] leavesD [OF http.disc_says, of ms cd "newHTTPClient conn"] assms
  by (auto simp: stdio_said_def http_said_def new_stdio_def newHTTPClient_def)

lemma demo_discovers:
  "case fst (discover_session demo_process demo_codec new_stdio) of Inl _ \<Rightarrow> False | Inr d \<Rightarrow> di_mode d = ModeStateless"
  "case fst (http_discover_session demo_server demo_codec (newHTTPClient (hr_connector demo_http_call))) of
     Inl _ \<Rightarrow> False | Inr d \<Rightarrow> di_mode d = ModeStateless"
  by code_simp+

theorem discovered_mode_was_spoken_witness:
  "\<exists>u. stdio_said (snd (discover_session demo_process demo_codec new_stdio)) = u @ [(''tools/list'', True)]
     \<and> probe_script (Inr ModeStateless) u"
proof -
  obtain r c where s: "discover_session demo_process demo_codec new_stdio = (r, c)" by fastforce
  obtain r' c' where h: "http_discover_session demo_server demo_codec (newHTTPClient (hr_connector demo_http_call)) = (r', c')"
    by fastforce
  obtain d where d: "r = Inr d" "di_mode d = ModeStateless" using demo_discovers(1) s by (cases r) auto
  obtain d' where d': "r' = Inr d'" using demo_discovers(2) h by (cases r') auto
  then show ?thesis using discovered_mode_was_spoken [OF s [unfolded d(1)] h [unfolded d']] d s by simp
qed

section \<open>Answers\<close>

text \<open>What one line of the process's output is to the request with this id.\<close>

definition answer_to :: "rpc_codec \<Rightarrow> int \<Rightarrow> string \<Rightarrow> rpc_response option" where
  "answer_to cd i l = (case cd_message cd (trim_space l) of
      Inl _ \<Rightarrow> None | Inr r \<Rightarrow> if trim_space l \<noteq> [] \<and> ra_ID r = i then Some r else None)"

lemma read_answer_Cons:
  "read_answer cd i (l # ls) n =
     (if int (length l) \<ge> max_token then (None, n, True)
      else case answer_to cd i l of Some r \<Rightarrow> (Some r, Suc n, False) | None \<Rightarrow> read_answer cd i ls (Suc n))"
  by (simp add: answer_to_def split: sum.split)

lemma read_answer_Some:
  "read_answer cd i ls n = (Some r, n', long) \<Longrightarrow>
     \<exists>skipped l rest. ls = skipped @ l # rest \<and> answer_to cd i l = Some r
        \<and> list_all (\<lambda>x. answer_to cd i x = None) skipped \<and> n' = n + length skipped + 1"
proof (induction ls arbitrary: n)
  case (Cons l ls)
  show ?case
  proof (cases "answer_to cd i l")
    case (Some x)
    then have "x = r" "n' = Suc n"
      using Cons.prems by (auto simp: read_answer_Cons simp del: read_answer.simps split: if_splits)
    then show ?thesis using Some by (intro exI [of _ "[]"] exI [of _ l] exI [of _ ls]) simp
  next
    case None
    then have "read_answer cd i ls (Suc n) = (Some r, n', long)"
      using Cons.prems by (auto simp: read_answer_Cons simp del: read_answer.simps split: if_splits)
    then obtain skipped l' rest where "ls = skipped @ l' # rest" "answer_to cd i l' = Some r"
        "list_all (\<lambda>x. answer_to cd i x = None) skipped" "n' = Suc n + length skipped + 1"
      using Cons.IH by blast
    then show ?thesis using None
      by (intro exI [of _ "l # skipped"] exI [of _ l'] exI [of _ rest]) simp
  qed
qed simp

text \<open>
  C43: A successful send over a subprocess returns the first unread line that is a JSON-RPC message
  with the request's own id: blank lines, undecodable lines and answers to other requests are
  skipped and consumed with it, and the next request has the next id.
\<close>

theorem send_returns_its_answer:
  assumes "send p cd m ps mt c = (Inr r, c')"
  shows "\<exists>skipped l rest. drop (sc_read c) (lines_of [] (mp_out p (map line_of (sc_sent c')))) = skipped @ l # rest
     \<and> answer_to cd (sc_next c) l = Some r \<and> ra_ID r = sc_next c
     \<and> list_all (\<lambda>x. answer_to cd (sc_next c) x = None) skipped
     \<and> sc_read c' = sc_read c + length skipped + 1 \<and> sc_next c' = sc_next c + 1"
proof -
  let ?req = "\<lparr> rp_ID = Some (sc_next c), rp_Method = m, rp_Params = ps, rp_Meta = mt \<rparr>"
  let ?lines = "lines_of [] (mp_out p (map line_of (sc_sent c @ [?req])))"
  have c': "sc_sent c' = sc_sent c @ [?req]" "sc_next c' = sc_next c + 1"
    and ra: "\<exists>long. read_answer cd (sc_next c) (drop (sc_read c) ?lines) (sc_read c) = (Some r, sc_read c', long)"
    using assms by (auto simp: send_def write_line_def Let_def split: sum.splits prod.splits option.splits)
  have "answer_to cd i l = Some x \<Longrightarrow> ra_ID x = i" for i l x
    by (auto simp: answer_to_def split: sum.splits if_splits)
  then have "answer_to cd (sc_next c) l = Some r \<Longrightarrow> ra_ID r = sc_next c" for l .
  moreover obtain long where "read_answer cd (sc_next c) (drop (sc_read c) ?lines) (sc_read c) = (Some r, sc_read c', long)"
    using ra by blast
  then obtain skipped l rest where "drop (sc_read c) ?lines = skipped @ l # rest" "answer_to cd (sc_next c) l = Some r"
      "list_all (\<lambda>x. answer_to cd (sc_next c) x = None) skipped" "sc_read c' = sc_read c + length skipped + 1"
    using read_answer_Some by blast
  ultimately show ?thesis unfolding c' by blast
qed

theorem send_returns_its_answer_witness:
  "\<exists>r c. send demo_process demo_codec ''tools/list'' [] meta new_stdio = (Inr r, c) \<and> ra_ID r = 1 \<and> sc_next c = 2"
proof -
  have ok: "case fst (send demo_process demo_codec ''tools/list'' [] meta new_stdio) of Inl _ \<Rightarrow> False | Inr _ \<Rightarrow> True"
    by code_simp
  obtain x c where s: "send demo_process demo_codec ''tools/list'' [] meta new_stdio = (x, c)" by fastforce
  then obtain r where "x = Inr r" using ok by (cases x) auto
  then show ?thesis using send_returns_its_answer [OF s [unfolded \<open>x = Inr r\<close>]] s
    by (auto simp: new_stdio_def)
qed

end
