(* ===== verification/Gmail.thy ===== *)
theory Gmail
  imports Io Trigger McpClient
begin

text \<open>
  The Gmail source of the email trigger (internal/registry/helper/email/gmail): the IMAP session of one
  poll, the messages it finds, reads and marks, and their conversion to emails. The server is a
  parameter that answers the commands sent so far, the last being answered; so is the splitting of a raw
  message into MIME parts. A fetched message carries the envelope that was asked for.
\<close>

section \<open>The server\<close>

datatype imap_command =
    IConnect string
  | ILogin string string
  | ILogout
  | ISelect string
  | ISearchUnseen
  | IFetch "nat list"          \<comment> \<open>envelope and raw message\<close>
  | IStoreSeen "nat list"      \<comment> \<open>adds the flag for a message seen\<close>

record address =
  ad_name :: string
  ad_mailbox :: string
  ad_host :: string

text \<open>The raw texts of a message, in the order in which Go ranges over its map of sections.\<close>

record imap_message =
  mg_subject :: string
  mg_date :: string
  mg_id :: string
  mg_from :: "address list"
  mg_to :: "address list"
  mg_bodies :: "string option list"

datatype mail_part = Inline string "string res" | Attachment

record imap_server =
  im_answer :: "imap_command list \<Rightarrow> err option"
  im_found :: "imap_command list \<Rightarrow> nat list"
  im_messages :: "imap_command list \<Rightarrow> imap_message list"
  im_parts :: "string \<Rightarrow> mail_part list res"      \<comment> \<open>the parts before the end or an error\<close>

definition imap_do :: "imap_server \<Rightarrow> imap_command \<Rightarrow> (imap_command list, unit) io" where
  "imap_do sv cmd h = (case im_answer sv (h @ [cmd]) of
      Some e \<Rightarrow> (Inl e, h @ [cmd])
    | None \<Rightarrow> (Inr (), h @ [cmd]))"

section \<open>A message as an email\<close>

definition addressString :: "address \<Rightarrow> string" where
  "addressString a = (let addr = ad_mailbox a @ ''@'' @ ad_host a in
     if ad_name a \<noteq> '''' then ad_name a @ '' <'' @ addr @ ''>'' else addr)"

fun first_text :: "mail_part list \<Rightarrow> string" where
  "first_text [] = ''''"
| "first_text (Attachment # ps) = first_text ps"
| "first_text (Inline ct body # ps) = (if \<not> has_prefix ct ''text/'' then first_text ps
     else case body of Inl _ \<Rightarrow> '''' | Inr s \<Rightarrow> trim_space s)"

definition parseBody :: "imap_server \<Rightarrow> imap_message \<Rightarrow> string" where
  "parseBody sv m = (case mg_bodies m of
      Some raw # _ \<Rightarrow> (case im_parts sv raw of Inl _ \<Rightarrow> '''' | Inr ps \<Rightarrow> first_text ps)
    | _ \<Rightarrow> '''')"

definition parseMessage :: "imap_server \<Rightarrow> imap_message \<Rightarrow> email" where
  "parseMessage sv m = \<lparr>
     em_from = (case mg_from m of [] \<Rightarrow> '''' | a # _ \<Rightarrow> addressString a),
     em_to = (if mg_to m = [] then None else Some (map addressString (mg_to m))),
     em_subject = mg_subject m, em_body = parseBody sv m, em_date = mg_date m, em_message_id = mg_id m \<rparr>"

section \<open>One session\<close>

record imap_config =
  ic_Host :: string
  ic_Username :: string
  ic_Password :: string
  ic_Mailbox :: string

definition Dial :: "imap_server \<Rightarrow> imap_config \<Rightarrow> (imap_command list, unit) io" where
  "Dial sv cfg =
     (if ic_Host cfg = '''' then io_throw (errorf ''gmail: empty host'')
      else let addr = (if CHR '':'' \<in> set (ic_Host cfg) then ic_Host cfg else ic_Host cfg @ '':993'') in
        io_seq (io_wrap (''gmail: connect '' @ addr @ '': '') (imap_do sv (IConnect addr)))
          (\<lambda>h. case imap_do sv (ILogin (ic_Username cfg) (ic_Password cfg)) h of
             (Inl e, h') \<Rightarrow> (Inl (wrap (''gmail: login '' @ ic_Username cfg @ '': '') e), snd (imap_do sv ILogout h'))
           | (Inr _, h') \<Rightarrow> (Inr (), h')))"

definition markSeen :: "imap_server \<Rightarrow> nat list \<Rightarrow> (imap_command list, unit) io" where
  "markSeen sv seqs = io_wrap ''gmail: mark seen: '' (imap_do sv (IStoreSeen seqs))"

text \<open>
  The emails (None for a nil slice) and the error come back side by side. Whether the fetch failed
  is not looked at: what arrived is what there is.
\<close>

definition FetchNew :: "imap_server \<Rightarrow> imap_config \<Rightarrow> imap_command list
    \<Rightarrow> (email list option \<times> err option) \<times> imap_command list" where
  "FetchNew sv cfg h =
     (let mailbox = (if ic_Mailbox cfg = '''' then ''INBOX'' else ic_Mailbox cfg) in
      case imap_do sv (ISelect mailbox) h of
        (Inl e, h1) \<Rightarrow> ((None, Some (wrap (''gmail: select '' @ mailbox @ '': '') e)), h1)
      | (Inr _, h1) \<Rightarrow> (case imap_do sv ISearchUnseen h1 of
          (Inl e, h2) \<Rightarrow> ((None, Some (wrap ''gmail: search unseen: '' e)), h2)
        | (Inr _, h2) \<Rightarrow>
            let seqs = im_found sv h2 in
            if seqs = [] then ((None, None), h2)
            else let h3 = snd (imap_do sv (IFetch seqs) h2);
                     ms = im_messages sv h3;
                     emails = (if ms = [] then None else Some (map (parseMessage sv) ms)) in
              (case markSeen sv seqs h3 of
                 (Inl e, h4) \<Rightarrow> ((emails, Some e), h4)
               | (Inr _, h4) \<Rightarrow> ((emails, None), h4))))"

definition Close :: "imap_server \<Rightarrow> (imap_command list, unit) io" where
  "Close sv = imap_do sv ILogout"

section \<open>The emails as JSON\<close>

definition encode_email :: "email \<Rightarrow> string res" where
  "encode_email e = rbind (rmap json_member
     [(''from'', VStr (em_from e)),
      (''to'', case em_to e of None \<Rightarrow> VNull | Some ts \<Rightarrow> VArr (map VStr ts)),
      (''subject'', VStr (em_subject e)), (''body'', VStr (em_body e)),
      (''date'', VStr (em_date e)), (''message_id'', VStr (em_message_id e))]) (\<lambda>ts.
     Inr (''{'' @ join_with '','' ts @ ''}''))"

definition encode_emails :: "email list option \<Rightarrow> string res" where
  "encode_emails es = (case es of
      None \<Rightarrow> Inr ''null''
    | Some es \<Rightarrow> rbind (rmap encode_email es) (\<lambda>ts. Inr (''['' @ join_with '','' ts @ '']'')))"

section \<open>Polls of one mailbox\<close>

text \<open>
  What a mailbox keeps to: messages only arrive, a search finds, in order, the numbers of the messages no
  successful store has marked, and a fetch answered without error delivers the messages it names.
  (A server may flag a message as soon as its raw text is fetched; none of the messages below is
  then found again either.)
\<close>

definition stored :: "imap_server \<Rightarrow> imap_command list \<Rightarrow> nat \<Rightarrow> nat list" where
  "stored sv h k = (case h ! k of
      IStoreSeen s \<Rightarrow> if im_answer sv (take (Suc k) h) = None then s else []
    | _ \<Rightarrow> [])"

definition marked :: "imap_server \<Rightarrow> imap_command list \<Rightarrow> nat set" where
  "marked sv h = set (concat (map (stored sv h) [0..<length h]))"

definition mailbox :: "imap_server \<Rightarrow> (imap_command list \<Rightarrow> imap_message list) \<Rightarrow> bool" where
  "mailbox sv inbox \<longleftrightarrow>
     (\<forall>h h'. prefix (inbox h) (inbox (h @ h'))) \<and>
     (\<forall>h. im_found sv h = filter (\<lambda>i. i \<notin> marked sv h) [1..<Suc (length (inbox h))]) \<and>
     (\<forall>h s. im_answer sv (h @ [IFetch s]) = None \<longrightarrow>
        im_messages sv (h @ [IFetch s]) = map (\<lambda>i. inbox (h @ [IFetch s]) ! (i - 1)) s)"

text \<open>Polls one after another, each in a session of its own, with the emails of each.\<close>

definition poll_session :: "imap_server \<Rightarrow> imap_config \<Rightarrow> imap_command list
    \<Rightarrow> (email list option \<times> err option) \<times> imap_command list" where
  "poll_session sv cfg h = (case Dial sv cfg h of
      (Inl e, h1) \<Rightarrow> ((None, Some e), h1)
    | (Inr _, h1) \<Rightarrow> (case FetchNew sv cfg h1 of (r, h2) \<Rightarrow> (r, snd (Close sv h2))))"

fun polls :: "imap_server \<Rightarrow> imap_config \<Rightarrow> nat \<Rightarrow> imap_command list
    \<Rightarrow> email list \<times> imap_command list" where
  "polls sv cfg 0 h = ([], h)"
| "polls sv cfg (Suc n) h = (case polls sv cfg n h of (es, h1) \<Rightarrow>
     (case poll_session sv cfg h1 of ((new, _), h2) \<Rightarrow> (es @ (case new of None \<Rightarrow> [] | Some xs \<Rightarrow> xs), h2)))"

end
