(* ===== verification/CliBase.thy ===== *)
theory CliBase
  imports Client CapLaws Gmail
begin

text \<open>
  What every command of the command line (internal/cli) works on: the two output streams, the
  files it may change and the daemon's transport, the surroundings it reads, and the parsing of
  flags as Go's flag package does it, with the texts it prints.
\<close>

section \<open>State and surroundings\<close>

record 's cli =
  ci_out :: string
  ci_err :: string
  ci_configs :: config_files      \<comment> \<open>servitor.config.yaml and its kind\<close>
  ci_store :: files               \<comment> \<open>the on-box secret store\<close>
  ci_caps :: files                \<comment> \<open>the capability set\<close>
  ci_mail :: "imap_command list"  \<comment> \<open>what the mail server has been sent\<close>
  ci_net :: 's                    \<comment> \<open>whatever the transport to the daemon changes\<close>

text \<open>What the daemon is booted with, as far as the command line decides it.\<close>

record boot =
  bt_Addr :: string
  bt_DBPath :: string
  bt_ExtPath :: string
  bt_WebhookAddr :: string
  bt_Resolver :: resolver
  bt_Receivers :: "(string, webhook_receiver) table"
  bt_Connectors :: "(string, http_connector) table"

record node_request =
  nq_method :: string
  nq_url :: string
  nq_headers :: "(string, string) table"
  nq_body :: "string option"
  nq_timeout :: int               \<comment> \<open>nanoseconds\<close>

record node_reply =
  np_status :: int
  np_headers :: "value"
  np_body :: "string res"

text \<open>
  The surroundings: standard input, the readable files, the environment, the codecs, the JSONata
  engine, the iteration order of a Go map, the network peers and the running of the daemon.
\<close>

record ('s, 'e) cli_os =
  ce_version :: string
  ce_stdin :: "string res"
  ce_read_file :: "string \<Rightarrow> string res"
  ce_environ :: "string list"
  ce_getenv :: "string \<Rightarrow> string"
  ce_config :: config_os
  ce_providers :: registry
  ce_types :: "capability list"
  ce_yaml :: "string \<Rightarrow> value res"
  ce_yaml_map :: "string \<Rightarrow> (string \<times> value) list res"
  ce_json :: "string \<Rightarrow> value res"
  ce_int :: "value \<Rightarrow> int res"
  ce_fmt :: "value \<Rightarrow> string"
  ce_plan_json :: "dry_run_result \<Rightarrow> string res"
  ce_jsonata :: "'e jsonata"
  ce_order :: "(string \<times> string) list \<Rightarrow> (string \<times> string) list"
  ce_mcp :: mcp_server
  ce_codec :: rpc_codec
  ce_http :: "node_request \<Rightarrow> node_reply res"
  ce_bad_request :: "string \<Rightarrow> string \<Rightarrow> err option"
  ce_status_text :: "int \<Rightarrow> string"
  ce_imap :: imap_server
  ce_caps :: cap_os
  ce_crypto :: crypto
  ce_random :: "string \<times> string"       \<comment> \<open>a fresh key, a fresh nonce\<close>
  ce_store_dir :: string
  ce_transport :: "'s transport"
  ce_daemon :: "boot \<Rightarrow> string option \<times> unit res"   \<comment> \<open>the address bound, if it got that far\<close>

type_synonym 's command = "'s cli \<Rightarrow> int \<times> 's cli"

abbreviation "exitOK \<equiv> 0 :: int"
abbreviation "exitFailure \<equiv> 1 :: int"
abbreviation "exitUsage \<equiv> 2 :: int"
abbreviation "exitNoDaemon \<equiv> 3 :: int"

text \<open>The default of --addr (protocol.DefaultAddr).\<close>

abbreviation "DefaultAddr \<equiv> ''127.0.0.1:7365''"

definition nl :: string where "nl = [CHR 0x0A]"
definition tab :: string where "tab = [CHR 0x09]"

definition out :: "string \<Rightarrow> 's cli \<Rightarrow> 's cli" where
  "out s c = c\<lparr> ci_out := ci_out c @ s \<rparr>"

definition complain :: "string \<Rightarrow> 's cli \<Rightarrow> 's cli" where
  "complain s c = c\<lparr> ci_err := ci_err c @ s \<rparr>"

text \<open>One line on stdout or stderr, then the exit code.\<close>

definition finish :: "string \<Rightarrow> 's command" where
  "finish s c = (exitOK, out (s @ nl) c)"

definition fail :: "int \<Rightarrow> string \<Rightarrow> 's command" where
  "fail code s c = (code, complain (s @ nl) c)"

text \<open>A call of the client.\<close>

definition over_net :: "('s, 'a) io \<Rightarrow> (err \<Rightarrow> 's command) \<Rightarrow> ('a \<Rightarrow> 's command) \<Rightarrow> 's command" where
  "over_net m bad good c = (case m (ci_net c) of
      (Inl e, s) \<Rightarrow> bad e (c\<lparr> ci_net := s \<rparr>)
    | (Inr a, s) \<Rightarrow> good a (c\<lparr> ci_net := s \<rparr>))"

section \<open>Flags (package flag)\<close>

record flag_def =
  fl_name :: string
  fl_bool :: bool
  fl_default :: string
  fl_usage :: string

definition string_flag :: "string \<Rightarrow> string \<Rightarrow> string \<Rightarrow> flag_def" where
  "string_flag name dflt usage = \<lparr> fl_name = name, fl_bool = False, fl_default = dflt, fl_usage = usage \<rparr>"

definition bool_flag :: "string \<Rightarrow> string \<Rightarrow> flag_def" where
  "bool_flag name usage = \<lparr> fl_name = name, fl_bool = True, fl_default = ''false'', fl_usage = usage \<rparr>"

text \<open>PrintDefaults for a name of more than one letter.\<close>

definition flag_help :: "flag_def \<Rightarrow> string" where
  "flag_help f = ''  -'' @ fl_name f @ (if fl_bool f then '''' else '' string'') @ nl @ ''    '' @ tab @ fl_usage f @
     (if fl_bool f \<or> fl_default f = '''' then '''' else '' (default '' @ quote (fl_default f) @ '')'') @ nl"

definition usage_text :: "string \<Rightarrow> flag_def list \<Rightarrow> string" where
  "usage_text name fs = ''Usage of '' @ name @ '':'' @ nl @ concat (map flag_help (sort_key fl_name fs))"

definition parse_bool :: "string \<Rightarrow> string option" where
  "parse_bool s = (if s \<in> {''1'', ''t'', ''T'', ''true'', ''TRUE'', ''True''} then Some ''true''
     else if s \<in> {''0'', ''f'', ''F'', ''false'', ''FALSE'', ''False''} then Some ''false'' else None)"

text \<open>The settings made, in order, and the arguments left; or the text printed before giving up.\<close>

datatype flags =
    Flags "(string \<times> string) list" "string list"
  | Helped string
  | Rejected string

definition rejected :: "string \<Rightarrow> flag_def list \<Rightarrow> string \<Rightarrow> flags" where
  "rejected name fs msg = Rejected (msg @ nl @ usage_text name fs)"

text \<open>parseOne of the flag package: a setting and the arguments behind it, the end of the flags, or the end of
  the parsing.\<close>

datatype one_flag = Setting "string \<times> string" "string list" | NoFlag "string list" | GivesUp flags

definition parse_value :: "string \<Rightarrow> flag_def list \<Rightarrow> flag_def \<Rightarrow> string option \<Rightarrow> string list \<Rightarrow> one_flag" where
  "parse_value name fs f val rest = (let key = fl_name f in
     if fl_bool f then
       (case val of
          None \<Rightarrow> Setting (key, ''true'') rest
        | Some v \<Rightarrow> (case parse_bool v of
            Some b \<Rightarrow> Setting (key, b) rest
          | None \<Rightarrow> GivesUp (rejected name fs (''invalid boolean value '' @ quote v @ '' for -'' @ key @ '': parse error''))))
     else
       (case val of
          Some v \<Rightarrow> Setting (key, v) rest
        | None \<Rightarrow> (case rest of
            v # rest' \<Rightarrow> Setting (key, v) rest'
          | [] \<Rightarrow> GivesUp (rejected name fs (''flag needs an argument: -'' @ key)))))"

definition parse_named :: "string \<Rightarrow> flag_def list \<Rightarrow> string \<Rightarrow> string option \<Rightarrow> string list \<Rightarrow> one_flag" where
  "parse_named name fs key val rest = (case find (\<lambda>f. fl_name f = key) fs of
      None \<Rightarrow> GivesUp (if key = ''help'' \<or> key = ''h'' then Helped (usage_text name fs)
        else rejected name fs (''flag provided but not defined: -'' @ key))
    | Some f \<Rightarrow> parse_value name fs f val rest)"

fun parse_one :: "string \<Rightarrow> flag_def list \<Rightarrow> string list \<Rightarrow> one_flag" where
  "parse_one name fs [] = NoFlag []"
| "parse_one name fs (s # rest) =
     (if length s < 2 \<or> hd s \<noteq> CHR ''-'' then NoFlag (s # rest)
      else if s = ''--'' then NoFlag rest
      else let body = (if s ! 1 = CHR ''-'' then drop 2 s else drop 1 s) in
        if body = '''' \<or> hd body = CHR ''-'' \<or> hd body = CHR ''='' then GivesUp (rejected name fs (''bad flag syntax: '' @ s))
        else case cut_at (CHR ''='') body of
          None \<Rightarrow> parse_named name fs body None rest
        | Some (k, v) \<Rightarrow> parse_named name fs k (Some v) rest)"

declare parse_one.simps(2) [simp del]

lemma parse_named_shorter: "parse_named name fs key val rest = Setting kv rest' \<Longrightarrow> length rest' \<le> length rest"
  by (auto simp: parse_named_def parse_value_def Let_def split: option.splits if_splits list.splits)

lemma parse_one_shorter: "parse_one name fs args = Setting kv rest' \<Longrightarrow> length rest' < length args"
  by (cases args) (auto simp: parse_one.simps Let_def split: if_splits option.splits dest!: parse_named_shorter)

function parse_flags :: "string \<Rightarrow> flag_def list \<Rightarrow> (string \<times> string) list \<Rightarrow> string list \<Rightarrow> flags" where
  "parse_flags name fs vs args = (case parse_one name fs args of
      Setting kv rest \<Rightarrow> parse_flags name fs (vs @ [kv]) rest
    | NoFlag rest \<Rightarrow> Flags vs rest
    | GivesUp r \<Rightarrow> r)"
  by pat_completeness auto
termination by (relation "measure (\<lambda>(_, _, _, args). length args)") (auto dest: parse_one_shorter)

declare parse_flags.simps [simp del]

text \<open>The value of a flag after parsing: the last setting, or the default.\<close>

definition flag_value :: "flag_def list \<Rightarrow> (string \<times> string) list \<Rightarrow> string \<Rightarrow> string" where
  "flag_value fs vs name = (case map_of (rev vs) name of
      Some v \<Rightarrow> v
    | None \<Rightarrow> (case find (\<lambda>f. fl_name f = name) fs of Some f \<Rightarrow> fl_default f | None \<Rightarrow> ''''))"

lemma parse_flags_none: "parse_flags name fs vs [] = Flags vs []"
  by (simp add: parse_flags.simps)

lemma parse_flags_positional:
  "length s < 2 \<or> hd s \<noteq> CHR ''-'' \<Longrightarrow> parse_flags name fs vs (s # rest) = Flags vs (s # rest)"
  by (simp add: parse_flags.simps parse_one.simps)

end
