(* ===== verification/CliConfig.thy ===== *)
theory CliConfig
  imports CliBase
begin

text \<open>
  The commands that edit the declared config (internal/cli/cli_config.go): mcp, tap, target, secret
  and webhook, each with its additions, listing and removal, and the sealing of a secret. The three
  connector sections have one text each for adding, listing and removing up to the section's name;
  the shared definitions take it as an argument.
\<close>

section \<open>Words and lists\<close>

text \<open>strings.Fields: the words between white space, on the runes of the text.\<close>

fun fields_from :: "string \<Rightarrow> (int \<times> string) list \<Rightarrow> string list" where
  "fields_from acc [] = (if acc = [] then [] else [acc])"
| "fields_from acc ((r, bs) # ss) =
     (if is_space r then (if acc = [] then fields_from [] ss else acc # fields_from [] ss)
      else fields_from (acc @ bs) ss)"

definition words_of :: "string \<Rightarrow> string list" where
  "words_of s = fields_from [] (segments s)"

definition splitList :: "string \<Rightarrow> string list" where
  "splitList s = filter (\<lambda>p. p \<noteq> '''') (map trim_space (split_at (CHR '','') s))"

section \<open>The config file of a command\<close>

definition file_flag :: "flag_def list" where
  "file_flag = [string_flag ''file'' DefaultFile ''path to the config'']"

text \<open>The path, the arguments left and the exit code.\<close>

definition configPath :: "string \<Rightarrow> string list \<Rightarrow> 's cli \<Rightarrow> (string \<times> string list \<times> int) \<times> 's cli" where
  "configPath name args c = (case parse_flags name file_flag [] args of
      Flags vs rest \<Rightarrow> ((flag_value file_flag vs ''file'', rest, exitOK), c)
    | Helped t \<Rightarrow> (('''', [], exitUsage), complain t c)
    | Rejected t \<Rightarrow> (('''', [], exitUsage), complain t c))"

definition with_path :: "string \<Rightarrow> string list \<Rightarrow> (string \<Rightarrow> string list \<Rightarrow> 's command) \<Rightarrow> 's command" where
  "with_path name args k c = (case configPath name args c of
      ((path, rest, code), c') \<Rightarrow> if code \<noteq> exitOK then (code, c') else k path rest c')"

text \<open>The config loaded, or the command failed with the error after its name.\<close>

definition with_config :: "('s, 'e) cli_os \<Rightarrow> string \<Rightarrow> string \<Rightarrow> (conf \<Rightarrow> 's command) \<Rightarrow> 's command" where
  "with_config os name path k c = (case Load (ce_config os) (ci_configs c) path of
      Inl e \<Rightarrow> fail exitFailure (''servitor: '' @ name @ '': '' @ err_msg e) c
    | Inr cfg \<Rightarrow> k cfg c)"

definition save_config :: "('s, 'e) cli_os \<Rightarrow> string \<Rightarrow> string \<Rightarrow> conf \<Rightarrow> string \<Rightarrow> 's command" where
  "save_config os name path cfg done c = (case Save (ce_config os) cfg path (ci_configs c) of
      (Inl e, fs) \<Rightarrow> fail exitFailure (''servitor: '' @ name @ '': '' @ err_msg e) (c\<lparr> ci_configs := fs \<rparr>)
    | (Inr _, fs) \<Rightarrow> finish done (c\<lparr> ci_configs := fs \<rparr>))"

definition unexpected :: "string \<Rightarrow> string \<Rightarrow> 's command" where
  "unexpected name arg = fail exitUsage (''servitor: '' @ name @ '': unexpected argument '' @ quote arg)"

section \<open>Connectors: MCP servers, taps and targets\<close>

definition add_connector :: "('s, 'e) cli_os \<Rightarrow> string \<Rightarrow> string \<Rightarrow> (string \<Rightarrow> string list \<Rightarrow> string list \<Rightarrow> conf \<Rightarrow> conf)
    \<Rightarrow> string list \<Rightarrow> 's command" where
  "add_connector os kind what add args = with_path (kind @ '' add'') args (\<lambda>path rest. case rest of
      name # cmdline # extra \<Rightarrow>
        let env = (case extra of [] \<Rightarrow> [] | e # _ \<Rightarrow> splitList e) in
        with_config os (kind @ '' add'') path (\<lambda>cfg.
        save_config os (kind @ '' add'') path (add name (words_of cmdline) env cfg)
          (''servitor: declared '' @ what @ '' '' @ quote name @ '' (install it yourself, then it is ready)''))
    | _ \<Rightarrow> fail exitUsage (''servitor: usage: servitor '' @ kind @ '' add <name> <command> [env,...]''))"

definition list_section :: "('s, 'e) cli_os \<Rightarrow> string \<Rightarrow> (conf \<Rightarrow> string list) \<Rightarrow> string list \<Rightarrow> 's command" where
  "list_section os kind lines args = with_path (kind @ '' list'') args (\<lambda>path rest. case rest of
      a # _ \<Rightarrow> unexpected (kind @ '' list'') a
    | [] \<Rightarrow> with_config os (kind @ '' list'') path (\<lambda>cfg c.
        (exitOK, out (concat (map (\<lambda>l. l @ nl) (lines cfg))) c)))"

definition connector_line :: "string \<times> string list \<Rightarrow> string" where
  "connector_line p = fst p @ tab @ join_with '' '' (snd p)"

definition remove_from :: "('s, 'e) cli_os \<Rightarrow> string \<Rightarrow> string \<Rightarrow> string \<Rightarrow> (string \<Rightarrow> conf \<Rightarrow> bool \<times> conf)
    \<Rightarrow> string list \<Rightarrow> 's command" where
  "remove_from os kind what arg remove args = with_path (kind @ '' remove'') args (\<lambda>path rest. case rest of
      [name] \<Rightarrow> with_config os (kind @ '' remove'') path (\<lambda>cfg. case remove name cfg of
          (False, _) \<Rightarrow> fail exitFailure (''servitor: '' @ kind @ '' remove: '' @ quote name @ '' is not declared'')
        | (True, cfg') \<Rightarrow> save_config os (kind @ '' remove'') path cfg' (''servitor: removed '' @ what @ '' '' @ quote name))
    | _ \<Rightarrow> fail exitUsage (''servitor: usage: servitor '' @ kind @ '' remove <'' @ arg @ ''>''))"

definition cmdMCPAdd :: "('s, 'e) cli_os \<Rightarrow> string list \<Rightarrow> 's command" where
  "cmdMCPAdd os = add_connector os ''mcp'' ''mcp server'' AddMCPServer"

definition cmdMCPList :: "('s, 'e) cli_os \<Rightarrow> string list \<Rightarrow> 's command" where
  "cmdMCPList os = list_section os ''mcp''
     (\<lambda>cfg. map (\<lambda>(n, s). connector_line (n, sv_Command s)) (sorted_rows (cf_MCP cfg)))"

definition cmdMCPRemove :: "('s, 'e) cli_os \<Rightarrow> string list \<Rightarrow> 's command" where
  "cmdMCPRemove os = remove_from os ''mcp'' ''mcp server'' ''name'' RemoveMCPServer"

definition cmdTapAdd :: "('s, 'e) cli_os \<Rightarrow> string list \<Rightarrow> 's command" where
  "cmdTapAdd os = add_connector os ''tap'' ''tap'' AddTap"

definition cmdTapList :: "('s, 'e) cli_os \<Rightarrow> string list \<Rightarrow> 's command" where
  "cmdTapList os = list_section os ''tap''
     (\<lambda>cfg. map (\<lambda>(n, t). connector_line (n, pl_Command t)) (sorted_rows (cf_Taps cfg)))"

definition cmdTapRemove :: "('s, 'e) cli_os \<Rightarrow> string list \<Rightarrow> 's command" where
  "cmdTapRemove os = remove_from os ''tap'' ''tap'' ''name'' RemoveTap"

definition cmdTargetAdd :: "('s, 'e) cli_os \<Rightarrow> string list \<Rightarrow> 's command" where
  "cmdTargetAdd os = add_connector os ''target'' ''target'' AddTarget"

definition cmdTargetList :: "('s, 'e) cli_os \<Rightarrow> string list \<Rightarrow> 's command" where
  "cmdTargetList os = list_section os ''target''
     (\<lambda>cfg. map (\<lambda>(n, t). connector_line (n, pl_Command t)) (sorted_rows (cf_Targets cfg)))"

definition cmdTargetRemove :: "('s, 'e) cli_os \<Rightarrow> string list \<Rightarrow> 's command" where
  "cmdTargetRemove os = remove_from os ''target'' ''target'' ''name'' RemoveTarget"

text \<open>The switch on the first argument, the same in every group.\<close>

definition sub_command :: "string \<Rightarrow> string \<Rightarrow> (string list \<times> (string list \<Rightarrow> 's command)) list \<Rightarrow> string list \<Rightarrow> 's command" where
  "sub_command kind names cases args = (case args of
      [] \<Rightarrow> fail exitUsage (''servitor: usage: servitor '' @ kind @ '' <'' @ names @ ''> ...'')
    | a # rest \<Rightarrow> (case find (\<lambda>p. a \<in> set (fst p)) cases of
        Some p \<Rightarrow> snd p rest
      | None \<Rightarrow> fail exitUsage (''servitor: '' @ kind @ '': unknown subcommand '' @ quote a)))"

definition cmdMCP :: "('s, 'e) cli_os \<Rightarrow> string list \<Rightarrow> 's command" where
  "cmdMCP os = sub_command ''mcp'' ''add|list|remove''
     [([''add''], cmdMCPAdd os), ([''list'', ''ls''], cmdMCPList os), ([''remove'', ''rm''], cmdMCPRemove os)]"

definition cmdTap :: "('s, 'e) cli_os \<Rightarrow> string list \<Rightarrow> 's command" where
  "cmdTap os = sub_command ''tap'' ''add|list|remove''
     [([''add''], cmdTapAdd os), ([''list'', ''ls''], cmdTapList os), ([''remove'', ''rm''], cmdTapRemove os)]"

definition cmdTarget :: "('s, 'e) cli_os \<Rightarrow> string list \<Rightarrow> 's command" where
  "cmdTarget os = sub_command ''target'' ''add|list|remove''
     [([''add''], cmdTargetAdd os), ([''list'', ''ls''], cmdTargetList os), ([''remove'', ''rm''], cmdTargetRemove os)]"

section \<open>Options anywhere among the arguments\<close>

text \<open>secret add and webhook add read their options by hand: an option needs a value behind it, the
  rest are positional.\<close>

datatype options =
    Options "(string \<times> string) list" "string list"
  | NeedsValue string
  | AskedHelp

function read_options :: "string list \<Rightarrow> (string \<times> string) list \<Rightarrow> string list \<Rightarrow> string list \<Rightarrow> options" where
  "read_options known vs pos [] = Options vs pos"
| "read_options known vs pos (a # rest) =
     (if a \<in> set known then (case rest of
        [] \<Rightarrow> NeedsValue a
      | v # rest' \<Rightarrow> read_options known (vs @ [(a, v)]) pos rest')
      else if a = ''-h'' \<or> a = ''--help'' then AskedHelp
      else read_options known vs (pos @ [a]) rest)"
  by pat_completeness auto
termination by (relation "measure (\<lambda>(_, _, _, args). length args)") auto

definition option_value :: "(string \<times> string) list \<Rightarrow> string \<Rightarrow> string \<Rightarrow> string" where
  "option_value vs name dflt = (case map_of (rev vs) name of Some v \<Rightarrow> v | None \<Rightarrow> dflt)"

section \<open>Secrets\<close>

definition secret_usage :: string where
  "secret_usage = ''servitor: usage: servitor secret add <name> <source> [--account a] [--permissions p,...] [--expiry e] [--file path]''"

definition cmdSecretAdd :: "('s, 'e) cli_os \<Rightarrow> string list \<Rightarrow> 's command" where
  "cmdSecretAdd os args =
     (case read_options [''--file'', ''--account'', ''--permissions'', ''--expiry''] [] [] args of
        NeedsValue a \<Rightarrow> fail exitUsage (''servitor: secret add: '' @ a @ '' needs a value'')
      | AskedHelp \<Rightarrow> fail exitUsage secret_usage
      | Options vs [name, source] \<Rightarrow>
          let path = option_value vs ''--file'' DefaultFile in
          with_config os ''secret add'' path (\<lambda>cfg.
          save_config os ''secret add'' path
            (AddSecret name \<lparr> sd_Source = source, sd_Account = option_value vs ''--account'' '''',
               sd_Permissions = splitList (option_value vs ''--permissions'' ''''),
               sd_Expiry = option_value vs ''--expiry'' '''' \<rparr> cfg)
            (''servitor: declared secret '' @ quote name @ '' (source '' @ quote source @ ''); deliver its value to that source''))
      | Options _ _ \<Rightarrow> fail exitUsage secret_usage)"

definition labelled :: "string \<Rightarrow> string \<Rightarrow> string" where
  "labelled label v = (if v = '''' then '''' else tab @ label @ ''='' @ v)"

definition secret_line :: "string \<times> secret_decl \<Rightarrow> string" where
  "secret_line p = fst p @ tab @ ''source='' @ sd_Source (snd p) @ labelled ''account'' (sd_Account (snd p)) @
     (if sd_Permissions (snd p) = [] then '''' else tab @ ''permissions='' @ join_with '','' (sd_Permissions (snd p))) @
     labelled ''expiry'' (sd_Expiry (snd p))"

definition cmdSecretList :: "('s, 'e) cli_os \<Rightarrow> string list \<Rightarrow> 's command" where
  "cmdSecretList os = list_section os ''secret'' (\<lambda>cfg. map secret_line (sorted_rows (cf_Secrets cfg)))"

definition cmdSecretRemove :: "('s, 'e) cli_os \<Rightarrow> string list \<Rightarrow> 's command" where
  "cmdSecretRemove os = remove_from os ''secret'' ''secret'' ''name'' RemoveSecret"

definition cmdSecretSeal :: "('s, 'e) cli_os \<Rightarrow> string list \<Rightarrow> 's command" where
  "cmdSecretSeal os args c = (case args of
      [name] \<Rightarrow> (case ce_stdin os of
          Inl e \<Rightarrow> fail exitFailure (''servitor: secret seal: read value: '' @ err_msg e) c
        | Inr data \<Rightarrow>
            if data = '''' then fail exitFailure ''servitor: secret seal: empty value from stdin'' c
            else (case SealOnBox (ce_crypto os) (fst (ce_random os)) (snd (ce_random os)) (ci_store c) (ce_store_dir os) name data of
                Inl e \<Rightarrow> fail exitFailure (''servitor: secret seal: '' @ err_msg e) c
              | Inr fs \<Rightarrow> finish (''servitor: sealed secret '' @ quote name @ '' to the on-box store (never plaintext on disk)'')
                  (c\<lparr> ci_store := fs \<rparr>)))
    | _ \<Rightarrow> fail exitUsage ''servitor: usage: servitor secret seal <name> < value-on-stdin'' c)"

definition cmdSecret :: "('s, 'e) cli_os \<Rightarrow> string list \<Rightarrow> 's command" where
  "cmdSecret os = sub_command ''secret'' ''add|list|remove|seal''
     [([''add''], cmdSecretAdd os), ([''list'', ''ls''], cmdSecretList os), ([''remove'', ''rm''], cmdSecretRemove os),
      ([''seal''], cmdSecretSeal os)]"

section \<open>Webhook receivers\<close>

definition webhook_usage :: string where
  "webhook_usage = ''servitor: usage: servitor webhook add <path> <hmac|standard> [secret] [--header H] [--encoding hex|base64] [--timestamp-header T] [--prefix P] [--file path]''"

definition cmdWebhookAdd :: "('s, 'e) cli_os \<Rightarrow> string list \<Rightarrow> 's command" where
  "cmdWebhookAdd os args =
     (case read_options [''--file'', ''--header'', ''--encoding'', ''--timestamp-header'', ''--prefix''] [] [] args of
        NeedsValue a \<Rightarrow> fail exitUsage (''servitor: webhook add: '' @ a @ '' needs a value'')
      | AskedHelp \<Rightarrow> fail exitUsage webhook_usage
      | Options vs (wpath # scheme # extra) \<Rightarrow>
          let path = option_value vs ''--file'' DefaultFile; encoding = option_value vs ''--encoding'' '''' in
          if scheme \<noteq> SchemeHMAC \<and> scheme \<noteq> SchemeStandard then
            fail exitUsage (''servitor: webhook add: unknown scheme '' @ quote scheme @ '' (must be hmac or standard)'')
          else if encoding \<noteq> '''' \<and> encoding \<noteq> ''hex'' \<and> encoding \<noteq> ''base64'' then
            fail exitUsage ''servitor: webhook add: --encoding must be hex or base64''
          else with_config os ''webhook add'' path (\<lambda>cfg.
            save_config os ''webhook add'' path
              (AddWebhookReceiver wpath \<lparr> wr_Scheme = scheme, wr_Secret = (case extra of [] \<Rightarrow> '''' | s # _ \<Rightarrow> s),
                 wr_Header = option_value vs ''--header'' '''', wr_Encoding = encoding,
                 wr_TimestampHeader = option_value vs ''--timestamp-header'' '''',
                 wr_Prefix = option_value vs ''--prefix'' '''' \<rparr> cfg)
              (''servitor: declared webhook receiver '' @ quote wpath @ '' ('' @ scheme @ ''); a Wafer'' @ [CHR 0x27] @
               ''s trigger names it by this path''))
      | Options _ _ \<Rightarrow> fail exitUsage webhook_usage)"

definition receiver_line :: "string \<times> webhook_receiver \<Rightarrow> string" where
  "receiver_line p = fst p @ tab @ ''scheme='' @ wr_Scheme (snd p) @ labelled ''secret'' (wr_Secret (snd p)) @
     labelled ''header'' (wr_Header (snd p)) @ labelled ''encoding'' (wr_Encoding (snd p)) @
     labelled ''timestamp_header'' (wr_TimestampHeader (snd p)) @ labelled ''prefix'' (wr_Prefix (snd p))"

definition cmdWebhookList :: "('s, 'e) cli_os \<Rightarrow> string list \<Rightarrow> 's command" where
  "cmdWebhookList os = list_section os ''webhook'' (\<lambda>cfg. map receiver_line (sorted_rows (cf_Webhook cfg)))"

definition cmdWebhookRemove :: "('s, 'e) cli_os \<Rightarrow> string list \<Rightarrow> 's command" where
  "cmdWebhookRemove os = remove_from os ''webhook'' ''webhook receiver'' ''path'' RemoveWebhookReceiver"

definition cmdWebhook :: "('s, 'e) cli_os \<Rightarrow> string list \<Rightarrow> 's command" where
  "cmdWebhook os = sub_command ''webhook'' ''add|list|remove''
     [([''add''], cmdWebhookAdd os), ([''list'', ''ls''], cmdWebhookList os), ([''remove'', ''rm''], cmdWebhookRemove os)]"

end
