(* ===== verification/CliNode.thy ===== *)
theory CliNode
  imports CliConfig Expression
begin

text \<open>
  The hidden commands of the command line (internal/cli/cli.go): what a worker runs as the subprocess of a
  node, each reading its input on stdin or from its argument and printing one line of JSON.
\<close>

section \<open>Decoding a JSON text into a struct\<close>

text \<open>
  encoding/json matches a member to a field under case folding; the runes that fold to an ASCII letter are
  the letter's two cases, U+017F for s and U+212A for k. A null leaves the field as it is, a value of another
  kind is an error. ce_json gives the members in the order of the text, a repeated one with its last value.
\<close>

fun fold_name :: "string \<Rightarrow> string" where
  "fold_name [] = []"
| "fold_name (c # s) =
     (if has_prefix (c # s) [CHR 0xC5, CHR 0xBF] then CHR ''S'' # fold_name (drop 1 s)
      else if has_prefix (c # s) [CHR 0xE2, CHR 0x84, CHR 0xAA] then CHR ''K'' # fold_name (drop 2 s)
      else upper_char c # fold_name s)"

fun json_kind :: "value \<Rightarrow> string" where
  "json_kind VNull = ''null''"
| "json_kind (VBool _) = ''bool''"
| "json_kind (VInt _) = ''number''"
| "json_kind (VFloat _) = ''number''"
| "json_kind (VStr _) = ''string''"
| "json_kind (VArr _) = ''array''"
| "json_kind (VObj _) = ''object''"

definition mistyped :: "string \<Rightarrow> string \<Rightarrow> value \<Rightarrow> 'a res" where
  "mistyped name type v = Inl (errorf (''json: cannot unmarshal '' @ json_kind v @
     '' into Go struct field .'' @ name @ '' of type '' @ type))"

type_synonym 'r field_setter = "string \<times> (value \<Rightarrow> 'r \<Rightarrow> 'r res)"

fun set_members :: "'r field_setter list \<Rightarrow> (string \<times> value) list \<Rightarrow> 'r \<Rightarrow> 'r res" where
  "set_members fs [] r = Inr r"
| "set_members fs ((k, v) # m) r =
     (case find (\<lambda>f. fold_name (fst f) = fold_name k) fs of
        None \<Rightarrow> set_members fs m r
      | Some f \<Rightarrow> rbind (snd f v r) (set_members fs m))"

text \<open>The type of an anonymous struct as reflect prints it: name, type and tag of each field.\<close>

definition struct_type :: "(string \<times> string \<times> string) list \<Rightarrow> string" where
  "struct_type fs = ''struct { '' @
     join_with ''; '' (map (\<lambda>(name, type, tag). name @ '' '' @ type @ '' '' @ quote (''json:'' @ quote tag)) fs) @ '' }''"

definition decode_struct :: "string \<Rightarrow> 'r field_setter list \<Rightarrow> 'r \<Rightarrow> value \<Rightarrow> 'r res" where
  "decode_struct type fs zero v = (case v of
      VObj m \<Rightarrow> set_members fs m zero
    | VNull \<Rightarrow> Inr zero
    | _ \<Rightarrow> Inl (errorf (''json: cannot unmarshal '' @ json_kind v @ '' into Go value of type '' @ type)))"

definition str_field :: "string \<Rightarrow> (string \<Rightarrow> 'r \<Rightarrow> 'r) \<Rightarrow> 'r field_setter" where
  "str_field name put = (name, \<lambda>v r. case v of
      VStr s \<Rightarrow> Inr (put s r) | VNull \<Rightarrow> Inr r | _ \<Rightarrow> mistyped name ''string'' v)"

definition any_field :: "string \<Rightarrow> (value \<Rightarrow> 'r \<Rightarrow> 'r) \<Rightarrow> 'r field_setter" where
  "any_field name put = (name, \<lambda>v r. Inr (put v r))"

text \<open>A null map field becomes the nil map.\<close>

definition obj_field :: "string \<Rightarrow> (object option \<Rightarrow> 'r \<Rightarrow> 'r) \<Rightarrow> 'r field_setter" where
  "obj_field name put = (name, \<lambda>v r. case v of
      VObj m \<Rightarrow> Inr (put (Some m) r) | VNull \<Rightarrow> Inr (put None r) | _ \<Rightarrow> mistyped name ''map[string]interface {}'' v)"

definition strs_field :: "string \<Rightarrow> ((string \<times> string) list \<Rightarrow> 'r \<Rightarrow> 'r) \<Rightarrow> 'r field_setter" where
  "strs_field name put = (name, \<lambda>v r. case v of
      VObj m \<Rightarrow> rbind (rmap (\<lambda>(k, x). case x of
          VStr s \<Rightarrow> Inr (k, s) | VNull \<Rightarrow> Inr (k, '''') | _ \<Rightarrow> mistyped name ''string'' x) m) (\<lambda>hs. Inr (put hs r))
    | VNull \<Rightarrow> Inr (put [] r)
    | _ \<Rightarrow> mistyped name ''map[string]string'' v)"

text \<open>ce_int reads the literal of a number as an int.\<close>

definition int_field :: "(value \<Rightarrow> int res) \<Rightarrow> string \<Rightarrow> (int \<Rightarrow> 'r \<Rightarrow> 'r) \<Rightarrow> 'r field_setter" where
  "int_field num name put = (name, \<lambda>v r. case v of
      VNull \<Rightarrow> Inr r
    | VInt _ \<Rightarrow> rbind (num v) (\<lambda>i. Inr (put i r))
    | VFloat _ \<Rightarrow> rbind (num v) (\<lambda>i. Inr (put i r))
    | _ \<Rightarrow> mistyped name ''int'' v)"

definition failed_at :: "string \<Rightarrow> err \<Rightarrow> 's command" where
  "failed_at name e = fail exitFailure (''servitor: '' @ name @ '': '' @ err_msg e)"

definition read_json :: "('s, 'e) cli_os \<Rightarrow> string \<Rightarrow> string \<Rightarrow> (value \<Rightarrow> 's command) \<Rightarrow> 's command" where
  "read_json os name text k = (case ce_json os text of
      Inl e \<Rightarrow> failed_at name (wrap ''input is not valid JSON: '' e)
    | Inr v \<Rightarrow> k v)"

section \<open>The commands nodes run as\<close>

text \<open>The whole of standard input.\<close>

definition with_stdin :: "('s, 'e) cli_os \<Rightarrow> string \<Rightarrow> (string \<Rightarrow> 's command) \<Rightarrow> 's command" where
  "with_stdin os name k = (case ce_stdin os of Inl e \<Rightarrow> failed_at name (wrap ''read input: '' e) | Inr data \<Rightarrow> k data)"

text \<open>The result as one line of JSON.\<close>

definition emit :: "string \<Rightarrow> string res \<Rightarrow> 's command" where
  "emit name r = (case r of
      Inl e \<Rightarrow> failed_at name (wrap ''encode result: '' e)
    | Inr t \<Rightarrow> (\<lambda>c. (exitOK, out (t @ nl) c)))"

text \<open>The commands of one expression: its value for the input on stdin, no input being null.\<close>

definition eval_stdin :: "('s, 'e) cli_os \<Rightarrow> string \<Rightarrow> string \<Rightarrow> (value \<Rightarrow> 's command) \<Rightarrow> 's command" where
  "eval_stdin os name expr k = with_stdin os name (\<lambda>data.
     (if data = '''' then (\<lambda>k. k VNull) else read_json os name data) (\<lambda>input.
     case Eval (ce_jsonata os) expr input of Inl e \<Rightarrow> failed_at name e | Inr v \<Rightarrow> k v))"

definition cmdTransformNode :: "('s, 'e) cli_os \<Rightarrow> string list \<Rightarrow> 's command" where
  "cmdTransformNode os args = (case args of
      [expr] \<Rightarrow> eval_stdin os ''__transform'' expr (\<lambda>v. emit ''__transform'' (json_marshal v))
    | _ \<Rightarrow> fail exitUsage ''servitor: __transform: usage: __transform <expression>'')"

definition cmdEvalNode :: "('s, 'e) cli_os \<Rightarrow> string list \<Rightarrow> 's command" where
  "cmdEvalNode os args = (case args of
      [expr] \<Rightarrow> eval_stdin os ''__eval'' expr (\<lambda>v. emit ''__eval'' (json_marshal v))
    | _ \<Rightarrow> fail exitUsage ''servitor: __eval: usage: __eval <expression>'')"

definition cmdForeachNode :: "('s, 'e) cli_os \<Rightarrow> string list \<Rightarrow> 's command" where
  "cmdForeachNode os args = (case args of
      [expr] \<Rightarrow> eval_stdin os ''__foreach'' expr (\<lambda>v. case v of
          VArr _ \<Rightarrow> emit ''__foreach'' (json_marshal v)
        | _ \<Rightarrow> failed_at ''__foreach'' (errorf ''expression did not evaluate to a list''))
    | _ \<Rightarrow> fail exitUsage ''servitor: __foreach: usage: __foreach <over-expression>'')"

record switch_payload =
  sp_input :: "value"
  sp_cases :: "object option"
  sp_default :: string

definition decode_switch :: "value \<Rightarrow> switch_payload res" where
  "decode_switch = decode_struct
     (struct_type [(''Input'', ''interface {}'', ''input''), (''Cases'', ''map[string]interface {}'', ''cases''), (''Default'', ''string'', ''default'')])
     [any_field ''input'' (\<lambda>v p. p\<lparr> sp_input := v \<rparr>), obj_field ''cases'' (\<lambda>m p. p\<lparr> sp_cases := m \<rparr>),
      str_field ''default'' (\<lambda>s p. p\<lparr> sp_default := s \<rparr>)]
     \<lparr> sp_input = VNull, sp_cases = None, sp_default = '''' \<rparr>"

text \<open>The case of the key, or the default when there is none.\<close>

definition switch_target :: "switch_payload \<Rightarrow> string \<Rightarrow> value" where
  "switch_target p key = (case sp_cases p of
      None \<Rightarrow> VStr (sp_default p)
    | Some m \<Rightarrow> (case map_of m key of Some v \<Rightarrow> v | None \<Rightarrow> VStr (sp_default p)))"

definition cmdSwitchNode :: "('s, 'e) cli_os \<Rightarrow> string list \<Rightarrow> 's command" where
  "cmdSwitchNode os args = (case args of
      [expr] \<Rightarrow> with_stdin os ''__switch'' (\<lambda>data.
        case rbind (ce_json os data) decode_switch of
          Inl e \<Rightarrow> failed_at ''__switch'' (wrap ''input is not valid JSON: '' e)
        | Inr p \<Rightarrow> (case Eval (ce_jsonata os) expr (sp_input p) of
            Inl e \<Rightarrow> failed_at ''__switch'' e
          | Inr v \<Rightarrow>
              let key = stringify (ce_fmt os) v; target = switch_target p key in
              if target = VStr '''' then
                failed_at ''__switch'' (errorf (''no case matches '' @ quote key @ '' and no default''))
              else emit ''__switch'' (json_marshal target)))
    | _ \<Rightarrow> fail exitUsage ''servitor: __switch: usage: __switch <expression>'')"

section \<open>The MCP and HTTP commands\<close>

record mcp_payload =
  mq_url :: string
  mq_headers :: "(string \<times> string) list"
  mq_tool :: string
  mq_input :: "object option"
  mq_mode :: string

definition decode_mcp :: "value \<Rightarrow> mcp_payload res" where
  "decode_mcp = decode_struct
     (struct_type [(''URL'', ''string'', ''url''), (''Headers'', ''map[string]string'', ''headers''), (''Tool'', ''string'', ''tool''),
       (''Input'', ''map[string]interface {}'', ''input''), (''Mode'', ''string'', ''mode'')])
     [str_field ''url'' (\<lambda>s p. p\<lparr> mq_url := s \<rparr>), strs_field ''headers'' (\<lambda>hs p. p\<lparr> mq_headers := hs \<rparr>),
      str_field ''tool'' (\<lambda>s p. p\<lparr> mq_tool := s \<rparr>), obj_field ''input'' (\<lambda>m p. p\<lparr> mq_input := m \<rparr>),
      str_field ''mode'' (\<lambda>s p. p\<lparr> mq_mode := s \<rparr>)]
     \<lparr> mq_url = '''', mq_headers = [], mq_tool = '''', mq_input = None, mq_mode = '''' \<rparr>"

definition encode_call_result :: "call_result \<Rightarrow> string res" where
  "encode_call_result r = rbind (rmap json_member
     ([(''content'', VStr (cs_content r))] @
      (if cs_data r = [] then [] else [(''data'', VArr (map VObj (cs_data r)))]) @
      [(''isError'', VBool (cs_is_error r))])) (\<lambda>ts. Inr (''{'' @ join_with '','' ts @ ''}''))"

definition cmdMCPHTTP :: "('s, 'e) cli_os \<Rightarrow> string list \<Rightarrow> 's command" where
  "cmdMCPHTTP os args =
     (if args \<noteq> [] then fail exitUsage ''servitor: __mcp_http: unexpected arguments''
      else with_stdin os ''__mcp_http'' (\<lambda>data.
        case rbind (ce_json os data) decode_mcp of
          Inl e \<Rightarrow> failed_at ''__mcp_http'' (wrap ''input is not valid JSON: '' e)
        | Inr p \<Rightarrow> (case rbind (ResolveHeaders (mq_headers p) (ce_environ os)) (\<lambda>headers.
              HTTPCall (ce_mcp os) (ce_codec os) \<lparr> hr_connector = \<lparr> hc_url = mq_url p, hc_headers = headers \<rparr>,
                hr_mode = mq_mode p, hr_tool = mq_tool p, hr_input = mq_input p \<rparr>) of
            Inl e \<Rightarrow> failed_at ''__mcp_http'' e
          | Inr res \<Rightarrow> emit ''__mcp_http'' (encode_call_result res))))"

record http_config =
  hn_url :: string
  hn_method :: string
  hn_headers :: "(string \<times> string) list"
  hn_body :: "value"
  hn_timeout :: int

definition decode_http :: "(value \<Rightarrow> int res) \<Rightarrow> value \<Rightarrow> http_config res" where
  "decode_http num = decode_struct
     (struct_type [(''URL'', ''string'', ''url''), (''Method'', ''string'', ''method''), (''Headers'', ''map[string]string'', ''headers''),
       (''Body'', ''interface {}'', ''body''), (''Timeout'', ''int'', ''timeout'')])
     [str_field ''url'' (\<lambda>s p. p\<lparr> hn_url := s \<rparr>), str_field ''method'' (\<lambda>s p. p\<lparr> hn_method := s \<rparr>),
      strs_field ''headers'' (\<lambda>hs p. p\<lparr> hn_headers := hs \<rparr>), any_field ''body'' (\<lambda>v p. p\<lparr> hn_body := v \<rparr>),
      int_field num ''timeout'' (\<lambda>i p. p\<lparr> hn_timeout := i \<rparr>)]
     \<lparr> hn_url = '''', hn_method = '''', hn_headers = [], hn_body = VNull, hn_timeout = 0 \<rparr>"

text \<open>A copy of a map is the same association list.\<close>

definition cloneHeaders :: "(string \<times> string) list \<Rightarrow> (string \<times> string) list" where
  "cloneHeaders headers = map (\<lambda>(k, v). (k, v)) headers"

text \<open>The product of int64 values wraps; a timeout that is not positive is the default.\<close>

definition node_timeout :: "int \<Rightarrow> int" where
  "node_timeout seconds = (let t = (seconds * 1000000000 + 2 ^ 63) mod 2 ^ 64 - 2 ^ 63 in
     if t \<le> 0 then 30 * 1000000000 else t)"

text \<open>A body brings its content type along, unless the headers have one by just that name; the headers are
  then set one by one in the order of a Go map.\<close>

definition with_content_type :: "(string \<times> string) list \<Rightarrow> (string \<times> string) list" where
  "with_content_type headers = (let hs = cloneHeaders headers in
     if map_of hs ''Content-Type'' = None then hs @ [(''Content-Type'', ''application/json'')] else hs)"

definition node_headers :: "('s, 'e) cli_os \<Rightarrow> (string \<times> string) list \<Rightarrow> (string, string) table" where
  "node_headers os headers = fold (\<lambda>(k, v). set_header k v) (ce_order os headers) []"

definition node_body :: "value \<Rightarrow> string option res" where
  "node_body b = (if b = VNull then Inr None
     else map_err (wrap ''encode body: '') (rbind (json_marshal b) (\<lambda>t. Inr (Some t))))"

definition http_request_of :: "('s, 'e) cli_os \<Rightarrow> http_config \<Rightarrow> node_request res" where
  "http_request_of os cfg =
     rbind (ResolveHeaders (hn_headers cfg) (ce_environ os)) (\<lambda>headers.
     rbind (node_body (hn_body cfg)) (\<lambda>body.
     case ce_bad_request os (hn_method cfg) (hn_url cfg) of
       Some e \<Rightarrow> Inl e
     | None \<Rightarrow> Inr \<lparr> nq_method = hn_method cfg, nq_url = hn_url cfg,
         nq_headers = node_headers os (if body = None then headers else with_content_type headers),
         nq_body = body, nq_timeout = node_timeout (hn_timeout cfg) \<rparr>))"

definition http_result :: "('s, 'e) cli_os \<Rightarrow> node_reply \<Rightarrow> string \<Rightarrow> value" where
  "http_result os y body = VObj
     [(''ok'', VBool (200 \<le> np_status y \<and> np_status y < 300)), (''status'', VInt (np_status y)),
      (''statusText'', VStr (ce_status_text os (np_status y))), (''headers'', np_headers y), (''body'', VStr body)]"

definition cmdHTTPNode :: "('s, 'e) cli_os \<Rightarrow> string list \<Rightarrow> 's command" where
  "cmdHTTPNode os args = (case args of
      [text] \<Rightarrow> (case rbind (ce_json os text) (decode_http (ce_int os)) of
          Inl e \<Rightarrow> failed_at ''__http'' (wrap ''config is not valid JSON: '' e)
        | Inr cfg \<Rightarrow>
            if hn_url cfg = '''' \<or> hn_method cfg = '''' then failed_at ''__http'' (errorf ''url and method are required'')
            else (case rbind (http_request_of os cfg) (ce_http os) of
                Inl e \<Rightarrow> failed_at ''__http'' e
              | Inr y \<Rightarrow> (case np_body y of
                  Inl e \<Rightarrow> failed_at ''__http'' (wrap ''read response: '' e)
                | Inr body \<Rightarrow> emit ''__http'' (json_marshal (http_result os y body)))))
    | _ \<Rightarrow> fail exitUsage ''servitor: __http: usage: __http <config-json>'')"

section \<open>The poll of a mailbox\<close>

record poll_payload =
  pp_host :: string
  pp_username :: string
  pp_secret :: string

definition decode_poll :: "value \<Rightarrow> poll_payload res" where
  "decode_poll = decode_struct
     (struct_type [(''Host'', ''string'', ''host''), (''Username'', ''string'', ''username''), (''Secret'', ''string'', ''secret'')])
     [str_field ''host'' (\<lambda>s p. p\<lparr> pp_host := s \<rparr>), str_field ''username'' (\<lambda>s p. p\<lparr> pp_username := s \<rparr>),
      str_field ''secret'' (\<lambda>s p. p\<lparr> pp_secret := s \<rparr>)]
     \<lparr> pp_host = '''', pp_username = '''', pp_secret = '''' \<rparr>"

definition on_mail :: "(imap_command list, 'a) io \<Rightarrow> (err \<Rightarrow> 's command) \<Rightarrow> ('a \<Rightarrow> 's command) \<Rightarrow> 's command" where
  "on_mail m bad good c = (case m (ci_mail c) of
      (Inl e, h) \<Rightarrow> bad e (c\<lparr> ci_mail := h \<rparr>)
    | (Inr a, h) \<Rightarrow> good a (c\<lparr> ci_mail := h \<rparr>))"

text \<open>Leaving the command closes the session.\<close>

definition closing :: "imap_server \<Rightarrow> 's command \<Rightarrow> 's command" where
  "closing sv k c = (case k c of (code, c') \<Rightarrow> (code, c'\<lparr> ci_mail := snd (Close sv (ci_mail c')) \<rparr>))"

definition fetched :: "imap_server \<Rightarrow> imap_config \<Rightarrow> (imap_command list, email list option) io" where
  "fetched sv cfg h = (case FetchNew sv cfg h of
      ((_, Some e), h') \<Rightarrow> (Inl e, h')
    | ((emails, None), h') \<Rightarrow> (Inr emails, h'))"

definition cmdEmailPoll :: "('s, 'e) cli_os \<Rightarrow> string list \<Rightarrow> 's command" where
  "cmdEmailPoll os args =
     (if args \<noteq> [] then fail exitUsage ''servitor: __email_poll: unexpected arguments''
      else with_stdin os ''__email_poll'' (\<lambda>data.
        case rbind (ce_json os data) decode_poll of
          Inl e \<Rightarrow> failed_at ''__email_poll'' (wrap ''invalid config: '' e)
        | Inr p \<Rightarrow>
            if pp_host p = '''' \<or> pp_username p = '''' \<or> pp_secret p = '''' then
              failed_at ''__email_poll'' (errorf ''host, username, and secret are required'')
            else let password = ce_getenv os (pp_secret p) in
            if password = '''' then
              failed_at ''__email_poll'' (errorf (''secret '' @ quote (pp_secret p) @ '' not resolved in environment''))
            else let sv = ce_imap os; cfg = \<lparr> ic_Host = pp_host p, ic_Username = pp_username p,
                ic_Password = password, ic_Mailbox = '''' \<rparr> in
              on_mail (Dial sv cfg) (failed_at ''__email_poll'') (\<lambda>_.
                closing sv (on_mail (fetched sv cfg) (failed_at ''__email_poll'')
                  (\<lambda>emails. emit ''__email_poll'' (encode_emails emails))))))"

end
