(* ===== verification/Cli.thy ===== *)
theory Cli
  imports CliNode
begin

text \<open>
  The commands of the command line (internal/cli/cli.go, usage.go): the dispatch, the commands that
  talk to the daemon, the dry run, the capability set and the boot of the daemon.
\<close>

section \<open>Commands that talk to the daemon\<close>

definition addr_flags :: "flag_def list" where
  "addr_flags = [string_flag ''addr'' DefaultAddr ''loopback address of the daemon'']"

text \<open>The address, the arguments left and the exit code.\<close>

definition parseAddr :: "string list \<Rightarrow> string \<Rightarrow> 's cli \<Rightarrow> (string \<times> string list \<times> int) \<times> 's cli" where
  "parseAddr args name c = (case parse_flags name addr_flags [] args of
      Flags vs rest \<Rightarrow> ((flag_value addr_flags vs ''addr'', rest, exitOK), c)
    | Helped t \<Rightarrow> (('''', [], exitOK), complain t c)
    | Rejected t \<Rightarrow> (('''', [], exitUsage), complain t c))"

definition with_addr :: "string list \<Rightarrow> string \<Rightarrow> (string \<Rightarrow> string list \<Rightarrow> 's command) \<Rightarrow> 's command" where
  "with_addr args name k c = (case parseAddr args name c of
      ((addr, rest, code), c') \<Rightarrow> if code \<noteq> exitOK then (code, c') else k addr rest c')"

text \<open>The health check every such command makes first.\<close>

definition if_running :: "('s, 'e) cli_os \<Rightarrow> string \<Rightarrow> 's command \<Rightarrow> 's command" where
  "if_running os addr k = over_net (Client_Health (ce_transport os) addr)
     (\<lambda>_. fail exitNoDaemon (''servitor: daemon not running at '' @ addr)) (\<lambda>_. k)"

definition cmdStop :: "('s, 'e) cli_os \<Rightarrow> string list \<Rightarrow> 's command" where
  "cmdStop os args = with_addr args ''stop'' (\<lambda>addr rest. case rest of
      a # _ \<Rightarrow> unexpected ''stop'' a
    | [] \<Rightarrow> if_running os addr (over_net (Client_Stop (ce_transport os) addr)
        (\<lambda>e. fail exitFailure (''servitor: '' @ err_msg e))
        (\<lambda>_. finish ''servitor: stop requested; daemon draining and shutting down'')))"

definition cmdRegister :: "('s, 'e) cli_os \<Rightarrow> string list \<Rightarrow> bool \<Rightarrow> 's command" where
  "cmdRegister os args requireExisting =
     (let name = (if requireExisting then ''update'' else ''submit'');
          verb = (if requireExisting then ''updated'' else ''submitted'') in
      with_addr args name (\<lambda>addr rest. case rest of
        [path] \<Rightarrow> (case ce_read_file os path of
            Inl e \<Rightarrow> failed_at name e
          | Inr data \<Rightarrow>
              let res = Validate (ce_types os) (ce_yaml os) data in
              if \<not> Valid res then
                fail exitFailure (''servitor: '' @ name @ '': '' @ show_nat (length (r_errors res)) @ '' error(s)'')
              else if_running os addr (over_net
                (if requireExisting then Client_Update (ce_transport os) addr data else Client_Submit (ce_transport os) addr data)
                (failed_at name)
                (\<lambda>msg c. finish (''servitor: '' @ verb @ '' '' @ path) (out msg c))))
      | _ \<Rightarrow> fail exitUsage (''servitor: usage: servitor '' @ name @ '' <wafer>'')))"

definition cmdSetEnabled :: "('s, 'e) cli_os \<Rightarrow> string list \<Rightarrow> bool \<Rightarrow> 's command" where
  "cmdSetEnabled os args enabled =
     (let verb = (if enabled then ''enable'' else ''disable'') in
      with_addr args verb (\<lambda>addr rest. case rest of
        [name] \<Rightarrow> if_running os addr (over_net
            (if enabled then Client_Enable (ce_transport os) addr name else Client_Disable (ce_transport os) addr name)
            (failed_at verb)
            (\<lambda>_. finish (''servitor: '' @ butlast verb @ ''d '' @ name)))
      | _ \<Rightarrow> fail exitUsage (''servitor: usage: servitor '' @ verb @ '' <name>'')))"

definition cmdEnable :: "('s, 'e) cli_os \<Rightarrow> string list \<Rightarrow> 's command" where
  "cmdEnable os args = cmdSetEnabled os args True"

definition cmdDisable :: "('s, 'e) cli_os \<Rightarrow> string list \<Rightarrow> 's command" where
  "cmdDisable os args = cmdSetEnabled os args False"

definition cmdTrigger :: "('s, 'e) cli_os \<Rightarrow> string list \<Rightarrow> 's command" where
  "cmdTrigger os args = with_addr args ''trigger'' (\<lambda>addr rest.
      if rest = [] \<or> hd rest = '''' then fail exitUsage ''servitor: usage: servitor trigger <name> [json-inputs]''
      else let name = hd rest; inputs = (case tl rest of [] \<Rightarrow> None | s # _ \<Rightarrow> Some s) in
        if_running os addr (over_net (Client_Trigger (ce_transport os) addr name inputs) (failed_at ''trigger'')
          (\<lambda>_. finish (''servitor: triggered '' @ name))))"

definition cmdRuns :: "('s, 'e) cli_os \<Rightarrow> string list \<Rightarrow> 's command" where
  "cmdRuns os args = with_addr args ''runs'' (\<lambda>addr rest. case rest of
      a # _ \<Rightarrow> unexpected ''runs'' a
    | [] \<Rightarrow> if_running os addr (over_net (Client_ListRuns (ce_transport os) addr) (failed_at ''runs'') finish))"

definition cmdRunDetail :: "('s, 'e) cli_os \<Rightarrow> string list \<Rightarrow> 's command" where
  "cmdRunDetail os args = with_addr args ''run'' (\<lambda>addr rest. case rest of
      [ident] \<Rightarrow> if_running os addr (over_net (Client_GetRun (ce_transport os) addr ident) (failed_at ''run'') finish)
    | _ \<Rightarrow> fail exitUsage ''servitor: usage: servitor run <id>'')"

definition cmdCancel :: "('s, 'e) cli_os \<Rightarrow> string list \<Rightarrow> 's command" where
  "cmdCancel os args = with_addr args ''cancel'' (\<lambda>addr rest. case rest of
      [ident] \<Rightarrow> if_running os addr (over_net (Client_Cancel (ce_transport os) addr ident) (failed_at ''cancel'')
          (\<lambda>_. finish (''servitor: cancelled '' @ ident)))
    | _ \<Rightarrow> fail exitUsage ''servitor: usage: servitor cancel <id>'')"

definition cmdResume :: "('s, 'e) cli_os \<Rightarrow> string list \<Rightarrow> 's command" where
  "cmdResume os args = with_addr args ''resume'' (\<lambda>addr rest.
      if rest = [] \<or> hd rest = '''' then fail exitUsage ''servitor: usage: servitor resume <signal-name> [json-payload]''
      else let name = hd rest; payload = (case tl rest of [] \<Rightarrow> None | s # _ \<Rightarrow> Some s) in
        if_running os addr (over_net (Client_Resume (ce_transport os) addr name payload) (failed_at ''resume'')
          (\<lambda>_. finish (''servitor: sent signal '' @ name))))"

definition modeName :: "string \<Rightarrow> string" where
  "modeName mode = (if mode = '''' then ''continue'' else mode)"

definition rerun_flags :: "flag_def list" where
  "rerun_flags = [string_flag ''addr'' DefaultAddr ''loopback address of the daemon'',
     string_flag ''mode'' '''' ''how to re-run: continue (default), restart, or discard'']"

definition cmdRerun :: "('s, 'e) cli_os \<Rightarrow> string list \<Rightarrow> 's command" where
  "cmdRerun os args c = (case parse_flags ''rerun'' rerun_flags [] args of
      Helped t \<Rightarrow> (exitOK, complain t c)
    | Rejected t \<Rightarrow> (exitUsage, complain t c)
    | Flags vs [runID] \<Rightarrow>
        let addr = flag_value rerun_flags vs ''addr''; mode = flag_value rerun_flags vs ''mode'';
            verb = (if mode = ''discard'' then ''discarded'' else ''rerunning'') in
        if_running os addr (over_net (Client_Rerun (ce_transport os) addr runID mode) (failed_at ''rerun'')
          (\<lambda>_. finish (''servitor: '' @ verb @ '' '' @ runID @ '' ('' @ modeName mode @ '')''))) c
    | Flags _ _ \<Rightarrow> fail exitUsage ''servitor: usage: servitor rerun [--mode continue|restart|discard] <run-id>'' c)"

section \<open>The boot of the daemon\<close>

definition warn_config :: "err \<Rightarrow> string \<Rightarrow> 's cli \<Rightarrow> 's cli" where
  "warn_config e without = complain (''servitor: warning: '' @ err_msg e @ ''; running with no '' @ without @ nl)"

definition buildResolver :: "('s, 'e) cli_os \<Rightarrow> 's cli \<Rightarrow> resolver \<times> 's cli" where
  "buildResolver os c = (case Load (ce_config os) (ci_configs c) '''' of
      Inl e \<Rightarrow> (NewResolver (Some (ce_providers os)) None, warn_config e ''declared secrets'' c)
    | Inr cfg \<Rightarrow> (NewResolver (Some (ce_providers os)) (Some (SecretSources cfg)), c))"

definition buildWebhookReceivers :: "('s, 'e) cli_os \<Rightarrow> 's cli \<Rightarrow> (string, webhook_receiver) table \<times> 's cli" where
  "buildWebhookReceivers os c = (case Load (ce_config os) (ci_configs c) '''' of
      Inl e \<Rightarrow> ([], warn_config e ''webhook receivers'' c)
    | Inr cfg \<Rightarrow> (cf_Webhook cfg, c))"

definition buildMCPConnectors :: "('s, 'e) cli_os \<Rightarrow> 's cli \<Rightarrow> (string, http_connector) table \<times> 's cli" where
  "buildMCPConnectors os c = (case Load (ce_config os) (ci_configs c) '''' of
      Inl e \<Rightarrow> ([], warn_config e ''mcp-http connectors'' c)
    | Inr cfg \<Rightarrow> (map (\<lambda>(n, s). (n, \<lparr> hc_url = sv_URL s, hc_headers = sv_Headers s \<rparr>))
        (filter (\<lambda>(_, s). sv_URL s \<noteq> '''') (cf_MCP cfg)), c))"

definition run_flags :: "flag_def list" where
  "run_flags = [string_flag ''addr'' DefaultAddr ''loopback address of the daemon'',
     string_flag ''db'' '''' ''SQLite file the daemon owns (via Honker)'',
     string_flag ''webhook-addr'' '''' ''address for the inbound webhook receiver (empty disables)'']"

definition cmdRun :: "('s, 'e) cli_os \<Rightarrow> string list \<Rightarrow> 's command" where
  "cmdRun os args c = (case parse_flags ''run'' run_flags [] args of
      Helped t \<Rightarrow> (exitOK, complain t c)
    | Rejected t \<Rightarrow> (exitUsage, complain t c)
    | Flags vs (a # _) \<Rightarrow> unexpected ''run'' a c
    | Flags vs [] \<Rightarrow>
        (case buildResolver os c of (resolver, c1) \<Rightarrow>
        (case buildWebhookReceivers os c1 of (receivers, c2) \<Rightarrow>
        (case buildMCPConnectors os c2 of (connectors, c3) \<Rightarrow>
        (case ce_daemon os \<lparr> bt_Addr = flag_value run_flags vs ''addr'', bt_DBPath = flag_value run_flags vs ''db'',
            bt_ExtPath = ce_getenv os ''HONKER_EXTENSION_PATH'', bt_WebhookAddr = flag_value run_flags vs ''webhook-addr'',
            bt_Resolver = resolver, bt_Receivers = receivers, bt_Connectors = connectors \<rparr> of
          (started, r) \<Rightarrow>
            let c4 = (case started of None \<Rightarrow> c3
              | Some a \<Rightarrow> out (''servitor: daemon listening on '' @ a @ '' (loopback only, ADR-0009)'' @ nl) c3) in
            (case r of
               Inl e \<Rightarrow> fail exitFailure (''servitor: '' @ err_msg e) c4
             | Inr _ \<Rightarrow> finish ''servitor: daemon stopped'' c4))))))"

text \<open>A flag set of the same names decides which of the two the arguments mean.\<close>

definition dispatch_flags :: "flag_def list" where
  "dispatch_flags = [string_flag ''addr'' DefaultAddr '''', string_flag ''db'' '''' '''', string_flag ''webhook-addr'' '''' '''']"

definition cmdRunDispatch :: "('s, 'e) cli_os \<Rightarrow> string list \<Rightarrow> 's command" where
  "cmdRunDispatch os args = (case parse_flags ''run'' dispatch_flags [] args of
      Flags _ rest \<Rightarrow> if rest \<noteq> [] then cmdRunDetail os args else cmdRun os args
    | _ \<Rightarrow> cmdRun os args)"

section \<open>Dry run and capabilities\<close>

definition numbered :: "nat \<times> dag_node \<Rightarrow> string" where
  "numbered p = (case p of (i, s) \<Rightarrow>
     ''  '' @ show_nat (i + 1) @ ''. '' @ dn_name s @ tab @ dn_type s @ tab @ ''['' @
     (if dn_depends_on s = [] then ''start'' else ''after '' @ join_with '', '' (dn_depends_on s)) @ '']'' @ nl)"

definition renderDryRunPlan :: "dry_run_result \<Rightarrow> string" where
  "renderDryRunPlan res =
     (if \<not> Valid (dr_result res) then ''workflow: (invalid)'' @ nl
      else (if dr_name res = '''' then '''' else ''workflow: '' @ dr_name res @ nl) @
        (if dr_triggers res = [] then ''''
         else ''triggers:'' @ nl @ concat (map (\<lambda>t. ''  - '' @ tr_type t @ nl) (dr_triggers res))) @
        (case dr_dag res of
           None \<Rightarrow> ''''
         | Some nodes \<Rightarrow>
             (if dr_secrets res = [] then ''''
              else ''secrets: '' @ join_with '', '' (map (\<lambda>s. ''<redacted:'' @ s @ ''>'') (dr_secrets res)) @ nl) @
             nl @ ''plan ('' @ show_nat (length nodes) @ '' node(s), in run order):'' @ nl @
             concat (map numbered (enumerate 0 nodes))))"

definition plan_flags :: "flag_def list" where
  "plan_flags = [bool_flag ''json'' ''print the structured result as JSON instead of a readable plan'']"

text \<open>ce_plan_json encodes the result as text, the newline included.\<close>

definition cmdDryRun :: "('s, 'e) cli_os \<Rightarrow> string list \<Rightarrow> 's command" where
  "cmdDryRun os args c = (case parse_flags ''dry-run'' plan_flags [] args of
      Helped t \<Rightarrow> (exitOK, complain t c)
    | Rejected t \<Rightarrow> (exitUsage, complain t c)
    | Flags vs [path] \<Rightarrow> (case ce_read_file os path of
        Inl e \<Rightarrow> failed_at ''dry-run'' e c
      | Inr data \<Rightarrow>
         let res = DryRun (ce_types os) (ce_yaml os) (ce_yaml_map os) (ce_getenv os) data in
         (case (if flag_value plan_flags vs ''json'' = ''true'' then ce_plan_json os res else Inr (renderDryRunPlan res)) of
            Inl e \<Rightarrow> failed_at ''dry-run'' e c
          | Inr plan \<Rightarrow>
             if \<not> Valid (dr_result res) then
               fail exitFailure (''servitor: dry-run: '' @ show_nat (length (r_errors (dr_result res))) @ '' error(s)'') (out plan c)
             else (exitOK, complain (''servitor: dry-run: valid'' @ nl) (out plan c))))
    | Flags _ _ \<Rightarrow> fail exitUsage ''servitor: usage: servitor dry-run [--json] <wafer>'' c)"

definition cmdCapabilities :: "('s, 'e) cli_os \<Rightarrow> string list \<Rightarrow> 's command" where
  "cmdCapabilities os args c =
     (if length args > 1 then fail exitUsage ''servitor: usage: servitor capabilities [dir]'' c
      else let dir = (case args of [] \<Rightarrow> '''' | d # _ \<Rightarrow> d) in
      (case buildResolver os c of (resolver, c1) \<Rightarrow>
      (case Write ((ce_caps os)\<lparr> cp_config_os := ce_config os, cp_config_files := ci_configs c1, cp_types := ce_types os,
              cp_providers := ce_providers os \<rparr>) dir (Some resolver) (ci_caps c1) of
         (Inl e, fs) \<Rightarrow> fail exitFailure (''servitor: '' @ err_msg e) (c1\<lparr> ci_caps := fs \<rparr>)
       | (Inr _, fs) \<Rightarrow> finish (''servitor: wrote capabilities to '' @ (if dir = '''' then DefaultDir else dir))
           (c1\<lparr> ci_caps := fs \<rparr>))))"

section \<open>The dispatch\<close>

definition appVersion :: "('s, 'e) cli_os \<Rightarrow> string" where
  "appVersion os = ''servitor '' @ ce_version os"

definition usage_lines :: "string list" where
  "usage_lines = [
     ''servitor - workflow automation for the agentic stack'',
     '''',
     ''Usage:'',
     ''  servitor <command> [arguments]'',
     '''',
     ''Commands:'',
     ''  version          print the version'',
     ''  help             show this help'',
     ''  run              boot the runner daemon'',
     ''  capabilities     write node/trigger/secret/tap schemas to files'',
     ''  dry-run <wafer>  validate and resolve without executing (--json for structured)'',
     ''  submit <wafer>   validate and register a workflow'',
     ''  update <wafer>   replace a workflow's definition'',
     ''  enable <name>    register a workflow's triggers'',
     ''  disable <name>   unregister without deleting'',
     ''  trigger <name>   manual run with optional inputs'',
     ''  runs             list run history'',
     ''  run <id>         inspect one run'',
     ''  cancel <id>      stop an in-flight run'',
     ''  resume <name>    resume a parked (waiting) run by named signal (ADR-0042)'',
     ''  rerun <id>       re-run a dead-lettered (failed) run (ADR-0044)'',
     ''  stop             drain and shut the daemon down'',
     ''  mcp add/list/remove  manage declared MCP servers (ADR-0018)'',
     ''  tap add/list/remove  manage declared Singer taps (ADR-0018)'',
     ''  target add/list/remove  manage declared Singer targets (ADR-0018)'',
     ''  secret add/list/remove  manage declared secrets (ADR-0035)'',
     ''  secret seal <name>      seal a value (stdin) into the on-box store (onbox source)'',
     ''  webhook add/list/remove  manage declared webhook receivers (ADR-0049)'',
     '''',
     ''Flags:'',
     ''  --addr ADDR  loopback address of the daemon (default 127.0.0.1:7365)'',
     ''  --db PATH    SQLite file the daemon owns (via Honker)'',
     ''  HONKER_EXTENSION_PATH  path to the Honker extension .so (ADR-0011)'',
     '''',
     ''The declared connector commands (mcp/tap/target/secret/webhook) edit a local'',
     ''servitor.config.yaml and need no daemon; the actual software install is'',
     ''delegated to the ecosystem's package managers (npx, pipx, uv, Meltano), and'',
     ''secret values are delivered to the declared source, never stored here.'',
     '''',
     ''The daemon binds 127.0.0.1 only and the control plane is loopback-gated'',
     ''(ADR-0009). All commands in the set above are implemented.'']"

definition printUsage :: "'s cli \<Rightarrow> 's cli" where
  "printUsage = out (concat (map (\<lambda>l. l @ nl) usage_lines))"

text \<open>The commands by name; the hidden ones start with two underscores.\<close>

definition commands :: "('s, 'e) cli_os \<Rightarrow> (string \<times> (string list \<Rightarrow> 's command)) list" where
  "commands os =
     [(''run'', cmdRunDispatch os), (''stop'', cmdStop os), (''dry-run'', cmdDryRun os),
      (''capabilities'', cmdCapabilities os), (''submit'', \<lambda>args. cmdRegister os args False),
      (''update'', \<lambda>args. cmdRegister os args True), (''enable'', cmdEnable os), (''disable'', cmdDisable os),
      (''trigger'', cmdTrigger os), (''runs'', cmdRuns os), (''cancel'', cmdCancel os), (''resume'', cmdResume os),
      (''rerun'', cmdRerun os), (''mcp'', cmdMCP os), (''tap'', cmdTap os), (''target'', cmdTarget os),
      (''secret'', cmdSecret os), (''webhook'', cmdWebhook os), (''__transform'', cmdTransformNode os),
      (''__switch'', cmdSwitchNode os), (''__foreach'', cmdForeachNode os), (''__email_poll'', cmdEmailPoll os),
      (''__mcp_http'', cmdMCPHTTP os), (''__http'', cmdHTTPNode os), (''__eval'', cmdEvalNode os)]"

definition Cli_Run :: "('s, 'e) cli_os \<Rightarrow> string list \<Rightarrow> 's command" where
  "Cli_Run os args = (case args of
      [] \<Rightarrow> (\<lambda>c. (exitOK, printUsage c))
    | a # rest \<Rightarrow>
        if a \<in> {''version'', ''--version'', ''-v''} then finish (appVersion os)
        else if a \<in> {''help'', ''--help'', ''-h''} then (\<lambda>c. (exitOK, printUsage c))
        else (case map_of (commands os) a of
            Some cmd \<Rightarrow> cmd rest
          | None \<Rightarrow> fail exitFailure (''servitor: command '' @ quote a @
              '' is not implemented yet (this phase builds run, stop, dry-run, and capabilities)'')))"

end
