(* ===== verification/CommandLaws.thy ===== *)
theory CommandLaws
  imports Cli
begin

text \<open>
  What every command of the command line keeps to, proved once for any law on the state before a command and
  on how it ends: a law that holds of a command that ends well or says why not, that only the text printed has
  no bearing on, extends along the way the commands are put together. Laws that the changes of one part of the state
  have no bearing on extend to the commands that change that part.
\<close>

named_theorems ends \<open>the law holds of a command or a part of one\<close>

section \<open>Flags that are refused say why\<close>

lemma usage_text_not_empty [simp]: "usage_text name fs \<noteq> ''''"
  by (simp add: usage_text_def)

lemma rejected_not_empty: "rejected name fs msg \<noteq> Rejected ''''" "rejected name fs msg \<noteq> Helped ''''"
  by (auto simp: rejected_def nl_def)

definition silent :: "flags \<Rightarrow> bool" where
  "silent r \<longleftrightarrow> r = Helped '''' \<or> r = Rejected ''''"

lemma silent_simps [simp]:
  "\<not> silent (Flags vs rest)" "\<not> silent (Helped (usage_text name fs))" "\<not> silent (rejected name fs msg)"
  by (simp_all add: silent_def rejected_not_empty)

lemma parse_one_speaks: "parse_one name fs args \<noteq> GivesUp (Helped '''')" "parse_one name fs args \<noteq> GivesUp (Rejected '''')"
proof -
  have "\<not> silent r" if "parse_named name fs key val rest = GivesUp r" for key val rest r
    using that by (auto simp: parse_named_def parse_value_def Let_def split: option.splits if_splits list.splits)
  then have "\<not> silent r" if "parse_one name fs args = GivesUp r" for r
    using that by (cases args) (auto simp: parse_one.simps Let_def split: if_splits option.splits)
  then show "parse_one name fs args \<noteq> GivesUp (Helped '''')" "parse_one name fs args \<noteq> GivesUp (Rejected '''')"
    unfolding silent_def by blast+
qed

lemma parse_flags_texts: "\<not> silent (parse_flags name fs vs args)"
proof (induction name fs vs args rule: parse_flags.induct)
  case (1 name fs vs args)
  then show ?case
    using parse_one_speaks [of name fs args]
    by (subst parse_flags.simps) (auto simp: silent_def split: one_flag.split)
qed

lemma parse_flags_not_empty [simp]:
  "parse_flags name fs vs args \<noteq> Helped ''''" "parse_flags name fs vs args \<noteq> Rejected ''''"
  using parse_flags_texts [of name fs vs args] by (auto simp: silent_def)

section \<open>Laws of commands\<close>

locale command_law =
  fixes P :: "'s cli \<Rightarrow> int \<times> 's cli \<Rightarrow> bool"
  assumes ends_well [ends]: "P c (exitOK, c)"
    and ends_badly [ends]: "n \<in> {exitFailure, exitUsage, exitNoDaemon} \<Longrightarrow> t \<noteq> '''' \<Longrightarrow> P c (n, complain t c)"
    and after_out: "P (out s c) r \<Longrightarrow> P c r"
    and after_complain: "P (complain s c) r \<Longrightarrow> P c r"
begin

lemma P_printed [ends]: "P c (exitOK, out s c)" "P c (exitOK, complain s c)"
  by (rule after_out, rule ends_well, rule after_complain, rule ends_well)

lemma P_finish [ends]: "P c (finish s c)"
  by (simp add: finish_def ends)

lemma P_fail [ends]: "n \<in> {exitFailure, exitUsage, exitNoDaemon} \<Longrightarrow> P c (fail n s c)"
  unfolding fail_def by (rule ends_badly) (auto simp: nl_def)

lemma P_failed_at [ends]: "P c (failed_at name e c)"
  by (simp add: failed_at_def ends)

lemma P_unexpected [ends]: "P c (unexpected name a c)"
  by (simp add: unexpected_def ends)

lemma P_with_addr [ends]:
  assumes "\<And>addr rest c. P c (k addr rest c)"
  shows "P c (with_addr args name k c)"
  using assms by (auto simp: with_addr_def parseAddr_def intro!: ends intro: after_complain split: flags.splits)

lemma P_with_path [ends]:
  assumes "\<And>path rest c. P c (k path rest c)"
  shows "P c (with_path name args k c)"
  using assms by (auto simp: with_path_def configPath_def intro!: ends split: flags.splits)

lemma P_with_config [ends]:
  assumes "\<And>cfg c. P c (k cfg c)"
  shows "P c (with_config os name path k c)"
  using assms by (auto simp: with_config_def intro!: ends split: sum.splits)

lemma P_list_section [ends]: "P c (list_section os kind lines args c)"
  unfolding list_section_def by (intro ends) (auto intro!: ends split: list.splits)

lemma P_sub_command [ends]:
  assumes "\<And>p args c. p \<in> set cases \<Longrightarrow> P c (snd p args c)"
  shows "P c (sub_command kind names cases args c)"
proof (cases args)
  case (Cons a rest)
  have "p \<in> set cases" if "find (\<lambda>p. a \<in> set (fst p)) cases = Some p" for p
    using that unfolding find_Some_iff by auto
  then show ?thesis
    using assms by (simp add: Cons sub_command_def ends split: option.split)
qed (simp add: sub_command_def ends)

lemma after_boot:
  "buildResolver os c = (r, c') \<Longrightarrow> P c' x \<Longrightarrow> P c x" "buildWebhookReceivers os c = (ws, c') \<Longrightarrow> P c' x \<Longrightarrow> P c x"
  "buildMCPConnectors os c = (ms, c') \<Longrightarrow> P c' x \<Longrightarrow> P c x"
  by (auto simp: buildResolver_def buildWebhookReceivers_def buildMCPConnectors_def warn_config_def
      intro: after_complain split: sum.splits)

lemma P_run [ends]: "P c (cmdRun os args c)"
proof -
  obtain r c1 where 1: "buildResolver os c = (r, c1)" by (metis surj_pair)
  obtain ws c2 where 2: "buildWebhookReceivers os c1 = (ws, c2)" by (metis surj_pair)
  obtain ms c3 where 3: "buildMCPConnectors os c2 = (ms, c3)" by (metis surj_pair)
  have g: "P c3 x \<Longrightarrow> P c x" for x using after_boot(1) [OF 1] after_boot(2) [OF 2] after_boot(3) [OF 3] by blast
  show ?thesis
    unfolding cmdRun_def
    by (auto simp: 1 2 3 Let_def intro!: ends intro: g after_out
        split: flags.splits list.splits prod.splits option.splits sum.splits)
qed

lemma P_run_dispatch:
  "(\<And>c. P c (cmdRunDetail os args c)) \<Longrightarrow> P c (cmdRunDispatch os args c)"
  unfolding cmdRunDispatch_def by (auto intro!: ends split: flags.splits)

lemma P_dry_run [ends]: "P c (cmdDryRun os args c)"
  unfolding cmdDryRun_def
  by (auto simp: Let_def intro!: ends intro: after_out split: flags.splits list.splits sum.splits)

lemma P_node_parts [ends]:
  "(\<And>data c. P c (k data c)) \<Longrightarrow> P c (with_stdin os name k c)"
  "(\<And>v c. P c (k' v c)) \<Longrightarrow> P c (read_json os name data k' c)"
  "P c (emit name r c)"
  by (auto simp: with_stdin_def read_json_def emit_def intro!: ends split: sum.split)

lemma P_eval [ends]:
  assumes "\<And>v c. P c (k v c)"
  shows "P c (eval_stdin os name expr k c)"
  unfolding eval_stdin_def by (intro ends) (auto intro!: ends assms split: sum.split)

lemma P_node_commands [ends]:
  "P c (cmdTransformNode os args c)" "P c (cmdEvalNode os args c)" "P c (cmdForeachNode os args c)"
  "P c (cmdSwitchNode os args c)" "P c (cmdMCPHTTP os args c)" "P c (cmdHTTPNode os args c)"
  unfolding cmdTransformNode_def cmdEvalNode_def cmdForeachNode_def cmdSwitchNode_def cmdMCPHTTP_def cmdHTTPNode_def
    Let_def
  by (auto intro!: ends split: list.splits "value.splits" sum.splits)

lemma P_usage [ends]: "P c (exitOK, printUsage c)"
  by (simp add: printUsage_def ends)

lemma P_Cli_Run:
  assumes "\<And>a rest cmd. args = a # rest \<Longrightarrow> map_of (commands os) a = Some cmd \<Longrightarrow> P c (cmd rest c)"
  shows "P c (Cli_Run os args c)"
proof (cases args)
  case (Cons a rest)
  show ?thesis
  proof (cases "map_of (commands os) a")
    case None
    then show ?thesis by (simp add: Cli_Run_def Cons ends)
  next
    case (Some cmd)
    then show ?thesis using assms [OF Cons Some] by (simp add: Cli_Run_def Cons ends)
  qed
qed (simp add: Cli_Run_def ends)

end

locale net_law = command_law +
  assumes after_net: "P (c\<lparr> ci_net := s \<rparr>) r \<Longrightarrow> P c r"
begin

lemma P_over_net [ends]:
  assumes "\<And>e c. P c (bad e c)" "\<And>a c. P c (good a c)"
  shows "P c (over_net m bad good c)"
proof -
  obtain r s where m: "m (ci_net c) = (r, s)" by (cases "m (ci_net c)")
  have "P c (bad e (c\<lparr> ci_net := s \<rparr>))" "P c (good a (c\<lparr> ci_net := s \<rparr>))" for e a
    by (rule after_net, rule assms)+
  then show ?thesis by (cases r) (simp_all add: over_net_def m)
qed

lemma P_if_running [ends]:
  assumes "\<And>c. P c (k c)"
  shows "P c (if_running os addr k c)"
  unfolding if_running_def by (intro ends assms) simp

lemma P_daemon_commands [ends]:
  "P c (cmdStop os args c)" "P c (cmdRegister os args flag c)" "P c (cmdSetEnabled os args flag c)"
  "P c (cmdTrigger os args c)" "P c (cmdRuns os args c)" "P c (cmdRunDetail os args c)"
  "P c (cmdCancel os args c)" "P c (cmdResume os args c)"
  unfolding cmdStop_def cmdRegister_def cmdSetEnabled_def cmdTrigger_def cmdRuns_def cmdRunDetail_def cmdCancel_def
    cmdResume_def Let_def
  by (intro ends, auto intro!: ends simp: Let_def intro: after_out split: list.splits sum.splits)+

lemma P_more_daemon_commands [ends]:
  "P c (cmdEnable os args c)" "P c (cmdDisable os args c)" "P c (cmdRerun os args c)" "P c (cmdRunDispatch os args c)"
  unfolding cmdRerun_def
  by (auto simp: cmdEnable_def cmdDisable_def Let_def intro!: ends P_run_dispatch split: flags.splits list.splits)

end

lemma same_configs [simp]: "c\<lparr> ci_configs := ci_configs c \<rparr> = c"
  by simp

text \<open>A Save that fails leaves the files alone.\<close>

lemma Save_fails_whole: "Save os cfg path fs = (Inl e, fs') \<Longrightarrow> fs' = fs"
  by (auto simp: Save_def Let_def split: sum.splits if_splits)

locale config_law = command_law +
  assumes after_save: "P c (finish t (c\<lparr> ci_configs := fs \<rparr>))"
begin

lemma P_save_config [ends]: "P c (save_config os name path cfg done c)"
  by (auto simp: save_config_def intro!: ends after_save dest!: Save_fails_whole split: prod.splits sum.splits)

lemma P_add_connector [ends]: "P c (add_connector os kind what add args c)"
  unfolding add_connector_def by (intro ends) (auto intro!: ends simp: Let_def split: list.splits)

lemma P_remove_from [ends]: "P c (remove_from os kind what arg remove args c)"
  unfolding remove_from_def by (intro ends) (auto intro!: ends split: list.splits prod.splits bool.splits)

lemma P_connectors [ends]: "P c (cmdMCP os args c)" "P c (cmdTap os args c)" "P c (cmdTarget os args c)"
  unfolding cmdMCP_def cmdTap_def cmdTarget_def
  by (rule ends, auto intro!: ends simp: cmdMCPAdd_def cmdMCPList_def cmdMCPRemove_def cmdTapAdd_def cmdTapList_def
      cmdTapRemove_def cmdTargetAdd_def cmdTargetList_def cmdTargetRemove_def)+

lemma P_secret_edits [ends]:
  "P c (cmdSecretAdd os args c)" "P c (cmdSecretList os args c)" "P c (cmdSecretRemove os args c)"
  unfolding cmdSecretAdd_def cmdSecretList_def cmdSecretRemove_def
  by (auto intro!: ends simp: Let_def split: options.splits list.splits)

lemma P_webhook [ends]: "P c (cmdWebhook os args c)"
proof -
  have "P c (cmdWebhookAdd os args c)" for args c
    unfolding cmdWebhookAdd_def by (auto intro!: ends simp: Let_def split: options.splits list.splits)
  then show ?thesis
    unfolding cmdWebhook_def by (intro ends) (auto intro!: ends simp: cmdWebhookList_def cmdWebhookRemove_def)
qed

end

locale store_law = command_law +
  assumes after_seal: "P c (finish t (c\<lparr> ci_store := s \<rparr>))"
begin

lemma P_seal [ends]: "P c (cmdSecretSeal os args c)"
  unfolding cmdSecretSeal_def by (auto intro!: ends after_seal split: list.splits sum.splits)

end

locale caps_law = command_law +
  assumes after_caps: "P (c\<lparr> ci_caps := s \<rparr>) r \<Longrightarrow> P c r"
begin

lemma P_capabilities [ends]: "P c (cmdCapabilities os args c)"
proof -
  obtain r c1 where 1: "buildResolver os c = (r, c1)" by (metis surj_pair)
  show ?thesis
    unfolding cmdCapabilities_def
    by (auto simp: 1 Let_def intro!: ends intro: after_boot(1) [OF 1] after_caps split: list.splits prod.splits sum.splits)
qed

end

locale mail_law = command_law +
  assumes after_mail: "P (c\<lparr> ci_mail := s \<rparr>) r \<Longrightarrow> P c r"
    and before_mail: "P c (n, c') \<Longrightarrow> P c (n, c'\<lparr> ci_mail := s \<rparr>)"
begin

lemma P_on_mail [ends]:
  assumes "\<And>e c. P c (bad e c)" "\<And>a c. P c (good a c)"
  shows "P c (on_mail m bad good c)"
proof -
  obtain r s where m: "m (ci_mail c) = (r, s)" by (cases "m (ci_mail c)")
  have "P c (bad e (c\<lparr> ci_mail := s \<rparr>))" "P c (good a (c\<lparr> ci_mail := s \<rparr>))" for e a
    by (rule after_mail, rule assms)+
  then show ?thesis by (cases r) (simp_all add: on_mail_def m)
qed

lemma P_closing [ends]:
  assumes "\<And>c. P c (k c)"
  shows "P c (closing sv k c)"
  using assms [of c] by (cases "k c") (simp add: closing_def before_mail)

lemma P_email_poll [ends]: "P c (cmdEmailPoll os args c)"
  unfolding cmdEmailPoll_def Let_def by (auto intro!: ends split: sum.splits)

end

text \<open>A law that none of the changes has a bearing on holds of every command.\<close>

locale whole_law = net_law + config_law + store_law + caps_law + mail_law
begin

lemma P_secret [ends]: "P c (cmdSecret os args c)"
  unfolding cmdSecret_def by (intro ends) (auto intro!: ends)

lemma P_command [ends]: "P c (Cli_Run os args c)"
proof (rule P_Cli_Run)
  fix a rest cmd
  assume "map_of (commands os) a = Some cmd"
  then have "(a, cmd) \<in> set (commands os)" by (rule map_of_SomeD)
  then show "P c (cmd rest c)" by (auto simp: commands_def ends)
qed

end

end
