(* ===== verification/GmailLaws.thy ===== *)
theory GmailLaws
  imports Gmail
begin

text \<open>
  The polls of a mailbox: while the server answers, every message becomes an email once, in the order of
  the mailbox; a poll that ended without an error is the last to see the messages it found, whatever the fetch
  delivered.
\<close>

section \<open>What a poll sends\<close>

lemma imap_do_calm: "im_answer sv (h @ [c]) = None \<Longrightarrow> imap_do sv c h = (Inr (), h @ [c])"
  by (simp add: imap_do_def)

lemma snd_imap_do [simp]: "snd (imap_do sv c h) = h @ [c]"
  by (simp add: imap_do_def split: option.splits)

definition dial_commands :: "imap_config \<Rightarrow> imap_command list" where
  "dial_commands cfg =
     [IConnect (if CHR '':'' \<in> set (ic_Host cfg) then ic_Host cfg else ic_Host cfg @ '':993''),
      ILogin (ic_Username cfg) (ic_Password cfg)]"

definition search_commands :: "imap_config \<Rightarrow> imap_command list" where
  "search_commands cfg =
     [ISelect (if ic_Mailbox cfg = '''' then ''INBOX'' else ic_Mailbox cfg), ISearchUnseen]"

lemma Dial_calm:
  assumes "\<And>h. im_answer sv h = None" "ic_Host cfg \<noteq> ''''"
  shows "Dial sv cfg h = (Inr (), h @ dial_commands cfg)"
  using assms by (simp add: Dial_def dial_commands_def Let_def io_bind_def io_wrap_def imap_do_def)

lemma FetchNew_found:
  assumes "\<And>h. im_answer sv h = None" and h2: "h2 = h @ search_commands cfg" and s: "s = im_found sv h2" "s \<noteq> []"
  shows "FetchNew sv cfg h =
     ((if im_messages sv (h2 @ [IFetch s]) = [] then None
       else Some (map (parseMessage sv) (im_messages sv (h2 @ [IFetch s]))), None), h2 @ [IFetch s, IStoreSeen s])"
  using assms by (simp add: FetchNew_def search_commands_def Let_def io_wrap_def imap_do_def markSeen_def)

lemma FetchNew_nothing:
  assumes "\<And>h. im_answer sv h = None" "im_found sv (h @ search_commands cfg) = []"
  shows "FetchNew sv cfg h = ((None, None), h @ search_commands cfg)"
  using assms by (simp add: FetchNew_def search_commands_def Let_def imap_do_def)

section \<open>What is marked\<close>

lemma stored_append: "k < length h \<Longrightarrow> stored sv (h @ h') k = stored sv h k"
  by (simp add: stored_def nth_append split: imap_command.splits)

lemma marked_UN: "marked sv h = (\<Union>k<length h. set (stored sv h k))"
  by (auto simp: marked_def)

lemma marked_append: "marked sv h \<subseteq> marked sv (h @ h')"
  unfolding marked_UN by (rule UN_mono) (auto simp: stored_append)

lemma marked_snoc: "marked sv (h @ [c]) = marked sv h \<union> set (stored sv (h @ [c]) (length h))"
  by (auto simp: marked_UN stored_append lessThan_Suc)

lemma stored_last:
  "stored sv (h @ [IStoreSeen s]) (length h) = (if im_answer sv (h @ [IStoreSeen s]) = None then s else [])"
  "(\<And>s. c \<noteq> IStoreSeen s) \<Longrightarrow> stored sv (h @ [c]) (length h) = []"
  by (auto simp: stored_def split: imap_command.splits)

lemma marked_quiet:
  assumes "\<And>c s. c \<in> set cs \<Longrightarrow> c \<noteq> IStoreSeen s"
  shows "marked sv (h @ cs) = marked sv h"
  using assms
proof (induction cs rule: rev_induct)
  case (snoc c cs)
  have "stored sv ((h @ cs) @ [c]) (length (h @ cs)) = []"
    using snoc.prems by (intro stored_last(2)) auto
  then have "marked sv ((h @ cs) @ [c]) = marked sv (h @ cs)"
    by (simp only: marked_snoc list.set(1) Un_empty_right)
  also have "... = marked sv h" using snoc by simp
  finally show ?case by simp
qed simp

lemma quiet_commands: "c \<in> set (dial_commands cfg @ search_commands cfg) \<Longrightarrow> c \<noteq> IStoreSeen s"
  by (auto simp: dial_commands_def search_commands_def)

section \<open>Polls while the server answers\<close>

lemma mailbox_grows: "mailbox sv inbox \<Longrightarrow> prefix (inbox h) (inbox (h @ h'))"
  by (simp add: mailbox_def)

lemma mailbox_found:
  "mailbox sv inbox \<Longrightarrow> im_found sv h = filter (\<lambda>i. i \<notin> marked sv h) [1..<Suc (length (inbox h))]"
  by (simp add: mailbox_def)

lemma mailbox_fetch:
  "mailbox sv inbox \<Longrightarrow> im_answer sv (h @ [IFetch s]) = None \<Longrightarrow>
   im_messages sv (h @ [IFetch s]) = map (\<lambda>i. inbox (h @ [IFetch s]) ! (i - 1)) s"
  by (simp add: mailbox_def)

lemma unmarked_rest:
  "k \<le> n \<Longrightarrow> filter (\<lambda>i. i \<notin> {1..k}) [1..<Suc n] = [Suc k..<Suc n]"
proof -
  assume "k \<le> n"
  then have "[1..<Suc n] = [1..<Suc k] @ [Suc k..<Suc n]" using upt_add_eq_append [of 1 "Suc k" "n - k"] by simp
  then show ?thesis by (simp add: filter_empty_conv del: upt_Suc)
qed

lemma messages_from:
  assumes "prefix xs ys" "k \<le> length xs"
  shows "map (\<lambda>i. ys ! (i - 1)) [Suc k..<Suc (length xs)] = drop k xs"
  using assms by (auto intro!: nth_equalityI simp: prefix_def nth_append simp del: upt_Suc)

text \<open>The emails so far, the numbers marked so far.\<close>

definition polled :: "imap_server \<Rightarrow> (imap_command list \<Rightarrow> imap_message list) \<Rightarrow> nat \<Rightarrow> email list \<Rightarrow> imap_command list \<Rightarrow> bool" where
  "polled sv inbox k es h \<longleftrightarrow> k \<le> length (inbox h) \<and> marked sv h = {1..k} \<and>
     es = map (parseMessage sv) (take k (inbox h))"

lemma polled_quiet:
  assumes mb: "mailbox sv inbox" and p: "polled sv inbox k es h" and q: "\<And>c s. c \<in> set cs \<Longrightarrow> c \<noteq> IStoreSeen s"
  shows "polled sv inbox k es (h @ cs)"
proof -
  obtain ms where ms: "inbox (h @ cs) = inbox h @ ms" using mailbox_grows [OF mb] by (auto simp: prefix_def)
  show ?thesis using p marked_quiet [of cs sv h] q by (auto simp: polled_def ms)
qed

lemma polled_found:
  assumes mb: "mailbox sv inbox" and p: "polled sv inbox k es h"
  shows "im_found sv h = [Suc k..<Suc (length (inbox h))]"
  using p unmarked_rest [of k "length (inbox h)"] by (simp add: mailbox_found [OF mb] polled_def)

lemma polled_fetched:
  assumes mb: "mailbox sv inbox" and calm: "\<And>h. im_answer sv h = None" and p: "polled sv inbox k es h"
    and s: "s = im_found sv h" and ms: "ms = im_messages sv (h @ [IFetch s])"
  shows "ms = drop k (inbox h)"
    and "polled sv inbox (length (inbox h)) (es @ map (parseMessage sv) ms) (h @ [IFetch s, IStoreSeen s])"
proof -
  have k: "k \<le> length (inbox h)" using p by (simp add: polled_def)
  show ms': "ms = drop k (inbox h)"
    unfolding ms mailbox_fetch [OF mb calm] s polled_found [OF mb p]
    using messages_from [OF mailbox_grows [OF mb] k] by simp
  obtain zs where zs: "inbox (h @ [IFetch s, IStoreSeen s]) = inbox h @ zs"
    using mailbox_grows [OF mb, of h "[IFetch s, IStoreSeen s]"] by (auto simp: prefix_def)
  have m0: "marked sv (h @ [IFetch s]) = marked sv h" using marked_quiet [of "[IFetch s]"] by auto
  have m1: "stored sv ((h @ [IFetch s]) @ [IStoreSeen s]) (length (h @ [IFetch s])) = s"
    using stored_last(1) [of sv "h @ [IFetch s]"] calm by simp
  have m2: "set s = {Suc k..length (inbox h)}"
    using s polled_found [OF mb p] by (simp add: atLeastLessThanSuc_atLeastAtMost del: upt_Suc)
  have "marked sv (h @ [IFetch s, IStoreSeen s]) = marked sv h \<union> set s"
    using marked_snoc [of sv "h @ [IFetch s]" "IStoreSeen s"] m0 m1 by simp
  also have "... = {1..length (inbox h)}"
    using p k m2 by (auto simp: polled_def)
  finally show "polled sv inbox (length (inbox h)) (es @ map (parseMessage sv) ms) (h @ [IFetch s, IStoreSeen s])"
    using p k by (simp add: polled_def zs ms' flip: map_append)
qed

lemma poll_advances:
  assumes mb: "mailbox sv inbox" and calm: "\<And>h. im_answer sv h = None" and host: "ic_Host cfg \<noteq> ''''"
    and p: "polled sv inbox k es h" and r: "poll_session sv cfg h = ((new, e), h')"
  shows "\<exists>k'\<ge>length (inbox h). polled sv inbox k' (es @ (case new of None \<Rightarrow> [] | Some xs \<Rightarrow> xs)) h'"
proof -
  let ?h2 = "(h @ dial_commands cfg) @ search_commands cfg"
  have p2: "polled sv inbox k es ?h2"
    using polled_quiet [OF mb p, of "dial_commands cfg @ search_commands cfg"] quiet_commands by simp
  have le: "length (inbox h) \<le> length (inbox ?h2)"
    using mailbox_grows [OF mb, of h "dial_commands cfg @ search_commands cfg"] by (simp add: prefix_length_le)
  have out: "polled sv inbox k' xs (H @ [ILogout])" if "polled sv inbox k' xs H" for k' xs H
    using polled_quiet [OF mb that, of "[ILogout]"] by simp
  show ?thesis
  proof (cases "im_found sv ?h2 = []")
    case True
    then have "length (inbox ?h2) \<le> k" unfolding polled_found [OF mb p2] by (simp del: upt_Suc)
    moreover have "new = None" "h' = ?h2 @ [ILogout]"
      using r FetchNew_nothing [OF calm True] by (simp_all add: poll_session_def Dial_calm [OF calm host] Close_def)
    ultimately show ?thesis using out [OF p2] le by (auto simp del: append_assoc intro!: exI [of _ k])
  next
    case False
    let ?s = "im_found sv ?h2" and ?ms = "im_messages sv (?h2 @ [IFetch (im_found sv ?h2)])"
    have "(case new of None \<Rightarrow> [] | Some xs \<Rightarrow> xs) = map (parseMessage sv) ?ms" "h' = (?h2 @ [IFetch ?s, IStoreSeen ?s]) @ [ILogout]"
      using r FetchNew_found [OF calm refl refl False]
      by (auto simp: poll_session_def Dial_calm [OF calm host] Close_def simp del: append_assoc)
    then show ?thesis using out [OF polled_fetched(2) [OF mb calm p2 refl refl]] le by auto
  qed
qed

lemma polled_start: "mailbox sv inbox \<Longrightarrow> polled sv inbox 0 [] []"
  by (simp add: polled_def marked_def)

lemma polls_polled:
  assumes "mailbox sv inbox" "\<And>h. im_answer sv h = None" "ic_Host cfg \<noteq> ''''"
  shows "\<exists>k. polled sv inbox k (fst (polls sv cfg n [])) (snd (polls sv cfg n []))"
proof (induction n)
  case 0
  show ?case using polled_start [OF assms(1)] by auto
next
  case (Suc n)
  obtain es h where n: "polls sv cfg n [] = (es, h)" by (cases "polls sv cfg n []")
  obtain new e h' where r: "poll_session sv cfg h = ((new, e), h')" by (metis surj_pair)
  show ?case using Suc.IH poll_advances [OF assms _ r] by (auto simp: n r)
qed


section \<open>A mailbox of two messages, the second arriving after the first session\<close>

definition demo_message :: "string \<Rightarrow> imap_message" where
  "demo_message s = \<lparr> mg_subject = s, mg_date = ''2026-01-01T00:00:00Z'', mg_id = s,
     mg_from = [\<lparr> ad_name = ''Ann'', ad_mailbox = ''ann'', ad_host = ''example.com'' \<rparr>], mg_to = [], mg_bodies = [Some s] \<rparr>"

definition demo_inbox :: "imap_command list \<Rightarrow> imap_message list" where
  "demo_inbox h = take (Suc (length (filter (\<lambda>c. c = ILogout) h))) [demo_message ''one'', demo_message ''two'']"

definition is_fetch :: "imap_command \<Rightarrow> bool" where
  "is_fetch c = (case c of IFetch _ \<Rightarrow> True | _ \<Rightarrow> False)"

text \<open>With \<^verbatim>\<open>broken\<close> every fetch fails before its first message.\<close>

definition demo_imap :: "bool \<Rightarrow> imap_server" where
  "demo_imap broken =
     (let base = \<lparr> im_answer = (\<lambda>h. if broken \<and> is_fetch (last h) then Some (errorf ''broken pipe'') else None),
        im_found = (\<lambda>_. []),
        im_messages = (\<lambda>h. case last h of
            IFetch s \<Rightarrow> if broken then [] else map (\<lambda>i. demo_inbox h ! (i - 1)) s
          | _ \<Rightarrow> []),
        im_parts = (\<lambda>raw. Inr [Attachment, Inline ''text/plain'' (Inr raw)]) \<rparr> in
      base\<lparr> im_found := \<lambda>h. filter (\<lambda>i. i \<notin> marked base h) [1..<Suc (length (demo_inbox h))] \<rparr>)"

definition demo_account :: imap_config where
  "demo_account = \<lparr> ic_Host = ''imap.example.com'', ic_Username = ''me'', ic_Password = ''pw'', ic_Mailbox = '''' \<rparr>"

lemma demo_answer: "im_answer (demo_imap broken) h = (if broken \<and> is_fetch (last h) then Some (errorf ''broken pipe'') else None)"
  by (simp add: demo_imap_def Let_def)

lemma demo_mailbox: "mailbox (demo_imap broken) demo_inbox"
proof -
  have "prefix (demo_inbox h) (demo_inbox (h @ h'))" for h h'
    by (auto simp: demo_inbox_def take_is_prefix prefix_def take_Cons split: nat.splits)
  moreover have "im_found (demo_imap broken) h =
      filter (\<lambda>i. i \<notin> marked (demo_imap broken) h) [1..<Suc (length (demo_inbox h))]" for h
    by (simp add: demo_imap_def Let_def marked_def stored_def cong: imap_command.case_cong)
  moreover have "im_answer (demo_imap broken) (h @ [IFetch s]) = None \<Longrightarrow>
      im_messages (demo_imap broken) (h @ [IFetch s]) = map (\<lambda>i. demo_inbox (h @ [IFetch s]) ! (i - 1)) s" for h s
    by (simp add: demo_imap_def Let_def is_fetch_def split: if_splits)
  ultimately show ?thesis by (simp add: mailbox_def)
qed


section \<open>A fetch that fails\<close>

lemma FetchNew_ok:
  assumes "FetchNew sv cfg h = ((es, None), h')"
  defines "h2 \<equiv> h @ search_commands cfg" and "s \<equiv> im_found sv (h @ search_commands cfg)"
  shows "s = [] \<or> (h' = h2 @ [IFetch s, IStoreSeen s] \<and> im_answer sv h' = None \<and>
    es = (case im_messages sv (h2 @ [IFetch s]) of [] \<Rightarrow> None | ms \<Rightarrow> Some (map (parseMessage sv) ms)))"
  using assms
  by (auto simp: FetchNew_def Let_def imap_do_def markSeen_def io_wrap_def search_commands_def map_err_def
      split: option.splits sum.splits if_splits list.splits prod.splits)

text \<open>The messages a poll found are never found again once the poll has ended without an error, and the
  poll's emails are only the ones that arrived: whether the fetch failed is not looked at, so a fetch that
  breaks off loses the rest of the messages for good.\<close>

theorem found_is_found_no_more:
  assumes "mailbox sv inbox" "FetchNew sv cfg h = ((es, None), h')"
  shows "set (im_found sv (h' @ later)) \<inter> set (im_found sv (h @ search_commands cfg)) = {} \<and> (im_found sv (h @ search_commands cfg) = [] \<or>
      es = (case im_messages sv (h @ search_commands cfg @ [IFetch (im_found sv (h @ search_commands cfg))]) of
              [] \<Rightarrow> None | ms \<Rightarrow> Some (map (parseMessage sv) ms)))"
proof (intro conjI)
  let ?h2 = "h @ search_commands cfg"
  let ?s = "im_found sv ?h2"
  have ok: "?s = [] \<or> (h' = ?h2 @ [IFetch ?s, IStoreSeen ?s] \<and> im_answer sv h' = None \<and>
    es = (case im_messages sv (?h2 @ [IFetch ?s]) of [] \<Rightarrow> None | ms \<Rightarrow> Some (map (parseMessage sv) ms)))"
    using FetchNew_ok [OF assms(2)] by simp
  then show "?s = [] \<or> es = (case im_messages sv (h @ search_commands cfg @ [IFetch ?s]) of
      [] \<Rightarrow> None | ms \<Rightarrow> Some (map (parseMessage sv) ms))" by auto
  have "set ?s \<subseteq> marked sv h'"
    using ok marked_snoc [of sv "?h2 @ [IFetch ?s]" "IStoreSeen ?s"] stored_last(1) [of sv "?h2 @ [IFetch ?s]" ?s]
    by auto
  then show "set (im_found sv (h' @ later)) \<inter> set ?s = {}"
    using marked_append [of sv h' later] mailbox_found [OF assms(1), of "h' @ later"] by auto
qed

theorem found_is_found_no_more_witness:
  "fst (FetchNew (demo_imap True) demo_account []) = (None, None)
   \<and> im_found (demo_imap True) (search_commands demo_account) = [1]
   \<and> set (im_found (demo_imap True) (snd (FetchNew (demo_imap True) demo_account []) @ search_commands demo_account)) \<inter> {1} = {}"
proof (intro conjI)
  show a: "fst (FetchNew (demo_imap True) demo_account []) = (None, None)" by code_simp
  show b: "im_found (demo_imap True) (search_commands demo_account) = [1]" by code_simp
  have "FetchNew (demo_imap True) demo_account [] = ((None, None), snd (FetchNew (demo_imap True) demo_account []))"
    using a by (metis prod.collapse)
  from found_is_found_no_more [OF demo_mailbox this]
  show "set (im_found (demo_imap True) (snd (FetchNew (demo_imap True) demo_account []) @ search_commands demo_account)) \<inter> {1} = {}"
    by (simp add: b)
qed

end
