(* ===== verification/CliLaws.thy ===== *)
theory CliLaws
  imports CommandLaws GmailLaws
begin

text \<open>
  What holds of the command line as a whole: how every command ends, what each may change, and the commands
  put together with the subprocess boundary, the mailbox, the daemon and the store.
\<close>

section \<open>How a command ends\<close>

definition grown :: "'s cli \<Rightarrow> 's cli \<Rightarrow> bool" where
  "grown c c' \<longleftrightarrow> prefix (ci_out c) (ci_out c') \<and> prefix (ci_err c) (ci_err c')"

definition ended :: "'s cli \<Rightarrow> int \<times> 's cli \<Rightarrow> bool" where
  "ended c r \<longleftrightarrow> fst r \<in> {exitOK, exitFailure, exitUsage, exitNoDaemon} \<and> grown c (snd r) \<and>
     (fst r = exitOK \<or> strict_prefix (ci_err c) (ci_err (snd r)))"

lemma ended_grown: "grown c c' \<Longrightarrow> ended c' r \<Longrightarrow> ended c r"
  unfolding ended_def grown_def by (auto intro: prefix_order.trans prefix_order.le_less_trans)

lemma grown_same [simp]:
  "grown c (c\<lparr> ci_configs := a1 \<rparr>)" "grown c (c\<lparr> ci_store := a2 \<rparr>)" "grown c (c\<lparr> ci_caps := a2 \<rparr>)"
  "grown c (c\<lparr> ci_net := a3 \<rparr>)" "grown c (c\<lparr> ci_mail := a4 \<rparr>)" "grown c (out s c)" "grown c (complain s c)" "grown c c"
  by (simp_all add: grown_def out_def complain_def)

lemma strict_prefix_more: "t \<noteq> [] \<Longrightarrow> strict_prefix s (s @ t)"
  by (simp add: strict_prefix_def)

interpretation ending: whole_law ended
proof unfold_locales
  show "ended c (exitOK, c)" for c :: "'s cli" by (simp add: ended_def)
  show "ended c (n, complain t c)" if "n \<in> {exitFailure, exitUsage, exitNoDaemon}" "t \<noteq> ''''" for n t and c :: "'s cli"
    using that by (auto simp: ended_def complain_def grown_def strict_prefix_more)
  show "ended c r" if "ended (out s c) r" for s r and c :: "'s cli" by (rule ended_grown [OF _ that]) simp
  show "ended c r" if "ended (complain s c) r" for s r and c :: "'s cli" by (rule ended_grown [OF _ that]) simp
  show "ended c r" if "ended (c\<lparr> ci_net := s \<rparr>) r" for s r and c :: "'s cli" by (rule ended_grown [OF _ that]) simp
  show "ended c r" if "ended (c\<lparr> ci_caps := s \<rparr>) r" for s r and c :: "'s cli" by (rule ended_grown [OF _ that]) simp
  show "ended c r" if "ended (c\<lparr> ci_mail := s \<rparr>) r" for s r and c :: "'s cli" by (rule ended_grown [OF _ that]) simp
  show "ended c (finish t (c\<lparr> ci_configs := fs \<rparr>))" for t fs and c :: "'s cli"
    by (simp add: ended_def grown_def finish_def out_def)
  show "ended c (finish t (c\<lparr> ci_store := s \<rparr>))" for t s and c :: "'s cli"
    by (simp add: ended_def grown_def finish_def out_def)
  show "ended c (n, c'\<lparr> ci_mail := s \<rparr>)" if "ended c (n, c')" for n s and c c' :: "'s cli"
    using that by (simp add: ended_def grown_def)
qed

text \<open>C36: Every command, hidden or not, known or not, ends with one of the four exit codes; what it printed
  before is never taken back; and unless it ended well it has said something on stderr.\<close>

theorem every_command_ends:
  "fst (Cli_Run os args c) \<in> {exitOK, exitFailure, exitUsage, exitNoDaemon}
   \<and> prefix (ci_out c) (ci_out (snd (Cli_Run os args c))) \<and> prefix (ci_err c) (ci_err (snd (Cli_Run os args c)))
   \<and> (fst (Cli_Run os args c) = exitOK \<or> strict_prefix (ci_err c) (ci_err (snd (Cli_Run os args c))))"
  using ending.P_command [of c os args] unfolding ended_def grown_def by blast

section \<open>What a command may change\<close>

definition kept :: "('s cli \<Rightarrow> 'x) \<Rightarrow> 's cli \<Rightarrow> int \<times> 's cli \<Rightarrow> bool" where
  "kept F c r \<longleftrightarrow> F (snd r) = F c"

lemmas kept_simps = kept_def out_def complain_def finish_def

interpretation configs: net_law "kept ci_configs" + configs: store_law "kept ci_configs" +
    configs: caps_law "kept ci_configs" + configs: mail_law "kept ci_configs"
  by unfold_locales (simp_all add: kept_simps)

interpretation store: net_law "kept ci_store" + store: config_law "kept ci_store" +
    store: caps_law "kept ci_store" + store: mail_law "kept ci_store"
  by unfold_locales (simp_all add: kept_simps)

interpretation caps: net_law "kept ci_caps" + caps: config_law "kept ci_caps" +
    caps: store_law "kept ci_caps" + caps: mail_law "kept ci_caps"
  by unfold_locales (simp_all add: kept_simps)

interpretation mail: net_law "kept ci_mail" + mail: config_law "kept ci_mail" +
    mail: store_law "kept ci_mail" + mail: caps_law "kept ci_mail"
  by unfold_locales (simp_all add: kept_simps)

interpretation net: config_law "kept ci_net" + net: store_law "kept ci_net" +
    net: caps_law "kept ci_net" + net: mail_law "kept ci_net"
  by unfold_locales (simp_all add: kept_simps)

text \<open>A law of failures: what a command that did not end well has left alone.\<close>

definition spared :: "'s cli \<Rightarrow> int \<times> 's cli \<Rightarrow> bool" where
  "spared c r \<longleftrightarrow> fst r = exitOK \<or> (ci_configs (snd r) = ci_configs c \<and> ci_store (snd r) = ci_store c)"

interpretation sparing: whole_law spared
  by unfold_locales (auto simp: spared_def kept_simps)

text \<open>The one part of the state the arguments give a command leave to change.\<close>

datatype part = Configs | SecretStore | Capabilities_dir | Mailbox | Network

definition part_of :: "string list \<Rightarrow> part option" where
  "part_of args = (case args of
      [] \<Rightarrow> None
    | a # rest \<Rightarrow>
        if a \<in> {''mcp'', ''tap'', ''target'', ''webhook''} then Some Configs
        else if a = ''secret'' then Some (if rest \<noteq> [] \<and> hd rest = ''seal'' then SecretStore else Configs)
        else if a = ''capabilities'' then Some Capabilities_dir
        else if a = ''__email_poll'' then Some Mailbox
        else if a \<in> {''run'', ''stop'', ''submit'', ''update'', ''enable'', ''disable'', ''trigger'', ''runs'', ''cancel'',
            ''resume'', ''rerun''} then Some Network
        else None)"

lemma secret_seal: "cmdSecret os (''seal'' # rest) = cmdSecretSeal os rest"
  by (simp add: cmdSecret_def sub_command_def)

lemma secret_edit:
  "rest = [] \<or> hd rest \<noteq> ''seal'' \<Longrightarrow> cmdSecret os rest = sub_command ''secret'' ''add|list|remove|seal''
     [([''add''], cmdSecretAdd os), ([''list'', ''ls''], cmdSecretList os), ([''remove'', ''rm''], cmdSecretRemove os)] rest"
  by (cases rest) (auto simp: cmdSecret_def sub_command_def)

lemma edits_secret:
  "rest = [] \<or> hd rest \<noteq> ''seal'' \<Longrightarrow> kept ci_store c (cmdSecret os rest c) \<and> kept ci_caps c (cmdSecret os rest c)
     \<and> kept ci_mail c (cmdSecret os rest c) \<and> kept ci_net c (cmdSecret os rest c)"
  unfolding secret_edit by (intro conjI; rule ends; auto intro!: ends)

lemma seals_secret:
  "rest \<noteq> [] \<Longrightarrow> hd rest = ''seal'' \<Longrightarrow> kept ci_configs c (cmdSecret os rest c) \<and> kept ci_caps c (cmdSecret os rest c)
     \<and> kept ci_mail c (cmdSecret os rest c) \<and> kept ci_net c (cmdSecret os rest c)"
  by (cases rest) (auto simp: secret_seal intro!: ends)

lemma secret_others:
  "kept ci_caps c (cmdSecret os rest c)" "kept ci_mail c (cmdSecret os rest c)" "kept ci_net c (cmdSecret os rest c)"
  using edits_secret [of rest] seals_secret [of rest] by blast+

lemma in_commands: "map_of (commands os) a = Some cmd \<Longrightarrow> (a, cmd) \<in> set (commands os)"
  by (rule map_of_SomeD)

lemma unless: "(\<not> A \<Longrightarrow> B) \<Longrightarrow> A \<or> B"
  by blast

lemma part_kept:
  "part_of args = Some Configs \<or> kept ci_configs c (Cli_Run os args c)"
  "part_of args = Some SecretStore \<or> kept ci_store c (Cli_Run os args c)"
  "part_of args = Some Capabilities_dir \<or> kept ci_caps c (Cli_Run os args c)"
  "part_of args = Some Mailbox \<or> kept ci_mail c (Cli_Run os args c)"
  "part_of args = Some Network \<or> kept ci_net c (Cli_Run os args c)"
proof -
  show "part_of args = Some Configs \<or> kept ci_configs c (Cli_Run os args c)"
  proof (rule unless, rule configs.P_Cli_Run)
    fix a rest cmd
    assume "part_of args \<noteq> Some Configs" "args = a # rest" "map_of (commands os) a = Some cmd"
    from this(1,2) in_commands [OF this(3)] show "kept ci_configs c (cmd rest c)"
      using seals_secret by (auto simp: commands_def part_of_def intro!: ends split: if_splits)
  qed
  show "part_of args = Some SecretStore \<or> kept ci_store c (Cli_Run os args c)"
  proof (rule unless, rule store.P_Cli_Run)
    fix a rest cmd
    assume "part_of args \<noteq> Some SecretStore" "args = a # rest" "map_of (commands os) a = Some cmd"
    from this(1,2) in_commands [OF this(3)] show "kept ci_store c (cmd rest c)"
      using edits_secret by (auto simp: commands_def part_of_def intro!: ends split: if_splits)
  qed
  show "part_of args = Some Capabilities_dir \<or> kept ci_caps c (Cli_Run os args c)"
  proof (rule unless, rule caps.P_Cli_Run)
    fix a rest cmd
    assume "part_of args \<noteq> Some Capabilities_dir" "args = a # rest" "map_of (commands os) a = Some cmd"
    from this(1,2) in_commands [OF this(3)] show "kept ci_caps c (cmd rest c)"
      by (auto simp: commands_def part_of_def intro!: ends secret_others split: if_splits)
  qed
  show "part_of args = Some Mailbox \<or> kept ci_mail c (Cli_Run os args c)"
  proof (rule unless, rule mail.P_Cli_Run)
    fix a rest cmd
    assume "part_of args \<noteq> Some Mailbox" "args = a # rest" "map_of (commands os) a = Some cmd"
    from this(1,2) in_commands [OF this(3)] show "kept ci_mail c (cmd rest c)"
      by (auto simp: commands_def part_of_def intro!: ends secret_others split: if_splits)
  qed
  show "part_of args = Some Network \<or> kept ci_net c (Cli_Run os args c)"
  proof (rule unless, rule net.P_Cli_Run)
    fix a rest cmd
    assume "part_of args \<noteq> Some Network" "args = a # rest" "map_of (commands os) a = Some cmd"
    from this(1,2) in_commands [OF this(3)] show "kept ci_net c (cmd rest c)"
      by (auto simp: commands_def part_of_def intro!: ends secret_others split: if_splits)
  qed
qed


end
