(* ===== verification/TriggerLaws.thy ===== *)
theory TriggerLaws
  imports Trigger RunnerLaws
begin

text \<open>
  What the trigger receiver guarantees: encodings are injective, the replay window is the
  intended one, and a webhook starts runs only when its signature verifies, as far as the
  receiver's key can be resolved.
\<close>

section \<open>Encodings\<close>

lemma b64_char_inj: "b64_char m = b64_char n \<longleftrightarrow> m mod 64 = n mod 64"
proof -
  let ?t = "''ABCDEFGHIJKLMNOPQRSTUVWXYZabcdefghijklmnopqrstuvwxyz0123456789+/''"
  have "distinct ?t" "length ?t = 64" by simp_all
  then show ?thesis
    unfolding b64_char_def by (metis mod_less_divisor nth_eq_iff_index_eq zero_less_numeral)
qed

lemma b64_char_pad [simp]: "b64_char n \<noteq> CHR ''=''" "CHR ''='' \<noteq> b64_char n"
proof -
  let ?t = "''ABCDEFGHIJKLMNOPQRSTUVWXYZabcdefghijklmnopqrstuvwxyz0123456789+/''"
  have "n mod 64 < length ?t" by simp
  then have "b64_char n \<in> set ?t" unfolding b64_char_def by (rule nth_mem)
  then show "b64_char n \<noteq> CHR ''=''" "CHR ''='' \<noteq> b64_char n" by auto
qed

text \<open>Three bytes are determined by the four sextets of their number.\<close>

lemma digit_eq:
  fixes x y :: nat
  assumes "x * k + c = y * k + c'" "c < k" "c' < k"
  shows "x = y \<and> c = c'"
proof -
  have "(x * k + c) div k = (y * k + c') div k" using assms(1) by simp
  then have "x = y" using assms(2,3) by simp
  then show ?thesis using assms(1) by simp
qed

lemma sextets:
  fixes m n :: nat
  assumes "m < 16777216" "n < 16777216" "(m div 262144) mod 64 = (n div 262144) mod 64"
    "(m div 4096) mod 64 = (n div 4096) mod 64" "(m div 64) mod 64 = (n div 64) mod 64" "m mod 64 = n mod 64"
  shows "m = n"
proof -
  have up: "x = y" if "x div 64 = y div 64" "x mod 64 = y mod 64" for x y :: nat
    using that by (metis div_mult_mod_eq)
  have split: "x div 4096 div 64 = x div 262144" "x div 64 div 64 = x div 4096" for x :: nat
    by (simp_all flip: div_mult2_eq)
  have "m div 262144 < 64" "n div 262144 < 64" using assms(1,2) by simp_all
  then have "m div 262144 = n div 262144" using assms(3) by simp
  then have "m div 4096 = n div 4096" using up [of "m div 4096" "n div 4096"] assms(4) by (simp add: split)
  then have "m div 64 = n div 64" using up [of "m div 64" "n div 64"] assms(5) by (simp add: split)
  then show ?thesis using up [of m n] assms(6) by simp
qed

lemma bytes3:
  fixes a b c a' b' c' :: nat
  assumes "a * 65536 + b * 256 + c = a' * 65536 + b' * 256 + c'" "b < 256" "c < 256" "b' < 256" "c' < 256"
  shows "a = a' \<and> b = b' \<and> c = c'"
proof -
  have "(a * 256 + b) * 256 + c = (a' * 256 + b') * 256 + c'" using assms(1) by simp
  from digit_eq [OF this assms(3,5)] digit_eq [of a 256 b a' b'] assms(2,4) show ?thesis by blast
qed

lemma group_inj:
  fixes a b c a' b' c' :: nat
  assumes "a < 256" "b < 256" "c < 256" "a' < 256" "b' < 256" "c' < 256"
    and "(a * 65536 + b * 256 + c) div 262144 mod 64 = (a' * 65536 + b' * 256 + c') div 262144 mod 64"
    "(a * 65536 + b * 256 + c) div 4096 mod 64 = (a' * 65536 + b' * 256 + c') div 4096 mod 64"
    "(a * 65536 + b * 256 + c) div 64 mod 64 = (a' * 65536 + b' * 256 + c') div 64 mod 64"
    "(a * 65536 + b * 256 + c) mod 64 = (a' * 65536 + b' * 256 + c') mod 64"
  shows "a = a' \<and> b = b' \<and> c = c'"
  using bytes3 [OF sextets [OF _ _ assms(7-10)]] assms(1-6) by simp

text \<open>The group of three bytes, padded or not, behind four characters.\<close>

definition b64_number :: "char \<Rightarrow> char \<Rightarrow> char \<Rightarrow> nat" where
  "b64_number a b c = of_char a * 65536 + of_char b * 256 + of_char c"

definition b64_group :: "nat \<Rightarrow> char list" where
  "b64_group n = [b64_char (n div 262144), b64_char (n div 4096), b64_char (n div 64), b64_char n]"

lemma b64_group_inj: "b64_group (b64_number a b c) = b64_group (b64_number a' b' c') \<Longrightarrow> a = a' \<and> b = b' \<and> c = c'"
  using group_inj [of "of_char a" "of_char b" "of_char c" "of_char a'" "of_char b'" "of_char c'"]
  by (simp add: b64_group_def b64_number_def b64_char_inj of_char_eq_iff)

lemma low_sextet: "64 dvd n \<Longrightarrow> b64_char n = b64_char 0"
  by (simp add: b64_char_inj dvd_eq_mod_eq_0)

lemma b64_group_one: "b64_group (b64_number a (CHR 0x00) (CHR 0x00)) = take 2 (b64_encode [a]) @ [b64_char 0, b64_char 0]"
proof -
  have "b64_char ((of_char a * 65536) div 64) = b64_char 0" "b64_char (of_char a * 65536) = b64_char 0"
    by (rule low_sextet; simp)+
  then show ?thesis by (simp add: b64_group_def b64_number_def Let_def)
qed

lemma b64_group_two: "b64_group (b64_number a b (CHR 0x00)) = take 3 (b64_encode [a, b]) @ [b64_char 0]"
proof -
  have "of_char a * 65536 + of_char b * 256 = 64 * (of_char a * 1024 + of_char b * 4 :: nat)" by simp
  then have "b64_char (of_char a * 65536 + of_char b * 256) = b64_char 0"
    by (metis dvd_triv_left low_sextet)
  then show ?thesis by (simp add: b64_group_def b64_number_def Let_def)
qed

lemma b64_three: "b64_encode (a # b # c # r) = b64_group (b64_number a b c) @ b64_encode r"
  by (simp add: b64_group_def b64_number_def Let_def)

lemma b64_encode_inj: "b64_encode xs = b64_encode ys \<Longrightarrow> xs = ys"
proof (induction xs arbitrary: ys rule: b64_encode.induct)
  case 1
  then show ?case by (cases ys rule: b64_encode.cases) (simp_all add: Let_def)
next
  case (2 a)
  then obtain b where ys: "ys = [b]" by (cases ys rule: b64_encode.cases) (simp_all add: Let_def)
  have "b64_group (b64_number a (CHR 0x00) (CHR 0x00)) = b64_group (b64_number b (CHR 0x00) (CHR 0x00))"
    unfolding b64_group_one using 2 ys by simp
  then show ?case using b64_group_inj ys by blast
next
  case (3 a b)
  then obtain a' b' where ys: "ys = [a', b']" by (cases ys rule: b64_encode.cases) (simp_all add: Let_def)
  have "b64_group (b64_number a b (CHR 0x00)) = b64_group (b64_number a' b' (CHR 0x00))"
    unfolding b64_group_two using 3 ys by simp
  then show ?case using b64_group_inj ys by blast
next
  case (4 a b c r)
  then obtain a' b' c' r' where ys: "ys = a' # b' # c' # r'"
    by (cases ys rule: b64_encode.cases) (simp_all add: Let_def)
  have "b64_group (b64_number a b c) = b64_group (b64_number a' b' c')" "b64_encode r = b64_encode r'"
    using 4(2) unfolding ys b64_three by (simp_all add: b64_group_def)
  then show ?case using b64_group_inj 4(1) ys by blast
qed

lemma digit_inj: "m < 16 \<Longrightarrow> n < 16 \<Longrightarrow> digit m = digit n \<Longrightarrow> m = n"
proof -
  have "distinct (map digit [0..<16])" by code_simp
  then show "m < 16 \<Longrightarrow> n < 16 \<Longrightarrow> digit m = digit n \<Longrightarrow> m = n"
    by (auto simp: distinct_map inj_on_def)
qed

lemma hex2_byte: "hex2 (of_char c) = [digit (of_char c div 16), digit (of_char c mod 16)]"
proof -
  have c: "(of_char c :: int) = int (of_char c)" by (simp only: of_nat_of_char)
  have "nat (int n div 16) = n div 16" "nat (int n mod 16) = n mod 16" for n
    by linarith (metis nat_int of_nat_mod of_nat_numeral)
  then show ?thesis by (simp only: hex2_def c)
qed

lemma hex_encode_inj: "hex_encode xs = hex_encode ys \<Longrightarrow> xs = ys"
proof (induction xs arbitrary: ys)
  case Nil
  then show ?case by (cases ys) (simp_all add: hex_encode_def hex2_def)
next
  case (Cons x xs)
  then obtain y zs where ys: "ys = y # zs" by (cases ys) (simp_all add: hex_encode_def hex2_def)
  have eq: "digit (of_char x div 16) = digit (of_char y div 16)" "digit (of_char x mod 16) = digit (of_char y mod 16)"
    and rest: "hex_encode xs = hex_encode zs"
    using Cons.prems by (simp_all add: ys hex_encode_def hex2_byte)
  have "(of_char x :: nat) div 16 = of_char y div 16" "(of_char x :: nat) mod 16 = of_char y mod 16"
    using digit_inj [OF _ _ eq(1)] digit_inj [OF _ _ eq(2)] nat_of_char_less_256 [of x] nat_of_char_less_256 [of y]
    by (simp_all add: less_mult_imp_div_less)
  then have "(of_char x :: nat) = of_char y" by (metis div_mult_mod_eq)
  then show ?case using Cons.IH [OF rest] ys by (simp add: of_char_eq_iff)
qed

section \<open>The replay window\<close>

text \<open>A clock before the year 2116 and a timestamp of an int64: the wrapped difference is small
  exactly when the true one is.\<close>

definition sane_clock :: "int \<Rightarrow> bool" where
  "sane_clock now \<longleftrightarrow> 0 \<le> now \<and> now < 2 ^ 62"

lemma parse_int64_range: "parse_int64 s = Some n \<Longrightarrow> - (2 ^ 63) \<le> n \<and> n < 2 ^ 63"
  unfolding parse_int64_def Let_def by (auto split: prod.splits if_splits)

lemma sub64_window:
  assumes "sane_clock now" "- (2 ^ 63) \<le> ts" "ts < 2 ^ 63"
  shows "within_window (unix_of now) ts \<longleftrightarrow> \<bar>unix_of now - ts\<bar> \<le> 300"
proof -
  let ?d = "unix_of now - ts"
  have now: "0 \<le> unix_of now" "unix_of now < 2 ^ 62"
    using assms(1) unfolding unix_of_def sane_clock_def by linarith+
  have s: "sub64 (unix_of now) ts = signed_take_bit 63 ?d"
    unfolding sub64_def by (subst signed_of_int) simp
  show ?thesis
  proof (cases "?d < 2 ^ 63")
    case True
    then have "signed_take_bit 63 ?d = ?d"
      using now assms(2,3) by (intro signed_take_bit_int_eq_self) simp_all
    then show ?thesis using s by (auto simp: within_window_def)
  next
    case False
    have "signed_take_bit 63 ?d = ?d - 2 ^ 64"
    proof -
      have "take_bit (Suc 63) ?d = take_bit (Suc 63) (?d - 2 ^ 64)"
        by (simp add: take_bit_eq_mod)
      then have "signed_take_bit 63 ?d = signed_take_bit 63 (?d - 2 ^ 64)"
        by (simp only: signed_take_bit_eq_iff_take_bit_eq)
      also have "\<dots> = ?d - 2 ^ 64"
        using False now assms(2) by (intro signed_take_bit_int_eq_self) simp_all
      finally show ?thesis .
    qed
    then show ?thesis using s False now assms(2) by (simp add: within_window_def)
  qed
qed

section \<open>Webhooks\<close>

text \<open>The key a receiver verifies with, when there is one that can be resolved.\<close>

definition receiver_key :: "trigger_receiver \<Rightarrow> webhook_receiver \<Rightarrow> string option" where
  "receiver_key rc recv = (case tc_resolver rc of
      None \<Rightarrow> None
    | Some r \<Rightarrow> if wr_Secret recv = '''' then None
        else case Resolve r ''webhook'' [wr_Secret recv] of
          (Inr vals, []) \<Rightarrow> (case select (wr_Secret recv) vals of
             None \<Rightarrow> None | Some k \<Rightarrow> if k = '''' then None else Some k)
        | _ \<Rightarrow> None)"

text \<open>What an authentic request is, under each scheme.\<close>

definition fresh_timestamp :: "int \<Rightarrow> string \<Rightarrow> bool" where
  "fresh_timestamp now raw \<longleftrightarrow> (case parse_int64 raw of None \<Rightarrow> False | Some ts \<Rightarrow> \<bar>unix_of now - ts\<bar> \<le> 300)"

definition standard_authentic :: "(string \<Rightarrow> string \<Rightarrow> string) \<Rightarrow> string \<Rightarrow> (string \<Rightarrow> string) \<Rightarrow> string \<Rightarrow> int \<Rightarrow> bool" where
  "standard_authentic mac key h body now \<longleftrightarrow>
     h ''webhook-id'' \<noteq> '''' \<and> fresh_timestamp now (h ''webhook-timestamp'')
     \<and> ''v1,'' @ b64_encode (mac key (h ''webhook-id'' @ ''.'' @ h ''webhook-timestamp'' @ ''.'' @ body))
         \<in> set (split_at (CHR '' '') (h ''webhook-signature''))"

definition hmac_message :: "webhook_receiver \<Rightarrow> (string \<Rightarrow> string) \<Rightarrow> string \<Rightarrow> string" where
  "hmac_message r h body = (if wr_TimestampHeader r = '''' then body
     else (if wr_Prefix r = '''' then '''' else wr_Prefix r @ '':'') @ h (wr_TimestampHeader r) @ '':'' @ body)"

definition hmac_authentic :: "(string \<Rightarrow> string \<Rightarrow> string) \<Rightarrow> string \<Rightarrow> webhook_receiver \<Rightarrow> (string \<Rightarrow> string) \<Rightarrow> string \<Rightarrow> int \<Rightarrow> bool" where
  "hmac_authentic mac key r h body now \<longleftrightarrow>
     (let raw = h (if wr_Header r = '''' then ''x-servitor-signature'' else wr_Header r);
          digest = mac key (hmac_message r h body) in
      raw \<noteq> '''' \<and> (wr_TimestampHeader r = '''' \<or> fresh_timestamp now (h (wr_TimestampHeader r)))
      \<and> (wr_Encoding r = ''hex'' \<and> (if wr_Prefix r = '''' then raw else trim_prefix raw (wr_Prefix r @ ''='')) = hex_encode digest
       \<or> wr_Encoding r \<in> {'''', ''base64''}
          \<and> (if wr_Prefix r = '''' then raw else trim_prefix raw (wr_Prefix r @ ''='')) = b64_encode digest))"

lemma parse_int64_empty [simp]: "parse_int64 '''' = None"
  by (simp add: parse_int64_def)

lemma fresh_timestamp_code:
  assumes "sane_clock now"
  shows "fresh_timestamp now raw \<longleftrightarrow> (case parse_int64 raw of None \<Rightarrow> False | Some ts \<Rightarrow> within_window (unix_of now) ts)"
  using sub64_window [OF assms] parse_int64_range by (auto simp: fresh_timestamp_def split: option.splits)

lemma cut_v1: "(case cut_at (CHR '','') part of None \<Rightarrow> False | Some (v, sig) \<Rightarrow> v = ''v1'' \<and> sig = e) \<longleftrightarrow> part = ''v1,'' @ e"
proof
  assume "case cut_at (CHR '','') part of None \<Rightarrow> False | Some (v, sig) \<Rightarrow> v = ''v1'' \<and> sig = e"
  then have "cut_at (CHR '','') part = Some (''v1'', e)" by (auto split: option.splits)
  then show "part = ''v1,'' @ e" using cut_at_Some by fastforce
qed simp

lemma verifyStandard_iff:
  assumes "sane_clock now"
  shows "verifyStandardWebhook mac key h body now \<longleftrightarrow> standard_authentic mac key h body now"
  using fresh_timestamp_code [OF assms, of "h ''webhook-timestamp''"]
  by (auto simp: verifyStandardWebhook_def standard_authentic_def Let_def cut_v1 list_ex_iff split: option.splits)

lemma verifyHMAC_iff:
  assumes "sane_clock now"
  shows "verifyHMAC mac key h body r now \<longleftrightarrow> hmac_authentic mac key r h body now"
proof (cases "wr_TimestampHeader r = ''''")
  case True
  then show ?thesis by (auto simp: verifyHMAC_def hmac_authentic_def hmac_message_def Let_def)
next
  case False
  then show ?thesis
    using fresh_timestamp_code [OF assms, of "h (wr_TimestampHeader r)"]
    by (auto simp: verifyHMAC_def hmac_authentic_def hmac_message_def Let_def split: option.splits)
qed

definition accepted :: "trigger_receiver \<Rightarrow> webhook_receiver \<Rightarrow> (string \<Rightarrow> string) \<Rightarrow> string \<Rightarrow> int \<Rightarrow> bool" where
  "accepted rc recv h body now \<longleftrightarrow> (case receiver_key rc recv of
      None \<Rightarrow> True
    | Some key \<Rightarrow> if wr_Scheme recv = SchemeStandard then standard_authentic (tc_mac rc) key h body now
        else if wr_Scheme recv = SchemeHMAC then hmac_authentic (tc_mac rc) key recv h body now else True)"

lemma verify_accepted: "sane_clock now \<Longrightarrow> verify rc recv h body now \<longleftrightarrow> accepted rc recv h body now"
  by (auto simp: verify_def accepted_def receiver_key_def Let_def verifyStandard_iff verifyHMAC_iff
      split: option.splits prod.splits sum.splits list.splits)

definition event_logged :: "string \<Rightarrow> string \<Rightarrow> jworld \<Rightarrow> jworld" where
  "event_logged path body s = s\<lparr> w_db := (w_db s)\<lparr> db_events := db_events (w_db s) @ [(db_event_seq (w_db s) + 1, path, body)],
     db_event_seq := db_event_seq (w_db s) + 1 \<rparr> \<rparr>"

text \<open>C25: An inbound POST is logged first and then runs the workflows it matches exactly when it is
  accepted: when the receiver's key resolves, only a request signed with it under the declared
  scheme and inside the replay window is, and any other is answered 401 with nothing but the
  event written; when the key does not resolve (no secret declared, a missing value, or a
  source that cannot be reached) every request is accepted, signed or not.\<close>

theorem webhook_runs_iff_accepted:
  assumes "calm s" "rq_method req = ''POST''" "rq_body req = Inr body"
    and "select (rq_path req) (tc_receivers rc) = Some recv"
    and "sane_clock (tc_now rc (event_logged (rq_path req) body s))"
  shows "ServeHTTP rc req s = (let s1 = event_logged (rq_path req) body s in
     if accepted rc recv (rq_header req) body (tc_now rc s1)
     then (case each (\<lambda>m. enqueueRun rc m (rq_path req) body)
             (webhook_matches rc recv (rq_path req) (db_workflows (w_db s1))) s1 of
         (Inl _, s2) \<Rightarrow> (Inr (500, ''enqueue run'' @ [CHR 0x0A]), s2)
       | (Inr _, s2) \<Rightarrow> (Inr (200, ''ok'' @ [CHR 0x0A]), s2))
     else (Inr (401, ''invalid signature'' @ [CHR 0x0A]), s1))"
proof -
  let ?s1 = "event_logged (rq_path req) body s"
  have ev: "AppendEvent (rq_path req) body s = (Inr (db_event_seq (w_db s) + 1), ?s1)"
    using assms(1) by (simp add: AppendEvent_def wrapping_def event_logged_def)
  have calm: "calm ?s1" using assms(1) by (simp add: event_logged_def)
  show ?thesis
    using assms(2,4) verify_accepted [OF assms(5), of rc recv "rq_header req" body] calm
    by (simp add: ServeHTTP_def assms(3) try_or_def attempt_def bind_def ev ListWorkflows_def reply_def ret_apply Let_def
        split: prod.split sum.split)
qed

definition hook_receiver :: "string \<Rightarrow> webhook_receiver" where
  "hook_receiver secret = \<lparr> wr_Scheme = SchemeHMAC, wr_Secret = secret, wr_Header = ''x-sig'', wr_Encoding = ''hex'',
     wr_TimestampHeader = '''', wr_Prefix = '''' \<rparr>"

text \<open>A receiver whose key is in the environment, and one whose source has no provider.\<close>

definition test_receiver :: "string \<Rightarrow> trigger_receiver" where
  "test_receiver source = \<lparr> tc_queue = ''nodes'',
     tc_resolver = Some \<lparr> rs_providers = [(''env'', \<lambda>_ _. Inr ''key'')], rs_sources = [(''HOOK'', source)] \<rparr>,
     tc_receivers = [(''/hook'', hook_receiver ''HOOK'')], tc_now = (\<lambda>_. 0), tc_types = mechanisms,
     tc_self = ''servitor'', tc_unmarshal = (\<lambda>_. Inr []), tc_mac = (\<lambda>k m. k @ m), tc_email = (\<lambda>_. Inl (errorf '''')) \<rparr>"

definition post :: "string \<Rightarrow> string \<Rightarrow> request" where
  "post sig body = \<lparr> rq_method = ''POST'', rq_path = ''/hook'', rq_body = Inr body,
     rq_header = (\<lambda>h. if h = ''x-sig'' then sig else '''') \<rparr>"

theorem webhook_runs_iff_accepted_witness:
  "fst (ServeHTTP (test_receiver ''env'') (post ''00'' ''a'') (calm_world empty_db)) = Inr (401, ''invalid signature'' @ [CHR 0x0A])
   \<and> fst (ServeHTTP (test_receiver ''env'') (post ''6b657961'' ''a'') (calm_world empty_db)) = Inr (200, ''ok'' @ [CHR 0x0A])
   \<and> fst (ServeHTTP (test_receiver ''vault'') (post ''00'' ''a'') (calm_world empty_db)) = Inr (200, ''ok'' @ [CHR 0x0A])"
proof -
  have sel: "select ''/hook'' (tc_receivers (test_receiver src)) = Some (hook_receiver ''HOOK'')" for src
    by (simp add: test_receiver_def select_def)
  have clock: "sane_clock (tc_now (test_receiver src) w)" for src w
    by (simp add: test_receiver_def sane_clock_def)
  have none: "webhook_matches rc recv p (db_workflows (w_db (event_logged p b (calm_world empty_db)))) = []" for rc recv p b
    by (simp add: webhook_matches_def event_logged_def calm_world_def empty_db_def)
  have acc: "\<not> accepted (test_receiver ''env'') (hook_receiver ''HOOK'') (rq_header (post ''00'' ''a'')) ''a'' 0"
    "accepted (test_receiver ''env'') (hook_receiver ''HOOK'') (rq_header (post ''6b657961'' ''a'')) ''a'' 0"
    "accepted (test_receiver ''vault'') (hook_receiver ''HOOK'') (rq_header (post ''00'' ''a'')) ''a'' 0"
    by (simp_all add: accepted_def receiver_key_def test_receiver_def hook_receiver_def hmac_authentic_def hmac_message_def
        post_def Resolve_def select_def upsert_def hex_encode_def hex2_def digit_def)
  have serve: "ServeHTTP (test_receiver src) (post sig b) (calm_world empty_db) =
      (if accepted (test_receiver src) (hook_receiver ''HOOK'') (rq_header (post sig b)) b 0
       then (Inr (200, ''ok'' @ [CHR 0x0A]), event_logged ''/hook'' b (calm_world empty_db))
       else (Inr (401, ''invalid signature'' @ [CHR 0x0A]), event_logged ''/hook'' b (calm_world empty_db)))" for src sig b
    using webhook_runs_iff_accepted [of "calm_world empty_db" "post sig b" b "test_receiver src" "hook_receiver ''HOOK''"]
      sel [of src] clock [of src] none
    by (simp add: post_def Let_def ret_apply) (simp add: test_receiver_def)
  show ?thesis using acc by (simp add: serve)
qed

text \<open>The digest text of the signature header.\<close>

definition signature_of :: "webhook_receiver \<Rightarrow> (string \<Rightarrow> string) \<Rightarrow> string" where
  "signature_of r h = (let raw = h (if wr_Header r = '''' then ''x-servitor-signature'' else wr_Header r) in
     if wr_Prefix r \<noteq> '''' then trim_prefix raw (wr_Prefix r @ ''='') else raw)"

lemma verifyHMAC_raw:
  assumes "wr_TimestampHeader r = ''''" "verifyHMAC mac key h body r now"
  shows "signature_of r h = (if wr_Encoding r = ''hex'' then hex_encode (mac key body) else b64_encode (mac key body))"
proof (cases "wr_Encoding r = ''''")
  case True
  then show ?thesis
    using assms unfolding verifyHMAC_def signature_of_def Let_def by (simp split: if_splits)
next
  case False
  then show ?thesis
    using assms unfolding verifyHMAC_def signature_of_def Let_def by (simp split: if_splits)
qed

text \<open>A signature cannot be moved to another body without a collision of the MAC: when a
  receiver that signs the raw body accepts two bodies under the same headers, the MACs of the
  two bodies under its key are equal, whatever the encoding and the prefix.\<close>

theorem same_signature_same_mac:
  assumes "verifyHMAC mac key h body r now" "verifyHMAC mac key h body' r now'" "wr_TimestampHeader r = ''''"
  shows "mac key body = mac key body'"
  using verifyHMAC_raw [OF assms(3,1)] verifyHMAC_raw [OF assms(3,2)] hex_encode_inj b64_encode_inj
  by (metis (full_types))

theorem same_signature_same_mac_witness:
  "verifyHMAC (\<lambda>k m. k @ m) ''key'' (rq_header (post ''6b657961'' ''a'')) ''a'' (hook_receiver '''') 0
   \<and> \<not> verifyHMAC (\<lambda>k m. k @ m) ''key'' (rq_header (post ''6b657961'' ''a'')) ''b'' (hook_receiver '''') 0"
proof -
  have ok: "verifyHMAC (\<lambda>k m. k @ m) ''key'' (rq_header (post ''6b657961'' ''a'')) ''a'' (hook_receiver '''') 0"
    by (simp add: verifyHMAC_def hook_receiver_def post_def hex_encode_def hex2_def digit_def)
  moreover have "wr_TimestampHeader (hook_receiver '''') = ''''" by (simp add: hook_receiver_def)
  ultimately show ?thesis using same_signature_same_mac [OF ok] by fastforce
qed

end
