(* ===== verification/DaemonLaws.thy ===== *)
theory DaemonLaws
  imports Daemon TriggerLaws
begin

text \<open>
  What the control plane guarantees: a rejected registration changes nothing, an update keeps a
  workflow's enabled flag but arms its tasks, and the daemon binds loopback addresses only.
\<close>

section \<open>Loopback\<close>

lemma index_of_Some: "index_of c s = Some i \<Longrightarrow> i < length s \<and> s ! i = c \<and> c \<notin> set (take i s)"
proof (induction s arbitrary: i)
  case (Cons x xs)
  then show ?case by (cases i) (auto split: if_splits)
qed simp

lemma index_of_append: "c \<notin> set a \<Longrightarrow> index_of c (a @ c # b) = Some (length a)"
  by (induction a) auto

lemma last_index_of_append: "c \<notin> set b \<Longrightarrow> last_index_of c (a @ c # b) = Some (length a)"
  using index_of_append [of c "rev b" "rev a"] by (simp add: last_index_of_def)

text \<open>A port, and a host that is not an IPv6 literal.\<close>

definition no_brackets :: "string \<Rightarrow> bool" where
  "no_brackets s \<longleftrightarrow> CHR ''['' \<notin> set s \<and> CHR '']'' \<notin> set s"

lemma SplitHostPort_plain:
  assumes "no_brackets host" "CHR '':'' \<notin> set host" "no_brackets port" "CHR '':'' \<notin> set port"
  shows "SplitHostPort (host @ '':'' @ port) = Inr (host, port)"
proof -
  have "take 1 (host @ '':'' @ port) \<noteq> ''[''"
    using assms(1) by (cases host) (auto simp: no_brackets_def)
  then show ?thesis
    using assms last_index_of_append [of "CHR '':''" port host]
    by (simp add: SplitHostPort_def no_brackets_def)
qed

lemma SplitHostPort_bracketed:
  assumes "no_brackets host" "no_brackets port" "CHR '':'' \<notin> set port"
  shows "SplitHostPort (''['' @ host @ '']:'' @ port) = Inr (host, port)"
proof -
  have "last_index_of (CHR '':'') ((''['' @ host @ '']'') @ CHR '':'' # port) = Some (length (''['' @ host @ '']''))"
    by (rule last_index_of_append [OF assms(3)])
  moreover have "index_of (CHR '']'') ((''['' @ host) @ CHR '']'' # ('':'' @ port)) = Some (length (''['' @ host))"
    by (rule index_of_append) (use assms(1) in \<open>simp add: no_brackets_def\<close>)
  ultimately show ?thesis
    using assms by (simp add: SplitHostPort_def no_brackets_def)
qed

text \<open>C29: The control plane binds loopback only: an address \<^verbatim>\<open>host:port\<close>, or \<^verbatim>\<open>[host]:port\<close> for an
  IPv6 literal, passes the check exactly when the host is localhost or parses to an address of
  127.0.0.0/8 or ::1; a bare \<^verbatim>\<open>:port\<close>, which would bind every interface, never passes.\<close>

theorem checkLoopback_iff:
  assumes "no_brackets host" "no_brackets port" "CHR '':'' \<notin> set port" "parse_ip '''' = None"
  shows "(CHR '':'' \<notin> set host \<longrightarrow> (checkLoopback parse_ip (host @ '':'' @ port) = Inr ()
        \<longleftrightarrow> host = ''localhost'' \<or> (\<exists>ip. parse_ip host = Some ip \<and> IsLoopback ip)))
    \<and> (checkLoopback parse_ip (''['' @ host @ '']:'' @ port) = Inr ()
        \<longleftrightarrow> host = ''localhost'' \<or> (\<exists>ip. parse_ip host = Some ip \<and> IsLoopback ip))
    \<and> checkLoopback parse_ip ('':'' @ port) \<noteq> Inr ()"
  using SplitHostPort_plain [OF assms(1) _ assms(2,3)] SplitHostPort_bracketed [OF assms(1-3)]
    SplitHostPort_plain [of "''''" port] assms(2-4)
  by (auto simp: checkLoopback_def no_brackets_def split: option.split)

theorem checkLoopback_iff_witness:
  "checkLoopback (\<lambda>h. if h = ''127.0.0.1'' then Some (replicate 10 0 @ [255, 255, 127, 0, 0, 1])
       else if h = ''10.0.0.1'' then Some (replicate 10 0 @ [255, 255, 10, 0, 0, 1]) else None) (''127.0.0.1'' @ '':'' @ ''7365'') = Inr ()
   \<and> checkLoopback (\<lambda>h. if h = ''127.0.0.1'' then Some (replicate 10 0 @ [255, 255, 127, 0, 0, 1])
       else if h = ''10.0.0.1'' then Some (replicate 10 0 @ [255, 255, 10, 0, 0, 1]) else None) (''10.0.0.1'' @ '':'' @ ''7365'') \<noteq> Inr ()"
proof -
  let ?p = "\<lambda>h. if h = ''127.0.0.1'' then Some (replicate 10 0 @ [255, 255, 127, 0, 0, 1])
       else if h = ''10.0.0.1'' then Some (replicate 10 0 @ [255, 255, 10, 0, 0, 1]) else None :: int list option"
  have "no_brackets ''127.0.0.1''" "no_brackets ''10.0.0.1''" "no_brackets ''7365''" "CHR '':'' \<notin> set ''7365''"
    "CHR '':'' \<notin> set ''127.0.0.1''" "CHR '':'' \<notin> set ''10.0.0.1''" "?p '''' = None"
    by (simp_all add: no_brackets_def)
  moreover have "IsLoopback (replicate 10 0 @ [255, 255, 127, 0, 0, 1])"
    "\<not> IsLoopback (replicate 10 0 @ [255, 255, 10, 0, 0, 1])" by code_simp+
  ultimately show ?thesis
    using checkLoopback_iff [of "''127.0.0.1''" "''7365''" ?p] checkLoopback_iff [of "''10.0.0.1''" "''7365''" ?p]
    by simp
qed

section \<open>Registration\<close>

text \<open>C28: A registration that is turned down changes nothing: with no statement failing, a submit or an
  update answered 400, 404, 409 or 422 (an unreadable body, an invalid or undecodable Wafer, an
  undeclared secret, a contradicted webhook scheme, an update of an unknown workflow) leaves the
  database and the scheduled tasks exactly as they were.\<close>

theorem rejected_registration_changes_nothing:
  assumes "calm s" "handleRegister d req b s = (Inr (status, answer), s')" "status \<in> {400, 404, 409, 422}"
  shows "s' = s"
  using assms
  by (auto simp: handleRegister_def no_store_def http_error_def say_def ret_apply register_wafer_def retire_old_def bind_def
      try_or_def attempt_def GetWorkflow_def Let_def split: if_splits sum.splits list.splits option.splits prod.splits)

definition idle_daemon :: daemon where
  "idle_daemon = \<lparr> dm_store = True, dm_queue = Some ''nodes'', dm_receiver = None, dm_resolver = None, dm_receivers = [],
     dm_types = mechanisms, dm_self = ''servitor'', dm_executable = Inr ''servitor'',
     dm_yaml = (\<lambda>t. if t = ''bad'' then Inr VNull else Inr (VObj [(''name'', VStr ''nightly''),
        (''triggers'', VArr [VObj [(''type'', VStr ''cron''), (''schedule'', VStr ''0 0 * * *'')]]),
        (''nodes'', VArr [VObj [(''type'', VStr ''transform''), (''expression'', VStr ''1'')]])])),
     dm_yaml_map = (\<lambda>t. Inr [(''name'', VStr ''nightly''),
        (''triggers'', VArr [VObj [(''type'', VStr ''cron''), (''schedule'', VStr ''0 0 * * *'')]]),
        (''nodes'', VArr [VObj [(''type'', VStr ''transform''), (''expression'', VStr ''1'')]])]),
     dm_json = (\<lambda>_. Inr VNull) \<rparr>"

definition control :: "string \<Rightarrow> control_request" where
  "control body = \<lparr> cr_path = PathUpdate, cr_query = (\<lambda>_. ''''), cr_body = Inr body \<rparr>"

theorem rejected_registration_changes_nothing_witness:
  "\<exists>answer. handleRegister idle_daemon (control ''bad'') True (calm_world empty_db) = (Inr (422, answer), calm_world empty_db)"
proof -
  have "\<not> Valid (Validate mechanisms (dm_yaml idle_daemon) ''bad'')"
    by (simp add: idle_daemon_def Validate_def validateValue_def Valid_def)
  moreover have "dm_types idle_daemon = mechanisms" "dm_store idle_daemon" "cr_body (control ''bad'') = Inr ''bad''"
    by (simp_all add: idle_daemon_def control_def)
  ultimately have h: "handleRegister idle_daemon (control ''bad'') True (calm_world empty_db)
      = (Inr (422, Issues (Validate mechanisms (dm_yaml idle_daemon) ''bad'')), calm_world empty_db)"
    by (simp add: handleRegister_def Let_def ret_apply)
  have "calm (calm_world empty_db :: jworld)" by simp
  from rejected_registration_changes_nothing [OF this h] h show ?thesis by auto
qed

lemma runs_each_rel:
  assumes "\<And>x d d'. x \<in> set xs \<Longrightarrow> runs (f x) d () d' \<Longrightarrow> R d d'" "\<And>d. R d d" "\<And>a b c. R a b \<Longrightarrow> R b c \<Longrightarrow> R a c"
  shows "runs (each f xs) d u d' \<Longrightarrow> R d d'"
  using assms(1)
proof (induction xs arbitrary: d)
  case Nil
  then show ?case using assms(2) by simp
next
  case (Cons x xs)
  from Cons.prems(1) obtain d1 where "runs (f x) d () d1" "runs (each f xs) d1 u d'" by (auto simp: old.unit.exhaust)
  then show ?case using Cons.IH Cons.prems(2) assms(3) by (meson list.set_intros)
qed

text \<open>Workflows kept, calls only added.\<close>

definition scheduling :: "jdb \<Rightarrow> jdb \<Rightarrow> bool" where
  "scheduling d d' \<longleftrightarrow> db_workflows d' = db_workflows d \<and> set (db_calls d) \<subseteq> set (db_calls d')"

lemma scheduling_refl: "scheduling d d" and scheduling_trans: "scheduling a b \<Longrightarrow> scheduling b c \<Longrightarrow> scheduling a c"
  by (auto simp: scheduling_def)

lemma runs_scheduling:
  assumes "runs (each f xs) a u b" "\<And>x d d'. x \<in> set xs \<Longrightarrow> runs (f x) d () d' \<Longrightarrow> scheduling d d'"
  shows "scheduling a b"
  using runs_each_rel [of xs f scheduling a u b] assms scheduling_refl scheduling_trans by blast

lemma RegisterCron_schedules:
  assumes "runs (RegisterCron types self queue w task) d u d'"
  shows "scheduling d d'" and "w_nodes w \<noteq> [] \<Longrightarrow> \<exists>j. QSchedule (ct_Name task) queue (ct_Schedule task) j \<in> set (db_calls d')"
proof -
  show "scheduling d d'"
    using assms by (auto simp: RegisterCron_def RegisterScheduledTask_def scheduling_def split: option.splits
        dest!: runs_of_res runs_qcall initDeps_runs)
  assume nodes: "w_nodes w \<noteq> []"
  have "FromWafer types self w e \<noteq> Inr None" for e
  proof (cases "ResolveDAG w")
    case (Pair dag issues)
    have "dag \<noteq> []" if "issues = []"
      using resolved_order [of w dag] Pair that nodes by auto
    then show ?thesis using Pair by (auto simp: FromWafer_def rbind_def Let_def split: if_splits sum.splits)
  qed
  then show "\<exists>j. QSchedule (ct_Name task) queue (ct_Schedule task) j \<in> set (db_calls d')"
    using assms by (auto simp: RegisterCron_def RegisterScheduledTask_def split: option.splits
        dest!: runs_of_res runs_qcall initDeps_runs) blast+
qed

lemma runs_cron_trigger: "runs (register_cron_trigger d q w p) x v y \<Longrightarrow> scheduling x y"
  by (cases p) (auto simp: register_cron_trigger_def Let_def scheduling_refl split: if_splits dest: RegisterCron_schedules(1))

lemma runs_email_trigger: "runs (register_email_trigger d q w p) x v y \<Longrightarrow> scheduling x y"
  by (cases p) (auto simp: register_email_trigger_def RegisterPoll_def RegisterScheduledTask_def Let_def scheduling_def
      split: if_splits dest!: runs_of_res runs_qcall)

lemma runs_registerCron: "runs (registerCron d w) a u b \<Longrightarrow> scheduling a b"
  by (auto simp: registerCron_def scheduling_refl split: option.splits if_splits elim!: runs_scheduling runs_cron_trigger)

lemma runs_registerEmail: "runs (registerEmail d w) a u b \<Longrightarrow> scheduling a b"
  by (auto simp: registerEmail_def scheduling_refl split: option.splits if_splits elim!: runs_scheduling runs_email_trigger)

lemma runs_unregisterCron: "runs (unregisterCron w) a u b \<Longrightarrow> scheduling a b"
  unfolding unregisterCron_def
  by (erule runs_scheduling) (auto simp: UnregisterScheduledTask_def scheduling_def split: if_splits dest!: runs_qcall)

lemma runs_unregisterEmail: "runs (unregisterEmail w) a u b \<Longrightarrow> scheduling a b"
  unfolding unregisterEmail_def
  by (erule runs_scheduling) (auto simp: UnregisterScheduledTask_def scheduling_def split: if_splits dest!: runs_qcall)

text \<open>Every cron trigger has its task among the calls.\<close>

lemma registerCron_schedules_all:
  assumes "runs (registerCron d w) a u b" "dm_store d" "dm_queue d = Some queue" "w_nodes w \<noteq> []"
    and "(i, tr) \<in> set (enumerate 0 (w_on w))" "tr_type tr = ''cron''"
  shows "\<exists>j. QSchedule (cron_name w i) queue (str_or_empty (map_of (tr_config tr) ''schedule'')) j \<in> set (db_calls b)"
proof -
  have "\<exists>j. QSchedule (cron_name w i) queue (str_or_empty (map_of (tr_config tr) ''schedule'')) j \<in> set (db_calls y)"
    if "runs (each (register_cron_trigger d queue w) xs) x v y" "(i, tr) \<in> set xs" for xs x v y
    using that
  proof (induction xs arbitrary: x)
    case (Cons p ps)
    obtain z where z: "runs (register_cron_trigger d queue w p) x () z" "runs (each (register_cron_trigger d queue w) ps) z v y"
      using Cons.prems(1) by (auto simp: old.unit.exhaust)
    show ?case
    proof (cases "p = (i, tr)")
      case True
      then obtain j where "QSchedule (cron_name w i) queue (str_or_empty (map_of (tr_config tr) ''schedule'')) j \<in> set (db_calls z)"
        using z(1) assms(4,6) by (auto simp: register_cron_trigger_def Let_def split: if_splits dest!: RegisterCron_schedules(2))
      moreover have "scheduling z y"
        by (rule runs_scheduling [OF z(2)]) (rule runs_cron_trigger)
      ultimately show ?thesis by (auto simp: scheduling_def)
    next
      case False
      then show ?thesis using Cons z(2) by simp
    qed
  qed simp
  then show ?thesis using assms by (simp add: registerCron_def)
qed

lemma register_wafer_ok:
  assumes "register_wafer d w body s = (Inr (200, p), s')"
  obtains s1 s2 where "RegisterWorkflow (w_name w) body s = (Inr (), s1)" "registerCron d w s1 = (Inr (), s2)"
    "registerEmail d w s2 = (Inr (), s')"
  using assms
  by (auto simp: register_wafer_def try_or_def attempt_def bind_def http_error_def say_def ret_apply old.unit.exhaust
      split: prod.splits sum.splits)

lemma retire_old_ok: "retire_old d w s = (Inr None, s1) \<Longrightarrow> scheduling (w_db s) (w_db s1)"
proof -
  assume r: "retire_old d w s = (Inr None, s1)"
  then obtain row s2 where g: "GetWorkflow (w_name w) s = (Inr (Some row), s2)"
    and rest: "(case Parse (dm_yaml_map d) (wf_wafer row) of Inl _ \<Rightarrow> ret None
       | Inr old \<Rightarrow>
          try_or (unregisterCron old) (\<lambda>e. bind (http_error 500 (''unregister old cron: '' @ err_msg e)) (\<lambda>r. ret (Some r))) (\<lambda>_.
          try_or (unregisterEmail old) (\<lambda>e. bind (http_error 500 (''unregister old email: '' @ err_msg e)) (\<lambda>r. ret (Some r)))
            (\<lambda>_. ret None))) s2 = (Inr None, s1)"
    by (auto simp: retire_old_def try_or_def attempt_def bind_def http_error_def ret_apply
        split: prod.splits sum.splits option.splits)
  have same: "w_db s2 = w_db s" using g unfolding GetWorkflow_def by (rule query_db)
  show ?thesis
  proof (cases "Parse (dm_yaml_map d) (wf_wafer row)")
    case (Inl e)
    then show ?thesis using rest same scheduling_refl by (simp add: ret_apply)
  next
    case (Inr old)
    then obtain s3 where "unregisterCron old s2 = (Inr (), s3)" "unregisterEmail old s3 = (Inr (), s1)"
      using rest by (auto simp: try_or_def attempt_def bind_def http_error_def ret_apply split: prod.splits sum.splits)
    then have "runs (unregisterCron old) (w_db s2) () (w_db s3)" "runs (unregisterEmail old) (w_db s3) () (w_db s1)"
      by (auto intro: runsI)
    then show ?thesis
      using runs_unregisterCron runs_unregisterEmail scheduling_trans same by metis
  qed
qed

text \<open>An update arms a disabled workflow: when an update is accepted, the workflow's row gets the new
  text and keeps its enabled flag, also when that is false, while every cron trigger of the new
  text has its task registered with the scheduler, which fires whatever the flag says.\<close>

theorem update_arms_disabled_workflow:
  assumes "handleUpdate d req s = (Inr (200, p), s')" "dm_store d" "dm_queue d = Some queue" "cr_body req = Inr body"
    and "Parse (dm_yaml_map d) body = Inr w" "w_nodes w \<noteq> []" "select (w_name w) (db_workflows (w_db s)) = Some row"
  shows "select (w_name w) (db_workflows (w_db s')) = Some (row\<lparr> wf_wafer := body \<rparr>)
    \<and> (\<forall>(i, tr)\<in>set (enumerate 0 (w_on w)). tr_type tr = ''cron'' \<longrightarrow>
         (\<exists>j. QSchedule (cron_name w i) queue (str_or_empty (map_of (tr_config tr) ''schedule'')) j
            \<in> set (db_calls (w_db s'))))"
proof -
  obtain s0 where r: "retire_old d w s = (Inr None, s0)" and reg: "register_wafer d w body s0 = (Inr (200, p), s')"
    using assms(1-5)
    by (auto simp: handleUpdate_def handleRegister_def Let_def bind_def http_error_def ret_apply retire_old_def try_or_def attempt_def
        split: if_splits list.splits prod.splits sum.splits option.splits)
  obtain s1 s2 where st: "RegisterWorkflow (w_name w) body s0 = (Inr (), s1)" "registerCron d w s1 = (Inr (), s2)"
    "registerEmail d w s2 = (Inr (), s')"
    by (rule register_wafer_ok [OF reg])
  have w0: "db_workflows (w_db s0) = db_workflows (w_db s)" using retire_old_ok [OF r] by (simp add: scheduling_def)
  have "runs (RegisterWorkflow (w_name w) body) (w_db s0) () (w_db s1)" using st(1) by (rule runsI)
  then have w1: "select (w_name w) (db_workflows (w_db s1)) = Some (row\<lparr> wf_wafer := body \<rparr>)"
    using assms(7) w0 by (auto simp: RegisterWorkflow_def tbl.get_modify split: if_splits dest!: runs_exec_sql)
  have cron: "runs (registerCron d w) (w_db s1) () (w_db s2)" using st(2) by (rule runsI)
  have "runs (registerEmail d w) (w_db s2) () (w_db s')" using st(3) by (rule runsI)
  then have "scheduling (w_db s1) (w_db s2)" "scheduling (w_db s2) (w_db s')"
    using runs_registerCron [OF cron] runs_registerEmail by blast+
  then show ?thesis
    using w1 registerCron_schedules_all [OF cron assms(2,3,6)]
    by (auto simp: scheduling_def) blast
qed

definition disabled_db :: jdb where
  "disabled_db = empty_db\<lparr> db_workflows := [(''nightly'', \<lparr> wf_wafer = ''old'', wf_enabled = False \<rparr>)] \<rparr>"

theorem update_arms_disabled_workflow_witness:
  "\<exists>p s' j. handleUpdate idle_daemon (control ''new'') (calm_world disabled_db) = (Inr (200, p), s')
     \<and> select ''nightly'' (db_workflows (w_db s')) = Some \<lparr> wf_wafer = ''new'', wf_enabled = False \<rparr>
     \<and> QSchedule ''nightly:cron-0'' ''nodes'' ''0 0 * * *'' j \<in> set (db_calls (w_db s'))"
proof -
  have "map_sum id fst (fst (handleUpdate idle_daemon (control ''new'') (calm_world disabled_db))) = Inr 200"
    by code_simp
  then obtain p s' where h: "handleUpdate idle_daemon (control ''new'') (calm_world disabled_db) = (Inr (200, p), s')"
    by (cases "handleUpdate idle_daemon (control ''new'') (calm_world disabled_db)")
       (auto simp: map_sum_def split: sum.splits)
  obtain w where w: "Parse (dm_yaml_map idle_daemon) ''new'' = Inr w" "w_name w = ''nightly''" "w_nodes w \<noteq> []"
      "w_on w = [\<lparr> tr_type = ''cron'', tr_config = [(''schedule'', VStr ''0 0 * * *'')] \<rparr>]"
    by (simp add: idle_daemon_def Parse_def fromRaw_def objects_of_def trigger_of_def copyMap_def str_or_empty_def
        List.map_filter_simps)
  have "dm_store idle_daemon" "dm_queue idle_daemon = Some ''nodes''" "cr_body (control ''new'') = Inr ''new''"
    by (simp_all add: idle_daemon_def control_def)
  moreover have "select (w_name w) (db_workflows (w_db (calm_world disabled_db)))
      = Some \<lparr> wf_wafer = ''old'', wf_enabled = False \<rparr>"
    by (simp add: w disabled_db_def select_def)
  ultimately have "select ''nightly'' (db_workflows (w_db s')) = Some \<lparr> wf_wafer = ''new'', wf_enabled = False \<rparr>
      \<and> (\<exists>j. QSchedule (cron_name w 0) ''nodes'' ''0 0 * * *'' j \<in> set (db_calls (w_db s')))"
    using update_arms_disabled_workflow [OF h _ _ _ w(1,3)] w(2,4) by (simp add: str_or_empty_def)
  moreover have "cron_name w 0 = ''nightly:cron-0''" by (simp add: cron_name_def w(2) show_nat.simps digit_def)
  ultimately show ?thesis using h by auto
qed

end
