(* ===== verification/CliFlows.thy ===== *)
theory CliFlows
  imports CliLaws DaemonLaws
begin

text \<open>
  The command line at the far end of the subprocess boundary: the servitor binary as the process a worker
  runs, for a transform node and for the poll of a mailbox; and at the near end of the control plane: a command
  over the daemon as its transport, down to the store.
\<close>

section \<open>A line of JSON\<close>

lemma decode_rune_ascii:
  assumes "byte c < 128"
  shows "decode_rune b (map byte (xs @ c # ys)) = decode_rune b (map byte xs)"
proof -
  have c: "\<not> cont_byte (byte c)" using assms by (simp add: cont_byte_def)
  have "decode_rune2 b (map byte (xs @ c # ys)) = decode_rune2 b (map byte xs)"
    using c by (cases xs) (auto simp: decode_rune2_def)
  moreover have "decode_rune3 b (map byte (xs @ c # ys)) = decode_rune3 b (map byte xs)"
    using c by (cases xs; cases "tl xs") (auto simp: decode_rune3_def split: list.splits)
  moreover have "decode_rune4 b (map byte (xs @ c # ys)) = decode_rune4 b (map byte xs)"
    using c by (cases xs; cases "tl xs"; cases "tl (tl xs)") (auto simp: decode_rune4_def split: list.splits)
  ultimately show ?thesis unfolding decode_rune_def by (simp only:)
qed

lemma decode_rune_width: "decode_rune b bs = (r, w) \<Longrightarrow> w - 1 \<le> length bs"
  by (auto simp: decode_rune_def decode_rune2_def decode_rune3_def decode_rune4_def split: if_splits list.splits option.splits)

lemma segments_append_ascii:
  "byte c < 128 \<Longrightarrow> segments (xs @ c # ys) = segments xs @ (byte c, [c]) # segments ys"
proof (induction xs rule: segments.induct)
  case 1
  then show ?case by (simp add: decode_rune_def)
next
  case (2 x xs)
  obtain r w where d: "decode_rune (byte x) (map byte xs) = (r, w)" by (metis surj_pair)
  then have "w - 1 \<le> length xs" using decode_rune_width by fastforce
  then show ?case
    using 2 d decode_rune_ascii [OF 2(2), of "byte x" xs ys] by (simp add: Let_def)
qed

text \<open>A text that neither begins nor ends with a byte of white space or of a longer rune.\<close>

definition solid_char :: "char \<Rightarrow> bool" where
  "solid_char c \<longleftrightarrow> 32 < byte c \<and> byte c < 128"

definition solid :: "string \<Rightarrow> bool" where
  "solid t \<longleftrightarrow> t \<noteq> '''' \<and> solid_char (hd t) \<and> solid_char (last t)"

lemma solid_not_space: "solid_char c \<Longrightarrow> \<not> is_space (byte c)"
  by (auto simp: solid_char_def is_space_def)

lemma segments_first: "solid_char c \<Longrightarrow> segments (c # s) = (byte c, [c]) # segments s"
  using segments_append_ascii [of c "[]" s] by (simp add: solid_char_def)

lemma trim_line: "solid t \<Longrightarrow> trim_space (t @ nl) = t"
proof -
  assume t: "solid t"
  then obtain z where z: "t = butlast t @ [z]" "solid_char z" by (metis append_butlast_last_id solid_def)
  obtain h where h: "t = h # tl t" "solid_char h" using t by (metis list.collapse solid_def)
  have s: "segments (t @ nl) = segments t @ [(10, nl)]"
    using segments_append_ascii [of "CHR 0x0A" t "[]"] by (simp add: nl_def byte_def)
  have e: "segments t = segments (butlast t) @ [(byte z, [z])]"
    using segments_append_ascii [of z "butlast t" "[]"] z by (simp add: solid_char_def)
  have b: "segments t = (byte h, [h]) # segments (tl t)" using segments_first h by metis
  have left: "dropWhile (\<lambda>p. is_space (fst p)) (segments (t @ nl)) = segments t @ [(10, nl)]"
    using solid_not_space [OF h(2)] by (simp add: s b)
  have "dropWhile (\<lambda>p. is_space (fst p)) (rev (segments t @ [(10, nl)])) = rev (segments t)"
    using solid_not_space [OF z(2)] by (simp add: e) (simp add: is_space_def)
  then show ?thesis by (simp only: trim_space_def left rev_rev_ident concat_segments)
qed

lemma solid_digit: "n < 16 \<Longrightarrow> solid_char (digit n)"
proof -
  have "\<forall>n\<in>set [0..<16]. solid_char (digit n)" by code_simp
  then show "n < 16 \<Longrightarrow> solid_char (digit n)" by simp
qed

lemma solid_Cons: "solid_char c \<Longrightarrow> t = '''' \<or> solid_char (last t) \<Longrightarrow> solid (c # t)"
  by (auto simp: solid_def)

lemma solid_enclosed: "solid_char a \<Longrightarrow> solid_char b \<Longrightarrow> solid (a # t @ [b])"
  by (simp add: solid_def)

lemma solid_show_nat: "solid (show_nat n)"
proof (induction n rule: show_nat.induct)
  case (1 n)
  then show ?case
    by (subst show_nat.simps) (auto simp: solid_digit solid_def)
qed

lemma solid_itoa: "solid (itoa i)"
proof -
  have "solid_char (CHR ''-'')" by code_simp
  then show ?thesis using solid_show_nat by (auto simp: itoa_def solid_def)
qed

text \<open>encoding/json's text of a value, a float's aside, is such a text.\<close>

lemma json_marshal_solid:
  assumes "json_marshal v = Inr t" "\<And>s. v = VFloat s \<Longrightarrow> solid s"
  shows "solid t"
proof -
  have lits: "solid ''null''" "solid ''true''" "solid ''false''" "solid_char (CHR 0x22)" "solid_char (CHR ''['')"
    "solid_char (CHR '']'')" "solid_char (CHR ''{'')" "solid_char (CHR ''}'')" by code_simp+
  show ?thesis
    using assms lits
    by (cases v) (auto simp: json_string_def rbind_eq_Inr json_float_def solid_itoa intro!: solid_enclosed split: if_splits)
qed

section \<open>The binary as a process\<close>

text \<open>os.Getenv over an environment: the first entry of the name.\<close>

definition env_lookup :: "string list \<Rightarrow> string \<Rightarrow> string" where
  "env_lookup env name = (case map_of (List.map_filter (cut_at (CHR ''='')) env) name of Some v \<Rightarrow> v | None \<Rightarrow> '''')"

text \<open>What the operating system makes of the binary: its arguments, environment and standard input are the
  command's, its streams start empty, and a non-zero exit code is an error.\<close>

definition binary :: "('s, 'e) cli_os \<Rightarrow> 's cli \<Rightarrow> Exec.os" where
  "binary cs c argv env stdin =
     (case Cli_Run (cs\<lparr> ce_stdin := Inr (case stdin of None \<Rightarrow> '''' | Some t \<Rightarrow> t), ce_environ := env,
          ce_getenv := env_lookup env \<rparr>) (tl argv) (c\<lparr> ci_out := '''', ci_err := '''' \<rparr>) of
        (code, c') \<Rightarrow> \<lparr> pr_error = (if code = exitOK then None else Some (errorf (''exit status '' @ itoa code))),
          pr_stdout = ci_out c', pr_stderr = ci_err c' \<rparr>)"

text \<open>The two commands that print the value of an expression.\<close>

lemma expression_commands:
  assumes "cmd \<in> {''__transform'', ''__eval''}"
  shows "Cli_Run os [cmd, expr] = eval_stdin os cmd expr (\<lambda>v. emit cmd (json_marshal v))"
  using assms by (auto simp: Cli_Run_def commands_def cmdTransformNode_def cmdEvalNode_def)

lemma binary_evaluates:
  assumes cmd: "cmd \<in> {''__transform'', ''__eval''}" and t: "json_marshal (VObj m) = Inr t" "ce_json cs t = Inr (VObj m)"
  shows "binary cs c [self, cmd, expr] env (Some t) =
    (case Eval (ce_jsonata cs) expr (VObj m) of
       Inl e \<Rightarrow> \<lparr> pr_error = Some (errorf ''exit status 1''), pr_stdout = '''',
         pr_stderr = ''servitor: '' @ cmd @ '': '' @ err_msg e @ nl \<rparr>
     | Inr r \<Rightarrow> (case json_marshal r of
         Inl e \<Rightarrow> \<lparr> pr_error = Some (errorf ''exit status 1''), pr_stdout = '''',
           pr_stderr = ''servitor: '' @ cmd @ '': encode result: '' @ err_msg e @ nl \<rparr>
       | Inr u \<Rightarrow> \<lparr> pr_error = None, pr_stdout = u @ nl, pr_stderr = '''' \<rparr>))"
proof -
  have "t \<noteq> ''''" using json_marshal_solid [OF t(1)] by (auto simp: solid_def)
  moreover have "itoa 1 = ''1''" by code_simp
  ultimately show ?thesis
    using t(2)
    by (simp add: binary_def expression_commands [OF cmd] eval_stdin_def with_stdin_def read_json_def emit_def failed_at_def
        fail_def complain_def out_def wrap_def split: sum.split)
qed

text \<open>C34: A transform in a subprocess is the expression's value in place: the node that runs the servitor binary
  with an expression on its input gets exactly the value the expression has for that input, and fails when it has
  none, provided the JSON of the input and of the value reads back and the environment's secrets are
  not part of the printed value (they would be redacted).\<close>

theorem subprocess_evaluates_in_place:
  assumes "cmd \<in> {''__transform'', ''__eval''}"
    and "json_marshal (VObj m) = Inr t" "ce_json cs t = Inr (VObj m)"
    and "\<And>r. Eval (ce_jsonata cs) expr (VObj m) = Inr r \<Longrightarrow>
      \<exists>u. json_marshal r = Inr u \<and> solid u \<and> redactEnv env u = u \<and> ce_json cs u = Inr r"
  shows "(Run (binary cs c) (ce_json cs) \<lparr> ex_command = [self, cmd, expr], ex_env = env, ex_input = VObj m \<rparr> = Inr r)
      \<longleftrightarrow> Eval (ce_jsonata cs) expr (VObj m) = Inr r"
proof (cases "Eval (ce_jsonata cs) expr (VObj m)")
  case (Inl e)
  then show ?thesis by (simp add: Run_def assms(2) binary_evaluates [OF assms(1-3)] del: json_marshal.simps)
next
  case (Inr v)
  obtain u where "json_marshal v = Inr u" "solid u" "redactEnv env u = u" "ce_json cs u = Inr v"
    using assms(4) [OF Inr] by blast
  moreover from this have "u \<noteq> ''''" by (simp add: solid_def)
  ultimately show ?thesis
    using Inr by (simp add: Run_def assms(2) binary_evaluates [OF assms(1-3)] trim_line del: json_marshal.simps)
qed

section \<open>A small machine\<close>

text \<open>Expressions evaluate to their own text; three JSON texts can be read; no daemon answers.\<close>

definition demo_json :: "string \<Rightarrow> value res" where
  "demo_json t = (if t = ''{}'' then Inr (VObj [])
     else if t = ''null'' then Inr VNull
     else if t = ''box'' then Inr (VObj [(''Host'', VStr ''imap.example.com''), (''username'', VStr ''me''), (''secret'', VStr ''PW'')])
     else if t = [CHR 0x22, CHR ''x'', CHR 0x22] then Inr (VStr ''x'') else Inl (errorf ''bad JSON''))"

definition demo_cli :: "'s transport \<Rightarrow> ('s, string) cli_os" where
  "demo_cli tn = \<lparr> ce_version = ''1'', ce_stdin = Inr '''', ce_read_file = (\<lambda>_. Inl (errorf ''no file'')), ce_environ = [],
     ce_getenv = (\<lambda>_. ''''), ce_config = demo_config, ce_providers = NewRegistry, ce_types = mechanisms,
     ce_yaml = (\<lambda>_. Inl (errorf ''yaml'')), ce_yaml_map = (\<lambda>_. Inl (errorf ''yaml'')), ce_json = demo_json,
     ce_int = (\<lambda>v. case v of VInt i \<Rightarrow> Inr i | _ \<Rightarrow> Inl (errorf ''int'')), ce_fmt = (\<lambda>_. ''?''), ce_plan_json = (\<lambda>_. Inr ''''),
     ce_jsonata = \<lparr> jn_compile = (\<lambda>_ _ e. Inr e), jn_eval = (\<lambda>_ e _. Inr (VStr e)), jn_decode = demo_json \<rparr>,
     ce_order = (\<lambda>hs. hs), ce_mcp = demo_server, ce_codec = demo_codec, ce_http = (\<lambda>_. Inl (errorf ''offline'')),
     ce_bad_request = (\<lambda>_ _. None), ce_status_text = (\<lambda>_. ''''), ce_imap = demo_imap False, ce_caps = demo_box (\<lambda>_. None),
     ce_crypto = toy_crypto, ce_random = (''kk'', ''n''), ce_store_dir = ''store'', ce_transport = tn,
     ce_daemon = (\<lambda>_. (None, Inl (errorf ''no daemon''))) \<rparr>"

definition no_net :: "unit transport" where
  "no_net = \<lparr> tn_bad = (\<lambda>_. None), tn_do = (\<lambda>_ s. (Inl (errorf ''refused''), s)) \<rparr>"

definition fresh_cli :: "'s \<Rightarrow> 's cli" where
  "fresh_cli s = \<lparr> ci_out = '''', ci_err = '''', ci_configs = (\<lambda>_. None), ci_store = [], ci_caps = [], ci_mail = [], ci_net = s \<rparr>"

theorem subprocess_evaluates_in_place_witness:
  "Run (binary (demo_cli no_net) (fresh_cli ())) demo_json
     \<lparr> ex_command = [''servitor'', ''__transform'', ''x''], ex_env = [''PATH=/bin''], ex_input = VObj [] \<rparr> = Inr (VStr ''x'')"
proof -
  have sel: "ce_json (demo_cli no_net) = demo_json" by (simp add: demo_cli_def)
  have e: "Eval (ce_jsonata (demo_cli no_net)) ''x'' (VObj []) = Inr (VStr ''x'')" by code_simp
  have u: "json_marshal (VStr ''x'') = Inr [CHR 0x22, CHR ''x'', CHR 0x22]" "solid [CHR 0x22, CHR ''x'', CHR 0x22]"
    "redactEnv [''PATH=/bin''] [CHR 0x22, CHR ''x'', CHR 0x22] = [CHR 0x22, CHR ''x'', CHR 0x22]"
    "demo_json [CHR 0x22, CHR ''x'', CHR 0x22] = Inr (VStr ''x'')" by code_simp+
  have t: "json_marshal (VObj []) = Inr ''{}''" "demo_json ''{}'' = Inr (VObj [])" by code_simp+
  show ?thesis
    using subprocess_evaluates_in_place [where cmd = "''__transform''" and cs = "demo_cli no_net" and m = "[]" and expr = "''x''"
        and env = "[''PATH=/bin'']" and self = "''servitor''" and c = "fresh_cli ()" and r = "VStr ''x''", unfolded sel, OF _ t] e u
    by simp
qed

section \<open>The poll of a quiet mailbox\<close>

lemma poll_command: "Cli_Run os [''__email_poll''] = cmdEmailPoll os []"
  by (simp add: Cli_Run_def commands_def)

lemma binary_polls_nothing:
  assumes calm: "\<And>h. im_answer (ce_imap cs) h = None" "\<And>h. im_found (ce_imap cs) h = []"
    and p: "rbind (ce_json cs t) decode_poll = Inr p" "pp_host p \<noteq> ''''" "pp_username p \<noteq> ''''" "pp_secret p \<noteq> ''''"
    and pw: "env_lookup env (pp_secret p) \<noteq> ''''"
  shows "binary cs c [self, ''__email_poll''] env (Some t) = \<lparr> pr_error = None, pr_stdout = ''null'' @ nl, pr_stderr = '''' \<rparr>"
proof -
  let ?cfg = "\<lparr> ic_Host = pp_host p, ic_Username = pp_username p, ic_Password = env_lookup env (pp_secret p), ic_Mailbox = '''' \<rparr>"
  have d: "Dial (ce_imap cs) ?cfg h = (Inr (), h @ dial_commands ?cfg)" for h
    using p by (intro Dial_calm calm) simp
  have f: "fetched (ce_imap cs) ?cfg h = (Inr None, h @ search_commands ?cfg)" for h
    by (simp add: fetched_def FetchNew_nothing [OF calm])
  show ?thesis
    using p pw d f
    by (simp add: binary_def poll_command cmdEmailPoll_def with_stdin_def on_mail_def closing_def emit_def encode_emails_def
        out_def Let_def)
qed

text \<open>A mailbox without new mail is no list of emails but a null, which the worker takes for a
  failure: the poll job is acknowledged, yet it ends with an error although the mailbox was read
  successfully.\<close>

theorem quiet_mailbox_fails_the_poll:
  assumes "\<And>h. im_answer (ce_imap cs) h = None" "\<And>h. im_found (ce_imap cs) h = []"
    and "json_marshal (VObj (Input (nj sj))) = Inr t" "rbind (ce_json cs t) decode_poll = Inr p"
    and "pp_host p \<noteq> ''''" "pp_username p \<noteq> ''''" "pp_secret p \<noteq> ''''" "env_lookup env (pp_secret p) \<noteq> ''''"
    and "ce_json cs ''null'' = Inr VNull" "redactEnv env ''null'' = ''null''"
    and "wk_runner w = (\<lambda>_. Run (binary cs c) (ce_json cs))" "wk_onPoll w \<noteq> None"
    and "Command (nj sj) = [self, ''__email_poll'']" "declared_env w sj = Inr env"
  shows "fst (handlePoll w sj claimed s) = Inl (errorf (''worker: poll '' @ job_tag sj claimed @ ''helper returned a non-list''))"
proof -
  have "solid ''null''" by code_simp
  from trim_line [OF this] have "trim_space (CHR ''n'' # CHR ''u'' # CHR ''l'' # CHR ''l'' # nl) = ''null''" by simp
  then have "Run (binary cs c) (ce_json cs) \<lparr> ex_command = [self, ''__email_poll''], ex_env = env, ex_input = VObj (Input (nj sj)) \<rparr> = Inr VNull"
    using assms by (simp add: Run_def binary_polls_nothing Let_def del: json_marshal.simps)
  then show ?thesis
    using assms by (auto simp: handlePoll_def Let_def try_or_def run_process_def bind_def attempt_def ignore_def of_res_def ret_def throw_def
        del: json_marshal.simps split: prod.splits sum.splits)
qed

definition poll_sample :: node_job where
  "poll_sample = NodeJob (no_fields\<lparr> RunID := ''poll'', WorkflowID := ''orders'', NodeID := ''poll'', NodeName := ''poll'',
     NodeType := ''poll'', Command := [''servitor'', ''__email_poll''], Secrets := [''PW''] \<rparr>) [] None"

definition quiet_box :: imap_server where
  "quiet_box = \<lparr> im_answer = (\<lambda>_. None), im_found = (\<lambda>_. []), im_messages = (\<lambda>_. []), im_parts = (\<lambda>_. Inr []) \<rparr>"

text \<open>The machine with the account on the poll's standard input.\<close>

definition quiet_cli :: "(unit, string) cli_os" where
  "quiet_cli = (demo_cli no_net)\<lparr> ce_imap := quiet_box, ce_json := (\<lambda>t. demo_json (if t = ''{}'' then ''box'' else t)) \<rparr>"

definition poll_worker :: worker where
  "poll_worker = (test_worker VNull)\<lparr> wk_resolver := ResolverFromMap [(''PW'', ''secret'')],
     wk_runner := (\<lambda>_. Run (binary quiet_cli (fresh_cli ())) (ce_json quiet_cli)), wk_onPoll := Some (\<lambda>_ _ _. ret ()) \<rparr>"

theorem quiet_mailbox_fails_the_poll_witness:
  "fst (handlePoll poll_worker poll_sample (claim_of poll_sample) (calm_world empty_db)) =
     Inl (errorf (''worker: poll '' @ job_tag poll_sample (claim_of poll_sample) @ ''helper returned a non-list''))"
proof -
  let ?env = "[''PATH='' @ default_path, ''PW=secret'']"
  have env: "declared_env poll_worker poll_sample = Inr ?env" by code_simp
  let ?p = "\<lparr> pp_host = ''imap.example.com'', pp_username = ''me'', pp_secret = ''PW'' \<rparr>"
  have e: "env_lookup ?env ''PW'' \<noteq> ''''" "redactEnv ?env ''null'' = ''null''" by code_simp+
  have p: "rbind (ce_json quiet_cli ''{}'') decode_poll = Inr ?p" by code_simp
  have t: "json_marshal (VObj (Input (nj poll_sample))) = Inr ''{}''" by code_simp
  have n: "ce_json quiet_cli ''null'' = Inr VNull" by code_simp
  have q: "im_answer (ce_imap quiet_cli) h = None" "im_found (ce_imap quiet_cli) h = []" for h
    by (simp_all add: quiet_cli_def quiet_box_def)
  have w: "wk_runner poll_worker = (\<lambda>_. Run (binary quiet_cli (fresh_cli ())) (ce_json quiet_cli))" "wk_onPoll poll_worker \<noteq> None"
    "Command (nj poll_sample) = [''servitor'', ''__email_poll'']"
    by (simp_all add: poll_worker_def poll_sample_def)
  show ?thesis
    by (rule quiet_mailbox_fails_the_poll [OF q t p _ _ _ _ n e(2) w env]) (use e(1) in simp_all)
qed

section \<open>Cancelling from the command line\<close>

lemma served_Inr: "served enc h w = (Inr y, w') \<Longrightarrow> \<exists>r. h w = (Inr r, w') \<and> cy_code y = fst r"
  by (auto simp: served_def reply_of_def split: prod.splits sum.splits)

lemma answered_Inr: "answered enc path h w = (Inr s, w') \<Longrightarrow> \<exists>b. h w = (Inr (200, b), w')"
  by (fastforce simp: answered_def io_bind_Inr_iff dest!: served_Inr split: if_splits)

lemma health_answers:
  "Client_Health (loopback d enc addr) addr w = (Inr (), w)"
proof -
  have "control_of PathHealth None = \<lparr> cr_path = PathHealth, cr_query = query_get '''', cr_body = Inr '''' \<rparr>"
    by (simp add: control_of_def)
  then have "route d (control_of PathHealth None) w = (Inr (200, Text (''ok'' @ [CHR 0x0A])), w)"
    by (simp add: route_def say_def ret_def)
  then show ?thesis
    by (simp add: Client_Health_def doBody_loopback answered_def served_def reply_of_def io_bind_def)
qed

lemma if_running_loopback:
  "ce_transport os = loopback d enc addr \<Longrightarrow> if_running os addr k c = k c"
  by (simp add: if_running_def over_net_def health_answers)

lemma Client_Cancel_reaches:
  "\<exists>q. q ''id'' = ident \<and> Client_Cancel (loopback d enc addr) addr ident =
     io_seq (answered enc (PathCancel @ ''?id='' @ QueryEscape ident)
       (handleCancel d \<lparr> cr_path = PathCancel, cr_query = q, cr_body = Inr '''' \<rparr>)) (io_ret ())"
proof -
  have "query_get (''id='' @ QueryEscape ident) ''id'' = ident"
    using query_get_one [of "''id''" ident] by (simp add: plain_key_def ref_char_def)
  moreover have "control_of (PathCancel @ ''?id='' @ QueryEscape ident) None =
      \<lparr> cr_path = PathCancel, cr_query = query_get (''id='' @ QueryEscape ident), cr_body = Inr '''' \<rparr>"
    using control_of_query [of PathCancel "''id='' @ QueryEscape ident" None] by simp
  moreover have "route d \<lparr> cr_path = PathCancel, cr_query = q, cr_body = b \<rparr> =
      handleCancel d \<lparr> cr_path = PathCancel, cr_query = q, cr_body = b \<rparr>" for q b
    by (simp add: route_def Let_def)
  ultimately show ?thesis
    unfolding Client_Cancel_def doBody_loopback by (intro exI [of _ "query_get (''id='' @ QueryEscape ident)"]) simp
qed

lemma handleCancel_ok:
  assumes "runs (handleCancel d req) D (200, b) D'"
  shows "select (cr_query req ''id'') (db_runs D) \<noteq> None \<and> runs (CancelRun (cr_query req ''id'')) D () D'"
  using assms
  by (auto simp: handleCancel_def no_store_def http_error_def say_def try_or_def Let_def GetRun_def
      dest!: runs_attempt runs_query split: if_splits sum.splits option.splits) metis

lemma positional_args:
  "length s < 2 \<or> hd s \<noteq> CHR ''-'' \<Longrightarrow> with_addr (s # rest) name k = k DefaultAddr (s # rest)"
  by (rule ext) (simp add: with_addr_def parseAddr_def parse_flags_positional flag_value_def addr_flags_def string_flag_def)

lemma cancel_command:
  assumes "ce_transport os = loopback d enc DefaultAddr" "length ident < 2 \<or> hd ident \<noteq> CHR ''-''"
  shows "Cli_Run os [''cancel'', ident] c = over_net (Client_Cancel (loopback d enc DefaultAddr) DefaultAddr ident)
      (failed_at ''cancel'') (\<lambda>_. finish (''servitor: cancelled '' @ ident)) c"
  using assms(2) by (simp add: Cli_Run_def commands_def cmdCancel_def positional_args if_running_loopback [OF assms(1)] assms(1))

text \<open>C33: Cancelling is real: when \<^verbatim>\<open>servitor cancel\<close> on a run ends well against a daemon, the run existed, its row
  in the daemon's store says cancelled, its pending jobs have been dropped from the queue and none of its
  waits is left parked.\<close>

theorem cancel_command_cancels:
  assumes "ce_transport os = loopback d enc DefaultAddr" "length ident < 2 \<or> hd ident \<noteq> CHR ''-''"
    and "Cli_Run os [''cancel'', ident] c = (exitOK, c')"
  shows "select ident (db_runs (w_db (ci_net c))) \<noteq> None
    \<and> status_of (w_db (ci_net c')) ident = RunCancelled
    \<and> db_calls (w_db (ci_net c')) = db_calls (w_db (ci_net c)) @ [QDropPending ident]
    \<and> \<not> list_ex (\<lambda>p. fst (fst p) = ident) (db_suspended (w_db (ci_net c')))"
proof -
  obtain q where q: "q ''id'' = ident" "Client_Cancel (loopback d enc DefaultAddr) DefaultAddr ident =
     io_seq (answered enc (PathCancel @ ''?id='' @ QueryEscape ident)
       (handleCancel d \<lparr> cr_path = PathCancel, cr_query = q, cr_body = Inr '''' \<rparr>)) (io_ret ())"
    using Client_Cancel_reaches by blast
  note run = cancel_command [OF assms(1,2)]
  obtain w' where w: "Client_Cancel (loopback d enc DefaultAddr) DefaultAddr ident (ci_net c) = (Inr (), w')" "ci_net c' = w'"
    using assms(3) unfolding run
    by (auto simp: over_net_def failed_at_def fail_def finish_def out_def split: prod.splits sum.splits)
  then obtain s where "answered enc (PathCancel @ ''?id='' @ QueryEscape ident)
       (handleCancel d \<lparr> cr_path = PathCancel, cr_query = q, cr_body = Inr '''' \<rparr>) (ci_net c) = (Inr s, w')"
    unfolding q(2) by (auto simp: io_bind_Inr_iff)
  then obtain b where "handleCancel d \<lparr> cr_path = PathCancel, cr_query = q, cr_body = Inr '''' \<rparr> (ci_net c) = (Inr (200, b), w')"
    using answered_Inr by blast
  then have "runs (handleCancel d \<lparr> cr_path = PathCancel, cr_query = q, cr_body = Inr '''' \<rparr>) (w_db (ci_net c)) (200, b) (w_db w')"
    by (rule runsI)
  from handleCancel_ok [OF this] have r: "select ident (db_runs (w_db (ci_net c))) \<noteq> None"
      "runs (CancelRun ident) (w_db (ci_net c)) () (w_db w')"
    by (simp_all add: q(1))
  show ?thesis using CancelRun_cancels [OF r(2,1)] r(1) w(2) by blast
qed

definition waiting_db :: jdb where
  "waiting_db = empty_db\<lparr> db_runs := [(''r&1'', \<lparr> rr_workflow = ''orders'', rr_status = RunWaiting, rr_pending = 0, rr_created = 0 \<rparr>)] \<rparr>"

definition demo_loopback :: "(jworld, string) cli_os" where
  "demo_loopback = demo_cli (loopback idle_daemon (\<lambda>_. ''ok'') DefaultAddr)"

theorem cancel_command_cancels_witness:
  "status_of (w_db (ci_net (snd (Cli_Run demo_loopback [''cancel'', ''r&1''] (fresh_cli (calm_world waiting_db)))))) ''r&1'' = RunCancelled"
proof -
  have tn: "ce_transport demo_loopback = loopback idle_daemon (\<lambda>_. ''ok'') DefaultAddr"
    by (simp add: demo_loopback_def demo_cli_def)
  have h: "fst (handleCancel idle_daemon req (calm_world waiting_db)) = Inr (200, Text (''ok'' @ [CHR 0x0A]))" if "cr_query req ''id'' = ''r&1''" for req
    using that by (simp add: handleCancel_def idle_daemon_def try_or_def GetRun_def CancelRun_def SetRunStatus_def bind_def attempt_def wrapping_def
        waiting_db_def select_def say_def ret_def Let_def)
  obtain q where q: "q ''id'' = ''r&1''" "Client_Cancel (loopback idle_daemon (\<lambda>_. ''ok'') DefaultAddr) DefaultAddr ''r&1'' =
     io_seq (answered (\<lambda>_. ''ok'') (PathCancel @ ''?id='' @ QueryEscape ''r&1'')
       (handleCancel idle_daemon \<lparr> cr_path = PathCancel, cr_query = q, cr_body = Inr '''' \<rparr>)) (io_ret ())"
    using Client_Cancel_reaches [of "''r&1''" idle_daemon "\<lambda>_. ''ok''" DefaultAddr] by (elim exE conjE)
  obtain w' where "handleCancel idle_daemon \<lparr> cr_path = PathCancel, cr_query = q, cr_body = Inr '''' \<rparr> (calm_world waiting_db)
      = (Inr (200, Text (''ok'' @ [CHR 0x0A])), w')"
    using h [of "\<lparr> cr_path = PathCancel, cr_query = q, cr_body = Inr '''' \<rparr>"] q(1)
    by (cases "handleCancel idle_daemon \<lparr> cr_path = PathCancel, cr_query = q, cr_body = Inr '''' \<rparr> (calm_world waiting_db)") simp
  with q(2) have "fst (Client_Cancel (loopback idle_daemon (\<lambda>_. ''ok'') DefaultAddr) DefaultAddr ''r&1'' (calm_world waiting_db)) = Inr ()"
    by (simp add: answered_def served_def reply_of_def io_bind_def)
  then have "fst (Cli_Run demo_loopback [''cancel'', ''r&1''] (fresh_cli (calm_world waiting_db))) = exitOK"
    by (auto simp: cancel_command [OF tn] over_net_def fresh_cli_def finish_def split: prod.splits)
  then have "Cli_Run demo_loopback [''cancel'', ''r&1''] (fresh_cli (calm_world waiting_db)) =
      (exitOK, snd (Cli_Run demo_loopback [''cancel'', ''r&1''] (fresh_cli (calm_world waiting_db))))"
    by (metis prod.collapse)
  from cancel_command_cancels [OF tn _ this] show ?thesis by simp
qed

section \<open>The timeout of an http node\<close>

text \<open>An http node's request always has a timeout: positive and within int64, whatever integer the config
  holds. A number of seconds that fits is kept; one of at least 9223372037 wraps around, and
  just above that bound it becomes the default of half a minute.\<close>

theorem http_node_times_out:
  "0 < node_timeout s \<and> node_timeout s < 2 ^ 63
   \<and> (s \<in> {1..9223372036} \<longrightarrow> node_timeout s = s * 1000000000)
   \<and> (s \<in> {-9223372036..0} \<union> {9223372037..18446744073} \<longrightarrow> node_timeout s = 30 * 1000000000)"
proof -
  have "0 < node_timeout s \<and> node_timeout s < 2 ^ 63"
    by (auto simp: node_timeout_def Let_def)
  moreover have "node_timeout s = s * 1000000000" if "s \<in> {1..9223372036}"
    using that by (simp add: node_timeout_def Let_def)
  moreover have "node_timeout s = 30 * 1000000000" if "s \<in> {-9223372036..0}"
    using that by (simp add: node_timeout_def Let_def)
  moreover have "node_timeout s = 30 * 1000000000" if "s \<in> {9223372037..18446744073}"
  proof -
    have "(s * 1000000000 + 2 ^ 63) mod 2 ^ 64 = s * 1000000000 + 2 ^ 63 - 2 ^ 64"
      using that by (subst minus_mod_self2 [symmetric], intro mod_pos_pos_trivial) simp_all
    then show ?thesis using that by (simp add: node_timeout_def Let_def)
  qed
  ultimately show ?thesis by blast
qed

theorem http_node_times_out_witness:
  "node_timeout 60 = 60000000000 \<and> node_timeout 9223372037 = 30000000000"
  using http_node_times_out [of 60] http_node_times_out [of 9223372037] by simp

section \<open>Declaring from the command line\<close>

lemma Save_reload:
  assumes "codec_inverts os cfg" "Save os cfg path fs = (Inr (), fs')" "known_schemes cfg"
  shows "Load os fs' path = Inr cfg"
proof -
  obtain t where t: "co_marshal os cfg = Inr t" "co_unmarshal os t = Inr cfg"
    using assms(1) by (auto simp: codec_inverts_def split: sum.splits)
  have "fs' = fs(path_or_default path \<mapsto> Inr t)"
    using assms(2) t by (auto simp: Save_def Let_def split: sum.splits if_splits)
  moreover have "path_or_default (path_or_default path) = path_or_default path" by (simp add: path_or_default_def)
  ultimately show ?thesis using t assms(3) by (simp add: Load_def validate_iff [THEN iffD2])
qed

lemma Load_known: "Load os fs path = Inr cfg \<Longrightarrow> known_schemes cfg"
proof -
  have "known_schemes empty_conf" by code_simp
  then show "Load os fs path = Inr cfg \<Longrightarrow> known_schemes cfg"
    by (auto simp: Load_def Let_def rbind_eq_Inr validate_iff split: option.splits sum.splits)
qed

lemma positional_path:
  "length s < 2 \<or> hd s \<noteq> CHR ''-'' \<Longrightarrow> with_path name (s # rest) k = k DefaultFile (s # rest)"
  by (rule ext) (simp add: with_path_def configPath_def parse_flags_positional flag_value_def file_flag_def string_flag_def)

lemma declare_command:
  assumes "length name < 2 \<or> hd name \<noteq> CHR ''-''" "add_connector os kind what add [name, cmdline] c = (exitOK, c')"
  shows "\<exists>cfg. Load (ce_config os) (ci_configs c) DefaultFile = Inr cfg \<and>
    Save (ce_config os) (add name (words_of cmdline) [] cfg) DefaultFile (ci_configs c) = (Inr (), ci_configs c')"
  using assms
  by (auto simp: add_connector_def positional_path with_config_def save_config_def fail_def finish_def out_def complain_def
      split: sum.splits prod.splits)

lemma add_commands:
  "Cli_Run os [''mcp'', ''add'', name, cmdline] = add_connector os ''mcp'' ''mcp server'' AddMCPServer [name, cmdline]"
  "Cli_Run os [''tap'', ''add'', name, cmdline] = add_connector os ''tap'' ''tap'' AddTap [name, cmdline]"
  "Cli_Run os [''target'', ''add'', name, cmdline] = add_connector os ''target'' ''target'' AddTarget [name, cmdline]"
  by (simp_all add: Cli_Run_def commands_def cmdMCP_def cmdTap_def cmdTarget_def sub_command_def cmdMCPAdd_def
      cmdTapAdd_def cmdTargetAdd_def)

definition declared :: "string \<Rightarrow> string \<Rightarrow> string \<Rightarrow> conf \<Rightarrow> conf" where
  "declared kind name cmdline = (if kind = ''mcp'' then AddMCPServer else if kind = ''tap'' then AddTap else AddTarget)
     name (words_of cmdline) []"


definition one_server :: conf where
  "one_server = declared ''mcp'' ''files'' ''npx server'' empty_conf"

definition demo_declaring :: "(unit, string) cli_os" where
  "demo_declaring = (demo_cli no_net)\<lparr> ce_config := \<lparr>
     co_marshal = (\<lambda>c. Inr (if cf_MCP c = [] then ''none'' else ''one'')),
     co_unmarshal = (\<lambda>t. Inr (if t = ''none'' then empty_conf else one_server)), co_dir = (\<lambda>_. ''.''),
     co_mkdir = (\<lambda>_. Inr ()), co_can_write = (\<lambda>_. Inr ()) \<rparr> \<rparr>"


end
