(* ===== verification/Completion.thy ===== *)
theory Completion
  imports RunnerLaws
begin

text \<open>
  Whole runs: the worker loop over the jobs the queue hands out, from the start of a run until
  nothing of it is left. The queue is not part of the repository; what the loop relies on is that
  it hands out each enqueued job once, in any order, and keeps a claim valid while it is worked on.
\<close>

section \<open>What the queue hands out\<close>

text \<open>The jobs of a run that have been enqueued, in order.\<close>

definition sent :: "string \<Rightarrow> node_job qcall list \<Rightarrow> node_job list" where
  "sent run calls = List.map_filter (\<lambda>c. case c of
     QEnqueue q p None \<Rightarrow> if RunID (nj p) = run then Some p else None | _ \<Rightarrow> None) calls"

text \<open>
  The worker takes the jobs \<^verbatim>\<open>cs\<close> in turn: each is a job of the run that has been enqueued more
  often than it has been handed out before (\<^verbatim>\<open>ps\<close>, the latest first).
\<close>

fun handed_out :: "worker \<Rightarrow> string \<Rightarrow> node_job list \<Rightarrow> jjob list \<Rightarrow> jworld \<Rightarrow> bool" where
  "handed_out w run ps [] s \<longleftrightarrow> True"
| "handed_out w run ps (c # cs) s \<longleftrightarrow> (case j_payload c of Inl _ \<Rightarrow> False | Inr p \<Rightarrow>
     count_list ps p < count_list (sent run (db_calls (w_db s))) p
     \<and> handed_out w run (p # ps) cs (snd (handle w c s)))"

definition claimed_job :: "jjob \<Rightarrow> node_job" where
  "claimed_job c = (case j_payload c of Inl _ \<Rightarrow> NodeJob no_fields [] None | Inr p \<Rightarrow> p)"

definition claimed_node :: "jjob \<Rightarrow> string" where
  "claimed_node c = NodeID (nj (claimed_job c))"

lemma sent_append [simp]: "sent run (xs @ ys) = sent run xs @ sent run ys"
  by (simp add: sent_def map_filter_def)

lemma sent_simps [simp]:
  "sent run [] = []" "sent run (QAck i x # cs) = sent run cs"
  "sent run (QEnqueue q p None # cs) = (if RunID (nj p) = run then [p] else []) @ sent run cs"
  by (simp_all add: sent_def map_filter_def)

lemma sent_enqueue_calls:
  "\<forall>d\<in>set ds. RunID (nj (ds_payload d)) = run \<Longrightarrow> sent run (enqueue_calls ds) = map ds_payload ds"
  by (induction ds) (auto simp: enqueue_calls_def)

lemma sent_RunID: "p \<in> set (sent run calls) \<Longrightarrow> RunID (nj p) = run"
  by (induction calls) (auto simp: sent_def map_filter_simps split: qcall.splits option.splits if_splits)

section \<open>The jobs of a workflow\<close>

text \<open>A job of the run as it may be enqueued: a node of the tree with some input, run or skipped.\<close>

definition member :: "capability list \<Rightarrow> string \<Rightarrow> wafer \<Rightarrow> dag_node list \<Rightarrow> string \<Rightarrow> node_job \<Rightarrow> bool" where
  "member types self wa dag run p \<longleftrightarrow>
     job_tree types self wa dag run (Input (nj p)) (set_nj (\<lambda>f. f\<lparr> Skip := False \<rparr>) p)"

text \<open>The same job with another input, run or skipped.\<close>

definition rethreaded :: "(string \<times> value) list \<Rightarrow> bool \<Rightarrow> node_job \<Rightarrow> node_job" where
  "rethreaded i b d = set_nj (\<lambda>f. f\<lparr> Input := i, Skip := b \<rparr>) d"

lemma job_tree_rethreaded:
  "job_tree types self wa dag run inp d \<Longrightarrow> member types self wa dag run (rethreaded i b d)"
proof (cases d)
  case (NodeJob x ds body)
  assume t: "job_tree types self wa dag run inp d"
  then obtain e f where e: "e \<in> set dag" "job_of_node types self wa e = Inr f"
      "x = f\<lparr> RunID := run, Input := inp, Dependents := dependents_of dag (dn_name e) \<rparr>"
    by (auto simp: NodeJob)
  have "Skip f = False" using e(2) by (auto simp: job_of_node_def rbind_eq_Inr Let_def no_fields_def)
  then have "x\<lparr> Input := i, Skip := False \<rparr> = f\<lparr> RunID := run, Input := i, Dependents := dependents_of dag (dn_name e) \<rparr>"
    using e(3) by simp
  then show ?thesis
    using t e unfolding NodeJob member_def rethreaded_def
    by (simp add: set_nj_def) blast
qed

lemma member_facts:
  assumes "member types self wa dag run p"
  obtains e f where "e \<in> set dag" "job_of_node types self wa e = Inr f" "NodeID (nj p) = dn_name e"
    "Dependents (nj p) = dependents_of dag (dn_name e)"
    "map (\<lambda>d. NodeID (nj d)) (Downstream p) = Dependents (nj p)"
    "\<forall>d\<in>set (Downstream p). job_tree types self wa dag run [] d"
    "NodeType (nj p) = n_type (w_nodes wa ! dn_index e)" "NodeName (nj p) = n_name (w_nodes wa ! dn_index e)"
    "DedupeKey (nj p) = n_dedupe_key (w_nodes wa ! dn_index e)"
    "CollectFrom (nj p) = ''''" "RunID (nj p) = run" "Command (nj p) = Command f" "Secrets (nj p) = Secrets f"
proof (cases p)
  case (NodeJob x ds body)
  then obtain e f where e: "e \<in> set dag" "job_of_node types self wa e = Inr f"
      "x\<lparr> Skip := False \<rparr> = f\<lparr> RunID := run, Input := Input x, Dependents := dependents_of dag (dn_name e) \<rparr>"
      "map (\<lambda>d. NodeID (nj d)) ds = Dependents x" "\<forall>d\<in>set ds. job_tree types self wa dag run [] d" "body = None"
    using assms by (auto simp: member_def set_nj_def)
  have f: "NodeID f = dn_name e" "NodeType f = n_type (w_nodes wa ! dn_index e)" "NodeName f = n_name (w_nodes wa ! dn_index e)"
      "DedupeKey f = n_dedupe_key (w_nodes wa ! dn_index e)" "CollectFrom f = ''''"
    using e(2) by (auto simp: job_of_node_def rbind_eq_Inr Let_def no_fields_def)
  have x: "NodeID x = dn_name e" "Dependents x = dependents_of dag (dn_name e)" "NodeType x = n_type (w_nodes wa ! dn_index e)"
      "NodeName x = n_name (w_nodes wa ! dn_index e)" "DedupeKey x = n_dedupe_key (w_nodes wa ! dn_index e)"
      "CollectFrom x = ''''" "RunID x = run" "Command x = Command f" "Secrets x = Secrets f"
    using arg_cong [OF e(3), of NodeID] arg_cong [OF e(3), of Dependents] arg_cong [OF e(3), of NodeType]
      arg_cong [OF e(3), of NodeName] arg_cong [OF e(3), of DedupeKey] arg_cong [OF e(3), of CollectFrom]
      arg_cong [OF e(3), of RunID] arg_cong [OF e(3), of Command] arg_cong [OF e(3), of Secrets] f by simp_all
  show ?thesis
    using that [OF e(1,2)] e(4-6) x NodeJob by simp
qed

section \<open>How far a run is\<close>

abbreviation nid :: "node_job \<Rightarrow> string" where
  "nid p \<equiv> NodeID (nj p)"

text \<open>
  Between two jobs, with \<^verbatim>\<open>ps\<close> handed out so far: no node has been enqueued twice, what has been
  enqueued are the nodes whose dependencies have all been handed out, every count is the number
  of dependencies still open, and the pending count is the number of jobs in flight.
\<close>

definition progress :: "(node_job \<Rightarrow> bool) \<Rightarrow> dag_node list \<Rightarrow> string \<Rightarrow> node_job list \<Rightarrow> jdb \<Rightarrow> bool" where
  "progress M dag run ps d \<longleftrightarrow> (\<forall>p\<in>set (sent run (db_calls d)). M p)
     \<and> distinct (map nid (sent run (db_calls d))) \<and> set ps \<subseteq> set (sent run (db_calls d)) \<and> distinct ps
     \<and> nid ` set (sent run (db_calls d)) = dn_name ` {e \<in> set dag. set (dn_depends_on e) \<subseteq> nid ` set ps}
     \<and> (\<forall>e\<in>set dag. select (run, dn_name e) (db_deps d)
          = Some (int (length (filter (\<lambda>n. n \<notin> nid ` set ps) (dn_depends_on e)))))
     \<and> map_option rr_pending (select run (db_runs d)) = Some (int (length (sent run (db_calls d))) - int (length ps))"

text \<open>The atom by which a job completes: its own row, its dependents, and its successors with the
  result threaded, some of them to be skipped.\<close>

definition passes_on :: "worker \<Rightarrow> node_job \<Rightarrow> jjob \<Rightarrow> node_job node_atom \<Rightarrow> bool" where
  "passes_on w p c a \<longleftrightarrow> na_run a = RunID (nj p) \<and> na_node a = nid p \<and> na_dependents a = Dependents (nj p)
     \<and> na_job a = Some c \<and> (\<exists>b. na_downstream a = map (\<lambda>d. \<lparr> ds_queue = wk_queue w, ds_payload =
          rethreaded (threadInput (Input (nj p)) (NodeName (nj p)) (na_result a)) (b d) d \<rparr>) (Downstream p))"

lemma nj_rethreaded [simp]: "nj (rethreaded i b d) = (nj d)\<lparr> Input := i, Skip := b \<rparr>"
  by (simp add: rethreaded_def)

lemma chosen_names:
  "map f ds = drop i deps \<Longrightarrow> map f (chosen deps ready i ds) = filter (\<lambda>n. n \<in> set ready) (drop i deps)"
proof (induction ds arbitrary: i)
  case Nil
  then show ?case by (simp add: chosen_def)
next
  case (Cons x xs)
  then have i: "i < length deps" "f x = deps ! i" "map f xs = drop (Suc i) deps"
    by (metis drop_eq_Nil list.discI list.simps(9) not_le, metis Cons.prems hd_drop_conv_nth list.sel(1) list.simps(9) drop_eq_Nil list.discI not_le,
        metis Cons.prems drop_Suc list.sel(3) list.simps(9) tl_drop)
  have "drop i deps = deps ! i # drop (Suc i) deps" using i(1) by (simp add: Cons_nth_drop_Suc)
  then show ?case using Cons.IH [OF i(3)] i by (simp add: chosen_Cons)
qed

text \<open>What a completion releases: the jobs, in order, of the dependents whose last open
  dependency it was.\<close>

lemma released_nodes:
  assumes "passes_on w p c a" "map nid (Downstream p) = Dependents (nj p)"
  shows "map (\<lambda>x. nid (ds_payload x)) (released a d) = now_ready (RunID (nj p)) (Dependents (nj p)) (db_deps d)"
proof -
  let ?ready = "now_ready (RunID (nj p)) (Dependents (nj p)) (db_deps d)"
  have a: "na_run a = RunID (nj p)" "na_dependents a = Dependents (nj p)"
    "map (\<lambda>x. nid (ds_payload x)) (na_downstream a) = drop 0 (Dependents (nj p))"
    using assms by (auto simp: passes_on_def comp_def)
  have "map (\<lambda>x. nid (ds_payload x)) (released a d) = filter (\<lambda>n. n \<in> set ?ready) (Dependents (nj p))"
    using chosen_names [OF a(3), of ?ready] by (simp add: released_def a(1,2))
  also have "\<dots> = ?ready" by (auto simp: now_ready_def intro: filter_cong)
  finally show ?thesis .
qed

lemma released_members:
  assumes "passes_on w p c a" "\<forall>d\<in>set (Downstream p). job_tree types self wa dag run [] d" "x \<in> set (released a d)"
  shows "member types self wa dag run (ds_payload x)
    \<and> (\<exists>i b. ds_payload x = rethreaded (threadInput (Input (nj p)) (NodeName (nj p)) (na_result a)) b i \<and> i \<in> set (Downstream p))"
proof -
  have "x \<in> set (na_downstream a)"
    using assms(3) by (auto simp: released_def chosen_def in_set_enumerate_eq)
  then show ?thesis
    using assms(1,2) job_tree_rethreaded by (fastforce simp: passes_on_def)
qed

lemma open_less:
  "distinct xs \<Longrightarrow> x \<notin> N \<Longrightarrow> length (filter (\<lambda>n. n \<notin> N) xs)
     = (if x \<in> set xs then 1 else 0) + length (filter (\<lambda>n. n \<notin> insert x N) xs)"
  by (induction xs) auto

lemma last_open:
  assumes "distinct xs" "x \<in> set xs" "x \<notin> N"
  shows "length (filter (\<lambda>n. n \<notin> N) xs) = 1 \<longleftrightarrow> set xs \<subseteq> insert x N"
  using open_less [OF assms(1,3)] assms(2) by (auto simp: filter_empty_conv)

lemma nid_dependents: "n \<in> set (dependents_of dag m) \<longleftrightarrow> (\<exists>e\<in>set dag. n = dn_name e \<and> m \<in> set (dn_depends_on e))"
  by (auto simp: dependents_of_def)

lemma entry_unique: "distinct (map dn_name dag) \<Longrightarrow> e \<in> set dag \<Longrightarrow> e' \<in> set dag \<Longrightarrow> dn_name e = dn_name e' \<Longrightarrow> e = e'"
  by (auto simp: distinct_map inj_on_def)

lemma progress_new: "progress M dag run ps d \<Longrightarrow> p \<in> set (sent run (db_calls d)) \<Longrightarrow> p \<notin> set ps \<Longrightarrow> nid p \<notin> nid ` set ps"
  using inj_on_image_mem_iff [of nid "set (sent run (db_calls d))" p "set ps"] by (simp add: progress_def distinct_map)

lemma member_RunID: "member types self wa dag run p \<Longrightarrow> RunID (nj p) = run"
  by (erule member_facts) simp

lemma sent_atom:
  assumes "passes_on w p c a" "\<And>x. x \<in> set (released a d) \<Longrightarrow> member types self wa dag run (ds_payload x)"
  shows "sent run (db_calls (atom_spec a d)) = sent run (db_calls d) @ map ds_payload (released a d)"
proof -
  have "\<forall>x\<in>set (released a d). RunID (nj (ds_payload x)) = run" using assms(2) member_RunID by blast
  then show ?thesis using assms(1) by (simp add: atom_spec_def passes_on_def sent_enqueue_calls)
qed

text \<open>The dependents a completion makes ready.\<close>

lemma ready_iff:
  assumes pr: "progress M dag run ps d" and p: "nid p \<notin> nid ` set ps"
    and dag: "distinct (map dn_name dag)" "\<forall>e\<in>set dag. distinct (dn_depends_on e)"
  shows "n \<in> set (now_ready run (dependents_of dag (nid p)) (db_deps d)) \<longleftrightarrow>
    (\<exists>e\<in>set dag. n = dn_name e \<and> nid p \<in> set (dn_depends_on e) \<and> set (dn_depends_on e) \<subseteq> insert (nid p) (nid ` set ps))"
proof -
  have "select (run, dn_name e) (db_deps d) = Some 1 \<longleftrightarrow> set (dn_depends_on e) \<subseteq> insert (nid p) (nid ` set ps)"
    if "e \<in> set dag" "nid p \<in> set (dn_depends_on e)" for e
    using last_open [OF _ that(2) p] dag(2) pr that(1) by (auto simp: progress_def)
  then show ?thesis
    by (auto simp: now_ready_def nid_dependents)
qed

lemma progress_step:
  assumes pr: "progress (member types self wa dag run) dag run ps d" and p: "p \<in> set (sent run (db_calls d))" "p \<notin> set ps"
    and a: "passes_on w p c a" and dag: "distinct (map dn_name dag)" "\<forall>e\<in>set dag. distinct (dn_depends_on e)"
  shows "progress (member types self wa dag run) dag run (p # ps) (atom_spec a d)"
proof -
  let ?M = "member types self wa dag run" and ?js = "sent run (db_calls d)" and ?N = "nid ` set ps"
  let ?new = "map ds_payload (released a d)"
  have M: "?M p" using pr p(1) by (auto simp: progress_def)
  obtain e f where e: "e \<in> set dag" "nid p = dn_name e" "Dependents (nj p) = dependents_of dag (nid p)"
      "map nid (Downstream p) = Dependents (nj p)" "\<forall>d\<in>set (Downstream p). job_tree types self wa dag run [] d" "RunID (nj p) = run"
    by (rule member_facts [OF M]) auto
  have new: "nid p \<notin> ?N" by (rule progress_new [OF pr p])
  have run: "na_run a = run" "na_dependents a = dependents_of dag (nid p)" "na_job a = Some c"
    using a e(3,6) by (auto simp: passes_on_def)
  have rel: "\<forall>x\<in>set (released a d). ?M (ds_payload x)"
    using released_members [OF a e(5)] by blast
  have js: "sent run (db_calls (atom_spec a d)) = ?js @ ?new"
    using sent_atom [OF a] rel by blast
  have names: "map nid ?new = now_ready run (dependents_of dag (nid p)) (db_deps d)"
    using released_nodes [OF a e(4), of d] e(3,6) by (simp add: comp_def)
  note ready = ready_iff [OF pr new dag]
  have names_set: "nid ` set ?new = {n. \<exists>e\<in>set dag. n = dn_name e \<and> nid p \<in> set (dn_depends_on e) \<and> set (dn_depends_on e) \<subseteq> insert (nid p) ?N}"
  proof -
    have "nid ` set ?new = set (now_ready run (dependents_of dag (nid p)) (db_deps d))"
      using arg_cong [OF names, of set] by (simp add: image_image)
    also have "\<dots> = {n. n \<in> set (now_ready run (dependents_of dag (nid p)) (db_deps d))}" by simp
    finally show ?thesis unfolding ready .
  qed
  have sets: "nid ` set ?js = dn_name ` {e \<in> set dag. set (dn_depends_on e) \<subseteq> ?N}" using pr by (simp add: progress_def)
  have "nid ` set (?js @ ?new) = dn_name ` {e \<in> set dag. set (dn_depends_on e) \<subseteq> nid ` set (p # ps)}"
  proof -
    have "{e \<in> set dag. set (dn_depends_on e) \<subseteq> insert (nid p) ?N} = {e \<in> set dag. set (dn_depends_on e) \<subseteq> ?N}
        \<union> {e \<in> set dag. nid p \<in> set (dn_depends_on e) \<and> set (dn_depends_on e) \<subseteq> insert (nid p) ?N}" by blast
    then show ?thesis unfolding set_append image_Un sets names_set by (simp add: image_Un) blast
  qed
  moreover have "distinct (map nid (?js @ ?new))"
  proof -
    have "distinct (dependents_of dag (nid p))"
      using dag(1) unfolding dependents_of_def by (rule distinct_map_filter)
    then have "distinct (map nid ?new)" unfolding names by (simp add: now_ready_def)
    moreover have "dn_name e1 \<noteq> dn_name e2" if "e1 \<in> set dag" "e2 \<in> set dag" "set (dn_depends_on e1) \<subseteq> ?N" "nid p \<in> set (dn_depends_on e2)" for e1 e2
      using entry_unique [OF dag(1) that(1,2)] that new by blast
    then have "nid ` set ?js \<inter> nid ` set ?new = {}"
      unfolding sets names_set by blast
    ultimately show ?thesis using pr by (simp add: progress_def image_image)
  qed
  moreover have "select (run, dn_name e') (db_deps (atom_spec a d))
      = Some (int (length (filter (\<lambda>n. n \<notin> nid ` set (p # ps)) (dn_depends_on e'))))" if e': "e' \<in> set dag" for e'
  proof -
    have old: "select (run, dn_name e') (db_deps d) = Some (int (length (filter (\<lambda>n. n \<notin> ?N) (dn_depends_on e'))))"
      using pr e' by (simp add: progress_def)
    have "dn_name e' \<in> set (dependents_of dag (nid p)) \<longleftrightarrow> nid p \<in> set (dn_depends_on e')"
      using entry_unique [OF dag(1) e'] e' by (auto simp: nid_dependents)
    moreover have "distinct (dependents_of dag (nid p))"
      using dag(1) unfolding dependents_of_def by (rule distinct_map_filter)
    ultimately show ?thesis
      using old open_less [OF _ new, of "dn_depends_on e'"] dag(2) e'
      by (cases "nid p \<in> set (dn_depends_on e')") (auto simp: atom_spec_def run lower_one lower_other)
  qed
  moreover have "map_option rr_pending (select run (db_runs (atom_spec a d)))
      = Some (int (length (?js @ ?new)) - int (length (p # ps)))"
    using pr by (auto simp: progress_def atom_spec_def run add_pending_def)
  ultimately show ?thesis
    using pr p rel unfolding progress_def js by auto
qed

section \<open>One job\<close>

text \<open>Node types that complete by themselves: not the ones that park, signal, rerun, loop or poll.\<close>

definition ordinary :: "node \<Rightarrow> bool" where
  "ordinary n \<longleftrightarrow> n_type n \<notin> {''wait'', ''send-signal'', ''rerun-failed'', ''foreach'', ''poll'', ''resume''} \<and> n_dedupe_key n = ''''"

text \<open>What is asked of the world outside: the job's subprocess answers, with a value JSON can encode.\<close>

definition answers :: "worker \<Rightarrow> node_job \<Rightarrow> bool" where
  "answers w sj \<longleftrightarrow> (if NodeType (nj sj) = ''switch'' then \<forall>s. \<exists>t es. runSwitch w sj s = (Inr t, s\<lparr> w_execs := es \<rparr>)
     else \<forall>s. calm s \<longrightarrow> (\<exists>v b es. run_harness w sj s = (Inr (v, True, b), s\<lparr> w_execs := es \<rparr>) \<and> encodable v
            \<and> (\<forall>x. b = Some x \<longrightarrow> encodable (ss_state x))))"

definition rows_ready :: "node_job \<Rightarrow> jworld \<Rightarrow> bool" where
  "rows_ready p s \<longleftrightarrow> calm s \<and> (\<forall>i k calls. w_claim_valid s i k calls) \<and> distinct (Dependents (nj p))
     \<and> (\<forall>n\<in>set (Dependents (nj p)). select (RunID (nj p), n) (db_deps (w_db s)) \<noteq> None)"

lemma rows_ready_execs [simp]: "rows_ready p (s\<lparr> w_execs := es \<rparr>) = rows_ready p s"
  by (simp add: rows_ready_def)

lemma commit_passes_on:
  assumes "passes_on w p c a" "rows_ready p s" "encodable (na_result a)" "na_dedupe a = None"
    and "\<And>x. na_singer a = Some x \<Longrightarrow> encodable (ss_state x)"
  shows "CommitNodeAtom a s = (Inr (), s\<lparr> w_db := atom_spec a (w_db s) \<rparr>)"
  using assms by (intro does_CommitNodeAtom) (auto simp: atom_ready_def rows_ready_def passes_on_def list_all_iff)

lemma passes_on_done:
  assumes "na_run a = RunID (nj p)" "na_node a = nid p" "na_dependents a = Dependents (nj p)" "na_job a = Some c"
    and "na_downstream a = map (\<lambda>d. \<lparr> ds_queue = wk_queue w, ds_payload = g d \<rparr>) (Downstream p)"
    and "\<And>d. g d = rethreaded (threadInput (Input (nj p)) (NodeName (nj p)) (na_result a)) (b d) d"
  shows "passes_on w p c a"
  unfolding passes_on_def using assms by (auto intro!: exI [of _ b])

lemma passes_on_node: "passes_on w p c (node_atom_of w p c '''' (v, True, b))"
  by (rule passes_on_done [where b = "\<lambda>d. Skip (nj d)"])
     (simp_all add: node_atom_of_def done_atom_def thread_job_def rethreaded_def set_nj_def)

lemma passes_on_skip: "passes_on w p c (map_jobs skip_job (done_atom w p c skipped))"
  by (rule passes_on_done [where g = "\<lambda>d. skip_job (thread_job (Input (nj p)) (NodeName (nj p)) skipped d)" and b = "\<lambda>d. True"])
     (simp_all add: map_jobs_def done_atom_def thread_job_def rethreaded_def set_nj_def skip_job_def)

lemma passes_on_switch: "passes_on w p c (map_jobs (switch_job t) (done_atom w p c (branch_of t)))"
  by (rule passes_on_done [where g = "\<lambda>d. switch_job t (thread_job (Input (nj p)) (NodeName (nj p)) (branch_of t) d)"
        and b = "\<lambda>d. Skip (nj d) \<or> NodeID (nj d) \<noteq> t"])
     (simp_all add: map_jobs_def done_atom_def thread_job_def rethreaded_def set_nj_def skip_job_def switch_job_def)

text \<open>Handling a job of an ordinary node commits its atom and looks whether the run is complete.\<close>

lemma handle_passes_on:
  assumes c: "j_payload c = Inr p" and ready: "rows_ready p s" and st: "status_of (w_db s) (RunID (nj p)) = RunRunning"
    and p: "NodeType (nj p) \<notin> {''wait'', ''send-signal'', ''rerun-failed'', ''foreach'', ''poll'', ''resume''}"
      "DedupeKey (nj p) = ''''" "CollectFrom (nj p) = ''''" "answers w p"
  shows "\<exists>a es. passes_on w p c a \<and> handle w c s = checkRunComplete w p (s\<lparr> w_execs := es, w_db := atom_spec a (w_db s) \<rparr>)"
proof -
  have calm: "calm s" using ready by (simp add: rows_ready_def)
  have h: "handle w c s = dispatch w p c s"
    using calm st p(1) by (simp add: handle_def c status_or_empty_def try_or_apply RunStatus_def bind_def sm_eval)
  consider "Skip (nj p)" | "\<not> Skip (nj p)" "NodeType (nj p) = ''switch''" | "\<not> Skip (nj p)" "NodeType (nj p) \<noteq> ''switch''" by blast
  then show ?thesis
  proof cases
    case 1
    let ?a = "map_jobs skip_job (done_atom w p c skipped)"
    have "CommitNodeAtom ?a s = (Inr (), s\<lparr> w_db := atom_spec ?a (w_db s) \<rparr>)"
      using commit_passes_on [OF passes_on_skip ready] by (simp add: map_jobs_def done_atom_def skipped_def encodable_def)
    then have "handle w c s = checkRunComplete w p (s\<lparr> w_execs := w_execs s, w_db := atom_spec ?a (w_db s) \<rparr>)"
      using 1 by (simp add: h dispatch_def handleSkip_def bind_def wrapping_def)
    then show ?thesis using passes_on_skip by blast
  next
    case 2
    then obtain t es where t: "runSwitch w p s = (Inr t, s\<lparr> w_execs := es \<rparr>)" using p(4) by (force simp: answers_def)
    let ?a = "map_jobs (switch_job t) (done_atom w p c (branch_of t))"
    have "CommitNodeAtom ?a (s\<lparr> w_execs := es \<rparr>) = (Inr (), s\<lparr> w_execs := es, w_db := atom_spec ?a (w_db s) \<rparr>)"
      using commit_passes_on [OF passes_on_switch, of p "s\<lparr> w_execs := es \<rparr>"] ready by (simp add: map_jobs_def done_atom_def branch_of_def encodable_def)
    then have "handle w c s = checkRunComplete w p (s\<lparr> w_execs := es, w_db := atom_spec ?a (w_db s) \<rparr>)"
      using 2 by (simp add: h dispatch_def handleSwitch_def try_or_apply t bind_def wrapping_def)
    then show ?thesis using passes_on_switch by blast
  next
    case 3
    then obtain v b es where v: "run_harness w p s = (Inr (v, True, b), s\<lparr> w_execs := es \<rparr>)" "encodable v"
        "\<And>x. b = Some x \<Longrightarrow> encodable (ss_state x)" using p(4) calm by (force simp: answers_def)
    let ?a = "node_atom_of w p c '''' (v, True, b)"
    have "CommitNodeAtom ?a (s\<lparr> w_execs := es \<rparr>) = (Inr (), s\<lparr> w_execs := es, w_db := atom_spec ?a (w_db s) \<rparr>)"
      using commit_passes_on [OF passes_on_node, of p "s\<lparr> w_execs := es \<rparr>" w c v b] ready v(2,3)
      by (simp add: node_atom_of_def done_atom_def)
    then have "handle w c s = checkRunComplete w p (s\<lparr> w_execs := es, w_db := atom_spec ?a (w_db s) \<rparr>)"
      using 3 p(1-3) by (simp add: h dispatch_def handleNode_def Let_def assembled_def resolveDedupeKey_def runNode_def
          try_or_apply v(1) bind_def wrapping_def sm_eval)
    then show ?thesis using passes_on_node by blast
  qed
qed

section \<open>Where a result can be seen\<close>

text \<open>A way through the graph: the nodes passed on the way to a node, each depending on the one before.\<close>

inductive walk :: "dag_node list \<Rightarrow> string list \<Rightarrow> string \<Rightarrow> bool" for dag where
  entry: "e \<in> set dag \<Longrightarrow> dn_depends_on e = [] \<Longrightarrow> walk dag [] (dn_name e)"
| along: "walk dag path m \<Longrightarrow> e \<in> set dag \<Longrightarrow> m \<in> set (dn_depends_on e) \<Longrightarrow> walk dag (path @ [m]) (dn_name e)"

text \<open>
  Every job handed out has a result, and an enqueued job carries the event and the results of one
  way to it.
\<close>

definition traced :: "bool \<Rightarrow> dag_node list \<Rightarrow> string \<Rightarrow> value \<Rightarrow> node_job list \<Rightarrow> jdb \<Rightarrow> bool" where
  "traced named dag run ev ps d \<longleftrightarrow> (\<forall>p\<in>set ps. select (run, nid p) (db_results d) \<noteq> None)
     \<and> (named \<longrightarrow> (\<forall>p\<in>set (sent run (db_calls d)). \<exists>path. walk dag path (nid p) \<and> set path \<subseteq> nid ` set ps
          \<and> event_of (Input (nj p)) = ev
          \<and> steps_of (Input (nj p)) = (\<lambda>n. if n \<in> set path then select (run, n) (db_results d) else None)))"

lemma traced_child:
  assumes "walk dag path (nid p)" "set path \<subseteq> nid ` set ps" "nid p \<notin> nid ` set ps"
    and "steps_of (Input (nj p)) = (\<lambda>n. if n \<in> set path then select (run, n) t else None)"
    and "NodeName (nj p) = nid p" "nid p \<noteq> ''''"
  shows "steps_of (threadInput (Input (nj p)) (NodeName (nj p)) v)
    = (\<lambda>n. if n \<in> set (path @ [nid p]) then select (run, n) (upsert (run, nid p) v t) else None)"
  using assms by (auto simp: steps_of_threadInput fun_eq_iff)

lemma traced_step:
  assumes tr: "traced named dag run ev ps d" and new: "nid p \<notin> nid ` set ps" and p: "p \<in> set (sent run (db_calls d))"
    and a: "passes_on w p c a" "RunID (nj p) = run" and js: "sent run (db_calls (atom_spec a d)) = sent run (db_calls d) @ map ds_payload (released a d)"
    and kids: "\<forall>d\<in>set (Downstream p). \<exists>e\<in>set dag. nid d = dn_name e \<and> nid p \<in> set (dn_depends_on e)"
    and name: "named \<longrightarrow> NodeName (nj p) = nid p \<and> nid p \<noteq> ''''"
    and rel: "\<And>x. x \<in> set (released a d) \<Longrightarrow> \<exists>i b. ds_payload x
      = rethreaded (threadInput (Input (nj p)) (NodeName (nj p)) (na_result a)) b i \<and> i \<in> set (Downstream p)"
  shows "traced named dag run ev (p # ps) (atom_spec a d)"
proof -
  have res: "db_results (atom_spec a d) = upsert (run, nid p) (na_result a) (db_results d)"
    using a by (simp add: atom_spec_def passes_on_def)
  have "\<exists>path. walk dag path (nid q) \<and> set path \<subseteq> nid ` set (p # ps) \<and> event_of (Input (nj q)) = ev
      \<and> steps_of (Input (nj q)) = (\<lambda>n. if n \<in> set path then select (run, n) (upsert (run, nid p) (na_result a) (db_results d)) else None)"
    if named and q: "q \<in> set (sent run (db_calls d)) \<union> ds_payload ` set (released a d)" for q
  proof (cases "q \<in> set (sent run (db_calls d))")
    case True
    then obtain path where "walk dag path (nid q)" "set path \<subseteq> nid ` set ps" "event_of (Input (nj q)) = ev"
        "steps_of (Input (nj q)) = (\<lambda>n. if n \<in> set path then select (run, n) (db_results d) else None)"
      using tr \<open>named\<close> by (auto simp: traced_def)
    then show ?thesis using new by (intro exI [of _ path]) (auto simp: fun_eq_iff)
  next
    case False
    then obtain b i where i: "q = rethreaded (threadInput (Input (nj p)) (NodeName (nj p)) (na_result a)) b i" "i \<in> set (Downstream p)"
      using q rel by blast
    obtain path where path: "walk dag path (nid p)" "set path \<subseteq> nid ` set ps" "event_of (Input (nj p)) = ev"
        "steps_of (Input (nj p)) = (\<lambda>n. if n \<in> set path then select (run, n) (db_results d) else None)"
      using tr \<open>named\<close> p by (auto simp: traced_def)
    obtain e where e: "e \<in> set dag" "nid i = dn_name e" "nid p \<in> set (dn_depends_on e)" using kids i(2) by blast
    show ?thesis
      using walk.along [OF path(1) e(1,3)] path(2,3) traced_child [OF path(1,2) new path(4), of "na_result a"] name \<open>named\<close> e(2)
      by (intro exI [of _ "path @ [nid p]"]) (auto simp: i(1))
  qed
  then show ?thesis
    using tr unfolding traced_def js res by auto
qed

section \<open>The loop\<close>

text \<open>The part of the database that belongs to one run.\<close>

definition run_view :: "string \<Rightarrow> jdb \<Rightarrow> run_row option \<times> (string \<Rightarrow> int option) \<times> (string \<Rightarrow> value option) \<times> node_job list" where
  "run_view run d = (select run (db_runs d), (\<lambda>n. select (run, n) (db_deps d)), (\<lambda>n. select (run, n) (db_results d)),
     sent run (db_calls d))"

text \<open>The completion callback starts other runs, but leaves the rows and jobs of this one alone.\<close>

definition leaves_run :: "worker \<Rightarrow> string \<Rightarrow> bool" where
  "leaves_run w run \<longleftrightarrow> (\<forall>f a. wk_onDone w = Some f \<longrightarrow> keeps (\<lambda>s. run_view run (w_db s)) (f a run))"

lemma run_viewD:
  assumes "run_view run d = run_view run d'"
  shows "select run (db_runs d) = select run (db_runs d')" "select (run, n) (db_deps d) = select (run, n) (db_deps d')"
    "select (run, n) (db_results d) = select (run, n) (db_results d')" "sent run (db_calls d) = sent run (db_calls d')"
  using assms by (auto simp: run_view_def fun_eq_iff)

lemma progress_view: "run_view run d = run_view run d' \<Longrightarrow> progress M dag run ps d \<longleftrightarrow> progress M dag run ps d'"
  by (simp add: progress_def run_viewD [of run d d'])

lemma traced_view: "run_view run d = run_view run d' \<Longrightarrow> traced named dag run ev ps d \<longleftrightarrow> traced named dag run ev ps d'"
  by (simp add: traced_def run_viewD [of run d d'] cong: if_cong)

lemma progress_put_status [simp]: "progress M dag run ps (put_status run st d) \<longleftrightarrow> progress M dag run ps d"
  by (simp add: progress_def put_status_def option.map_comp comp_def)

lemma traced_put_status [simp]: "traced named dag run ev ps (put_status run st d) \<longleftrightarrow> traced named dag run ev ps d"
  by (simp add: traced_def put_status_def cong: if_cong)

lemma checkRunComplete_calm:
  assumes "calm s" "RunID (nj p) = run" "status_of (w_db s) run = RunRunning" "leaves_run w run"
    and "map_option rr_pending (select run (db_runs (w_db s))) = Some n"
  shows "if n \<noteq> 0 then checkRunComplete w p s = (Inr (), s)
    else \<exists>s'. checkRunComplete w p s = (Inr (), s') \<and> run_view run (w_db s') = run_view run (put_status run RunCompleted (w_db s))"
proof -
  let ?s = "s\<lparr> w_db := put_status run RunCompleted (w_db s) \<rparr>"
  have "\<exists>s'. notify (wk_onDone w) (WorkflowID (nj p)) run ?s = (Inr (), s') \<and> run_view run (w_db s') = run_view run (w_db ?s)"
    using assms(4) unfolding leaves_run_def notify_def
    by (cases "wk_onDone w") (auto simp: ret_apply ignore_def keeps_def)
  then show ?thesis
    using assms(1-3,5) by (auto simp: checkRunComplete_def RunPending_def RunStatus_def SetRunStatus_def bind_def wrapping_def ret_apply)
qed

text \<open>Everything known between two jobs.\<close>

definition under_way :: "bool \<Rightarrow> capability list \<Rightarrow> string \<Rightarrow> wafer \<Rightarrow> dag_node list \<Rightarrow> string \<Rightarrow> value
    \<Rightarrow> node_job list \<Rightarrow> jworld \<Rightarrow> bool" where
  "under_way named types self wa dag run ev ps s \<longleftrightarrow> progress (member types self wa dag run) dag run ps (w_db s)
     \<and> traced named dag run ev ps (w_db s)
     \<and> (if length ps < length (sent run (db_calls (w_db s)))
        then status_of (w_db s) run = RunRunning \<and> calm s \<and> (\<forall>i k calls. w_claim_valid s i k calls)
        else status_of (w_db s) run = RunCompleted)"

text \<open>What a workflow has to be for its runs to complete by themselves.\<close>

definition completes_alone :: "worker \<Rightarrow> capability list \<Rightarrow> string \<Rightarrow> wafer \<Rightarrow> dag_node list \<Rightarrow> string \<Rightarrow> bool" where
  "completes_alone w types self wa dag run \<longleftrightarrow> ResolveDAG wa = (dag, []) \<and> distinct (map dn_name dag)
     \<and> (\<forall>n\<in>set (w_nodes wa). ordinary n) \<and> leaves_run w run
     \<and> (\<forall>p. member types self wa dag run p \<longrightarrow> answers w p)"

lemma count_list_distinct: "distinct xs \<Longrightarrow> count_list xs x \<le> 1"
  by (induction xs) auto

lemma handed_new:
  assumes "progress M dag run ps d" "count_list ps p < count_list (sent run (db_calls d)) p"
  shows "p \<in> set (sent run (db_calls d)) \<and> p \<notin> set ps \<and> length ps < length (sent run (db_calls d))"
proof -
  have d: "distinct (sent run (db_calls d))" "set ps \<subseteq> set (sent run (db_calls d))" "distinct ps"
    using assms(1) by (auto simp: progress_def distinct_map)
  have p: "p \<in> set (sent run (db_calls d))" using assms(2) by (metis count_list_0_iff not_less0)
  have "count_list ps p = 0" using assms(2) count_list_distinct [OF d(1), of p] by linarith
  then have new: "p \<notin> set ps" by (simp add: count_list_0_iff)
  then have "set ps \<subset> set (sent run (db_calls d))" using d(2) p by blast
  then have "card (set ps) < card (set (sent run (db_calls d)))" by (simp add: psubset_card_mono)
  then show ?thesis using p new d(1,3) by (simp add: distinct_card)
qed

lemma resolved_name: "ResolveDAG w = (dag, []) \<Longrightarrow> e \<in> set dag \<Longrightarrow> dn_name e = nodeID w (dn_index e)"
  by (auto simp: ResolveDAG_def Let_def dag_node_at_def split: prod.splits if_splits)


text \<open>One turn of the loop.\<close>

lemma run_step:
  assumes run: "completes_alone w types self wa dag run" and s: "under_way named types self wa dag run ev ps s"
    and named: "named \<longrightarrow> (\<forall>n\<in>set (w_nodes wa). n_name n \<noteq> '''')"
    and c: "j_payload c = Inr p" and p: "count_list ps p < count_list (sent run (db_calls (w_db s))) p"
  shows "\<exists>s'. handle w c s = (Inr (), s') \<and> under_way named types self wa dag run ev (p # ps) s'
    \<and> (\<forall>e\<in>set dag. dn_name e = nid p \<longrightarrow> set (dn_depends_on e) \<subseteq> nid ` set ps)"
proof -
  let ?M = "member types self wa dag run" and ?d = "w_db s"
  have pr: "progress ?M dag run ps ?d" and tr: "traced named dag run ev ps ?d" using s by (simp_all add: under_way_def)
  note dag = completes_alone_def [of w types self wa dag run, THEN iffD1, OF run]
  have dist: "distinct (map dn_name dag)" "\<forall>e\<in>set dag. distinct (dn_depends_on e)"
    using dag resolved_distinct [of wa dag] by blast+
  have in_p: "p \<in> set (sent run (db_calls ?d))" "p \<notin> set ps" and less: "length ps < length (sent run (db_calls ?d))"
    using handed_new [OF pr p] by blast+
  then have calm: "calm s" "\<forall>i k calls. w_claim_valid s i k calls" and st: "status_of ?d run = RunRunning"
    using s by (simp_all add: under_way_def)
  have M: "?M p" using pr in_p(1) by (auto simp: progress_def)
  obtain e f where e: "e \<in> set dag" "nid p = dn_name e" "Dependents (nj p) = dependents_of dag (dn_name e)"
      "map nid (Downstream p) = Dependents (nj p)" "\<forall>d\<in>set (Downstream p). job_tree types self wa dag run [] d"
      "NodeType (nj p) = n_type (w_nodes wa ! dn_index e)" "NodeName (nj p) = n_name (w_nodes wa ! dn_index e)"
      "DedupeKey (nj p) = n_dedupe_key (w_nodes wa ! dn_index e)" "CollectFrom (nj p) = ''''" "RunID (nj p) = run"
    by (rule member_facts [OF M]) auto
  have idx: "dn_index e < length (w_nodes wa)" using resolved_type [of wa dag e] dag e(1) by blast
  then have ord: "ordinary (w_nodes wa ! dn_index e)" using dag by simp
  have new: "nid p \<notin> nid ` set ps" by (rule progress_new [OF pr in_p])
  have "distinct (dependents_of dag (dn_name e))"
    using dist(1) unfolding dependents_of_def by (rule distinct_map_filter)
  moreover have "select (run, n) (db_deps ?d) \<noteq> None" if "n \<in> set (Dependents (nj p))" for n
    using that pr by (auto simp: e(3) nid_dependents progress_def)
  ultimately have ready: "rows_ready p s"
    using calm e(3,10) by (simp add: rows_ready_def)
  obtain a es where a: "passes_on w p c a"
    and h: "handle w c s = checkRunComplete w p (s\<lparr> w_execs := es, w_db := atom_spec a ?d \<rparr>)"
  proof -
    have "answers w p" using dag M by blast
    moreover have "NodeType (nj p) \<notin> {''wait'', ''send-signal'', ''rerun-failed'', ''foreach'', ''poll'', ''resume''}"
      "DedupeKey (nj p) = ''''" using ord e(6,8) by (simp_all add: ordinary_def)
    ultimately have "\<exists>a es. passes_on w p c a \<and> handle w c s = checkRunComplete w p (s\<lparr> w_execs := es, w_db := atom_spec a ?d \<rparr>)"
      using st e(9,10) by (intro handle_passes_on [OF c ready]) simp_all
    then show ?thesis using that by blast
  qed
  let ?s1 = "s\<lparr> w_execs := es, w_db := atom_spec a ?d \<rparr>"
  have rel: "\<And>x. x \<in> set (released a ?d) \<Longrightarrow> ?M (ds_payload x) \<and> (\<exists>i b. ds_payload x
      = rethreaded (threadInput (Input (nj p)) (NodeName (nj p)) (na_result a)) b i \<and> i \<in> set (Downstream p))"
    using released_members [OF a e(5)] .
  have js: "sent run (db_calls (atom_spec a ?d)) = sent run (db_calls ?d) @ map ds_payload (released a ?d)"
    using sent_atom [OF a] rel by blast
  have pr1: "progress ?M dag run (p # ps) (w_db ?s1)" using progress_step [OF pr in_p a dist] by simp
  have kids: "\<forall>d\<in>set (Downstream p). \<exists>e'\<in>set dag. nid d = dn_name e' \<and> nid p \<in> set (dn_depends_on e')"
  proof
    fix x assume "x \<in> set (Downstream p)"
    then have "nid x \<in> set (dependents_of dag (nid p))" using e(2-4) by (metis image_eqI set_map)
    then show "\<exists>e'\<in>set dag. nid x = dn_name e' \<and> nid p \<in> set (dn_depends_on e')" by (simp add: nid_dependents)
  qed
  have "named \<longrightarrow> NodeName (nj p) = nid p \<and> nid p \<noteq> ''''"
    using named idx resolved_name [of wa dag e] dag e(1,2,7) by (simp add: nodeID_def)
  then have tr1: "traced named dag run ev (p # ps) (w_db ?s1)"
    using traced_step [OF tr new in_p(1) a e(10) js kids] rel by auto
  have pend: "map_option rr_pending (select run (db_runs (w_db ?s1)))
      = Some (int (length (sent run (db_calls (w_db ?s1)))) - int (length (p # ps)))"
    using pr1 by (simp add: progress_def)
  have st1: "status_of (w_db ?s1) run = RunRunning"
    using st a e(10) by (auto simp: atom_spec_def passes_on_def status_of_def add_pending_def split: option.splits)
  have "length (p # ps) \<le> length (sent run (db_calls (w_db ?s1)))"
  proof -
    have "distinct (p # ps)" "set (p # ps) \<subseteq> set (sent run (db_calls (w_db ?s1)))" using pr1 by (simp_all add: progress_def)
    then show ?thesis by (metis List.finite_set card_length card_mono distinct_card order_trans)
  qed
  moreover have "if int (length (sent run (db_calls (w_db ?s1)))) - int (length (p # ps)) \<noteq> 0 then checkRunComplete w p ?s1 = (Inr (), ?s1)
    else \<exists>s'. checkRunComplete w p ?s1 = (Inr (), s') \<and> run_view run (w_db s') = run_view run (put_status run RunCompleted (w_db ?s1))"
    by (rule checkRunComplete_calm [OF _ e(10) st1 _ pend]) (use calm dag in simp_all)
  ultimately consider "length (p # ps) < length (sent run (db_calls (w_db ?s1)))" "handle w c s = (Inr (), ?s1)"
    | s' where "length (p # ps) = length (sent run (db_calls (w_db ?s1)))" "handle w c s = (Inr (), s')"
        "run_view run (w_db s') = run_view run (put_status run RunCompleted (w_db ?s1))"
    unfolding h by (auto split: if_splits)
  then have "\<exists>s'. handle w c s = (Inr (), s') \<and> under_way named types self wa dag run ev (p # ps) s'"
  proof cases
    case 1
    then show ?thesis using pr1 tr1 st1 calm by (simp add: under_way_def)
  next
    case (2 s')
    then have "sent run (db_calls (w_db s')) = sent run (db_calls (w_db ?s1))" "status_of (w_db s') run = RunCompleted"
      using run_viewD [OF 2(3)] pend by (auto simp: put_status_def status_of_def)
    then show ?thesis
      using 2 pr1 tr1 progress_view [OF 2(3)] traced_view [OF 2(3)] by (simp add: under_way_def)
  qed
  moreover have "set (dn_depends_on e) \<subseteq> nid ` set ps"
  proof -
    have "nid p \<in> nid ` set (sent run (db_calls ?d))" using in_p(1) by blast
    then obtain e' where "e' \<in> set dag" "nid p = dn_name e'" "set (dn_depends_on e') \<subseteq> nid ` set ps"
      using pr by (auto simp: progress_def)
    then show ?thesis using entry_unique [OF dist(1) _ e(1)] e(2) by metis
  qed
  ultimately show ?thesis using entry_unique [OF dist(1) _ e(1)] e(2) by metis
qed

lemma run_loop:
  assumes "completes_alone w types self wa dag run" "named \<longrightarrow> (\<forall>n\<in>set (w_nodes wa). n_name n \<noteq> '''')"
  shows "under_way named types self wa dag run ev ps s \<Longrightarrow> handed_out w run ps cs s \<Longrightarrow>
    \<exists>s'. Worker_Run w (map Claims cs) s = (Inr (), s') \<and> under_way named types self wa dag run ev (rev (map claimed_job cs) @ ps) s'
     \<and> (\<forall>i<length cs. \<forall>e\<in>set dag. dn_name e = claimed_node (cs ! i) \<longrightarrow>
          set (dn_depends_on e) \<subseteq> nid ` set ps \<union> claimed_node ` set (take i cs))"
proof (induction cs arbitrary: ps s)
  case Nil
  then show ?case by (simp add: ret_apply)
next
  case (Cons c cs)
  obtain p where p: "j_payload c = Inr p" "count_list ps p < count_list (sent run (db_calls (w_db s))) p"
    and rest: "handed_out w run (p # ps) cs (snd (handle w c s))"
    using Cons.prems(2) by (auto split: sum.splits)
  from run_step [OF assms(1) Cons.prems(1) assms(2) p] obtain s1 where 1: "handle w c s = (Inr (), s1)"
    and u: "under_way named types self wa dag run ev (p # ps) s1"
    and o1: "\<forall>e\<in>set dag. dn_name e = nid p \<longrightarrow> set (dn_depends_on e) \<subseteq> nid ` set ps" by blast
  from Cons.IH [OF u] rest obtain s' where s': "Worker_Run w (map Claims cs) s1 = (Inr (), s')"
      "under_way named types self wa dag run ev (rev (map claimed_job cs) @ p # ps) s'"
    and o2: "\<forall>i<length cs. \<forall>e\<in>set dag. dn_name e = claimed_node (cs ! i) \<longrightarrow>
          set (dn_depends_on e) \<subseteq> nid ` set (p # ps) \<union> claimed_node ` set (take i cs)"
    by (auto simp: 1)
  have c: "claimed_job c = p" "claimed_node c = nid p" by (simp_all add: claimed_job_def claimed_node_def p(1))
  have "set (dn_depends_on e) \<subseteq> nid ` set ps \<union> claimed_node ` set (take i (c # cs))"
    if "i < length (c # cs)" "e \<in> set dag" "dn_name e = claimed_node ((c # cs) ! i)" for i e
  proof (cases i)
    case 0
    then show ?thesis using o1 that c(2) by auto
  next
    case (Suc k)
    then have "set (dn_depends_on e) \<subseteq> nid ` set (p # ps) \<union> claimed_node ` set (take k cs)" using o2 that by simp
    then show ?thesis using c(2) Suc by auto
  qed
  then show ?case
    using s' c(1) 1 by (auto simp: bind_def ignore_def)
qed

section \<open>The start and the end\<close>

definition one_way_in :: "dag_node list \<Rightarrow> bool" where
  "one_way_in dag \<longleftrightarrow> (\<forall>e\<in>set dag. dn_depends_on e = [] \<longrightarrow> e = dag ! head_index dag)"

lemma resolved_deps_in:
  assumes "ResolveDAG wa = (dag, [])" "k < length dag" "n \<in> set (dn_depends_on (dag ! k))"
  obtains l where "l < k" "dn_name (dag ! l) = n"
  using resolved_order [OF assms(1)] assms(2,3) by blast

lemma head_entry:
  assumes "ResolveDAG wa = (dag, [])" "dag \<noteq> []"
  shows "dag ! head_index dag \<in> set dag \<and> dn_depends_on (dag ! head_index dag) = []"
proof -
  have "dn_depends_on (dag ! 0) = []"
  proof (rule ccontr)
    assume "dn_depends_on (dag ! 0) \<noteq> []"
    then obtain n where "n \<in> set (dn_depends_on (dag ! 0))" by (metis list.set_intros(1) neq_Nil_conv)
    then show False using resolved_deps_in [OF assms(1), of 0] assms(2) by blast
  qed
  then have "dn_depends_on (dag ! head_index dag) = []"
    using assms(2) by (auto simp: head_index_def find_Some_iff find_None_iff split: option.split)
  then show ?thesis using head_index_less [OF assms(2)] by simp
qed

lemma job_tree_member: "job_tree types self wa dag run inp j \<Longrightarrow> member types self wa dag run j \<and> Input (nj j) = inp"
proof (cases j)
  case (NodeJob x ds body)
  assume t: "job_tree types self wa dag run inp j"
  then obtain e f where e: "job_of_node types self wa e = Inr f" "x = f\<lparr> RunID := run, Input := inp, Dependents := dependents_of dag (dn_name e) \<rparr>"
    by (auto simp: NodeJob)
  have "Skip f = False" using e(1) by (auto simp: job_of_node_def rbind_eq_Inr Let_def no_fields_def)
  then have "set_nj (\<lambda>f. f\<lparr> Skip := False \<rparr>) j = j" "Input (nj j) = inp"
    using e(2) by (simp_all add: NodeJob set_nj_def)
  then show ?thesis using t by (simp add: member_def)
qed

text \<open>A started run is under way with nothing handed out.\<close>

lemma StartRun_under_way:
  assumes s: "calm s" "\<forall>i k calls. w_claim_valid s i k calls" "sent run (db_calls (w_db s)) = []" and "run \<noteq> ''''"
    and r: "ResolveDAG wa = (dag, [])" "distinct (map dn_name dag)" "one_way_in dag"
    and plain: "\<forall>n\<in>set (w_nodes wa). ordinary n"
    and f: "FromWafer types self wa event = Inr (Some p)" "payload_of p run = Inr j"
  shows "\<exists>s0. StartRun types self queue wa event run s = (Inr run, s0)
    \<and> under_way named types self wa dag run (event_value event) [] s0"
proof -
  define d where "d = run_started queue run wa dag j (w_now s) (w_db s)"
  have RunID: "RunID (nj j) = run" by (rule payload_RunID [OF f(2) FromWafer_head [OF r(1) f(1)]])
  have d: "StartRun types self queue wa event run s = (Inr run, s\<lparr> w_db := d \<rparr>)"
    using StartRun_does [OF s(1) assms(4) r(1,2) f] by (simp add: does_def d_def)
  have d': "status_of d run = RunRunning" "map_option rr_pending (select run (db_runs d)) = Some 1"
      "\<forall>n\<in>set dag. select (run, dn_name n) (db_deps d) = Some (int (length (dn_depends_on n)))"
      "db_calls d = db_calls (w_db s) @ [QEnqueue queue j None]"
    using select_deps_started [OF r(2)] by (simp_all add: d_def run_started_def status_of_def)
  have "\<forall>n\<in>set (w_nodes wa). n_type n \<noteq> ''foreach''" using plain by (auto simp: ordinary_def)
  from payload_tree [OF r(1,2) this f] have j: "member types self wa dag run j" "Input (nj j) = initial_input event"
      "nid j = dn_name (dag ! head_index dag)"
    using job_tree_member by blast+
  have "dag \<noteq> []" using FromWafer_Some [OF r(1) f(1)] by blast
  note head = head_entry [OF r(1) this]
  have js: "sent run (db_calls d) = [j]" using s(3) d'(4) RunID by simp
  have "{e \<in> set dag. set (dn_depends_on e) \<subseteq> {}} = {dag ! head_index dag}"
    using head r(3) by (auto simp: one_way_in_def)
  then have "progress (member types self wa dag run) dag run [] d"
    using d'(2,3) j(1,3) by (simp add: progress_def js)
  moreover have "walk dag [] (nid j)" using walk.entry head j(3) by metis
  then have "traced named dag run (event_value event) [] d"
    by (auto simp: traced_def js j(2) initial_input_def event_of_def steps_of_def)
  ultimately show ?thesis
    using d d'(1) s(1,2) js by (simp add: under_way_def)
qed

text \<open>When nothing enqueued is left, every node has been handed out.\<close>

lemma all_done:
  assumes r: "ResolveDAG wa = (dag, [])" and dist: "distinct (map dn_name dag)" and pr: "progress M dag run ps d"
  shows "length ps \<le> length dag \<and> length (sent run (db_calls d)) \<le> length dag
    \<and> (length ps < length (sent run (db_calls d)) \<longleftrightarrow> length ps < length dag)"
proof -
  let ?js = "sent run (db_calls d)" and ?N = "nid ` set ps"
  have js: "distinct (map nid ?js)" "set ps \<subseteq> set ?js" "distinct ps"
      "nid ` set ?js = dn_name ` {e \<in> set dag. set (dn_depends_on e) \<subseteq> ?N}"
    using pr by (auto simp: progress_def)
  have "length ?js = card (nid ` set ?js)" using js(1) by (metis distinct_card length_map set_map)
  also have "\<dots> \<le> card (dn_name ` set dag)" unfolding js(4) by (rule card_mono) auto
  also have "\<dots> = length dag" using dist by (metis distinct_card length_map set_map)
  finally have le: "length ?js \<le> length dag" .
  have ps: "length ps \<le> length ?js"
    using js(1-3) by (metis List.finite_set card_mono distinct_card distinct_map)
  have "length ps = length dag" if "length ps = length ?js"
  proof -
    have "set ps = set ?js"
      using js(1-3) that by (metis List.finite_set card_subset_eq distinct_card distinct_map)
    then have N: "?N = dn_name ` {e \<in> set dag. set (dn_depends_on e) \<subseteq> ?N}" using js(4) by simp
    have "dn_name (dag ! k) \<in> ?N" if "k < length dag" for k
      using that
    proof (induction k rule: less_induct)
      case (less k)
      have "set (dn_depends_on (dag ! k)) \<subseteq> ?N"
      proof
        fix n assume "n \<in> set (dn_depends_on (dag ! k))"
        then obtain l where "l < k" "dn_name (dag ! l) = n" using resolved_deps_in [OF r less.prems] by blast
        then show "n \<in> ?N" using less.IH [of l] less.prems by auto
      qed
      moreover have "dag ! k \<in> set dag" using less.prems by simp
      ultimately show ?case by (subst N) blast
    qed
    then have "dn_name ` set dag \<subseteq> ?N" by (auto simp: in_set_conv_nth)
    then have "card (dn_name ` set dag) \<le> length ps"
      by (metis card_image_le card_length card_mono finite_imageI List.finite_set order_trans)
    moreover have "card (dn_name ` set dag) = length dag" using dist by (metis distinct_card length_map set_map)
    ultimately show ?thesis using le that by linarith
  qed
  then show ?thesis using le ps by linarith
qed

text \<open>A run from its start to the jobs handled so far.\<close>

lemma started_run:
  assumes "calm s" "\<forall>i k calls. w_claim_valid s i k calls" "sent run (db_calls (w_db s)) = []" "run \<noteq> ''''"
    and "completes_alone w types self wa dag run" "one_way_in dag"
    and "FromWafer types self wa event = Inr (Some p)" "payload_of p run = Inr j"
    and "handed_out w run [] cs (snd (StartRun types self (wk_queue w) wa event run s))"
    and "named \<longrightarrow> (\<forall>n\<in>set (w_nodes wa). n_name n \<noteq> '''')"
  shows "\<exists>s'. seq (StartRun types self (wk_queue w) wa event run) (Worker_Run w (map Claims cs)) s = (Inr (), s')
    \<and> under_way named types self wa dag run (event_value event) (rev (map claimed_job cs)) s'
    \<and> (\<forall>i<length cs. \<forall>e\<in>set dag. dn_name e = claimed_node (cs ! i) \<longrightarrow> set (dn_depends_on e) \<subseteq> claimed_node ` set (take i cs))"
proof -
  have dag: "ResolveDAG wa = (dag, [])" "distinct (map dn_name dag)" "\<forall>n\<in>set (w_nodes wa). ordinary n"
    using assms(5) by (auto simp: completes_alone_def)
  obtain s0 where s0: "StartRun types self (wk_queue w) wa event run s = (Inr run, s0)"
      "under_way named types self wa dag run (event_value event) [] s0"
    using StartRun_under_way [OF assms(1-4) dag(1,2) assms(6) dag(3) assms(7,8)] by blast
  moreover have "handed_out w run [] cs s0" using assms(9) s0(1) by simp
  ultimately show ?thesis
    using run_loop [OF assms(5,10) s0(2)] by (simp add: bind_def)
qed

lemma run_outcome:
  assumes r: "ResolveDAG wa = (dag, [])" "distinct (map dn_name dag)"
    and u: "under_way named types self wa dag run ev (rev (map claimed_job cs)) s"
  shows "distinct (map claimed_node cs)" "claimed_node ` set cs \<subseteq> dn_name ` set dag"
    and "length cs < length dag \<Longrightarrow> status_of (w_db s) run = RunRunning
      \<and> (\<exists>q\<in>set (sent run (db_calls (w_db s))). nid q \<notin> claimed_node ` set cs)"
    and "\<not> length cs < length dag \<Longrightarrow> status_of (w_db s) run = RunCompleted \<and> claimed_node ` set cs = dn_name ` set dag
       \<and> (\<forall>e\<in>set dag. select (run, dn_name e) (db_results (w_db s)) \<noteq> None)
       \<and> set (sent run (db_calls (w_db s))) = claimed_job ` set cs"
proof -
  let ?js = "sent run (db_calls (w_db s))" and ?ps = "rev (map claimed_job cs)"
  have pr: "progress (member types self wa dag run) dag run ?ps (w_db s)" using u by (simp add: under_way_def)
  note len = all_done [OF r pr]
  have names: "nid ` set ?ps = claimed_node ` set cs" by (simp add: claimed_node_def image_image)
  have js: "distinct (map nid ?js)" "set ?ps \<subseteq> set ?js" "distinct ?ps" "nid ` set ?js \<subseteq> dn_name ` set dag"
    using pr by (auto simp: progress_def)
  have djs: "distinct ?js" using js(1) by (simp add: distinct_map)
  have "inj_on nid (set ?ps)" using js(1,2) by (meson distinct_map inj_on_subset)
  then have "distinct (map nid ?ps)" using js(3) by (simp add: distinct_map)
  then have "distinct (rev (map claimed_node cs))" by (simp add: rev_map comp_def claimed_node_def [abs_def])
  then show d: "distinct (map claimed_node cs)" by simp
  show sub: "claimed_node ` set cs \<subseteq> dn_name ` set dag" using js(2,4) names by blast
  show "status_of (w_db s) run = RunRunning \<and> (\<exists>q\<in>set ?js. nid q \<notin> claimed_node ` set cs)" if "length cs < length dag"
  proof -
    have less: "length ?ps < length ?js" using len that by simp
    then have "set ?ps \<noteq> set ?js" using djs js(3) distinct_card by (metis less_not_refl)
    then obtain q where "q \<in> set ?js" "q \<notin> set ?ps" using js(2) by blast
    then have "\<exists>q\<in>set ?js. nid q \<notin> claimed_node ` set cs" using progress_new [OF pr] names by blast
    then show ?thesis using less u by (simp add: under_way_def)
  qed
  assume all: "\<not> length cs < length dag"
  then have eq: "\<not> length ?ps < length ?js" using len by simp
  then have same: "set ?ps = set ?js"
    using card_seteq [OF _ js(2)] distinct_card [OF djs] distinct_card [OF js(3)] by simp
  have "card (dn_name ` set dag) \<le> card (claimed_node ` set cs)"
    using all distinct_card [OF d] distinct_card [OF r(2)] by simp
  then have nodes: "claimed_node ` set cs = dn_name ` set dag" using card_seteq [OF _ sub] by simp
  have "\<forall>n\<in>claimed_node ` set cs. select (run, n) (db_results (w_db s)) \<noteq> None"
    using u by (auto simp: under_way_def traced_def claimed_node_def)
  then show "status_of (w_db s) run = RunCompleted \<and> claimed_node ` set cs = dn_name ` set dag
       \<and> (\<forall>e\<in>set dag. select (run, dn_name e) (db_results (w_db s)) \<noteq> None) \<and> set ?js = claimed_job ` set cs"
    using eq u same nodes by (simp add: under_way_def)
qed



section \<open>A queue, and a workflow whose branches meet\<close>

text \<open>A queue that hands out the job of the first node not yet handed out, in an order of its own choosing.\<close>

fun queue_run :: "(node_job list \<Rightarrow> node_job list) \<Rightarrow> worker \<Rightarrow> string \<Rightarrow> nat \<Rightarrow> node_job list \<Rightarrow> jworld \<Rightarrow> jjob list" where
  "queue_run pick w run 0 ps s = []"
| "queue_run pick w run (Suc k) ps s =
     (case List.find (\<lambda>p. nid p \<notin> nid ` set ps) (pick (sent run (db_calls (w_db s)))) of None \<Rightarrow> []
      | Some p \<Rightarrow> let c = \<lparr> j_id = int k, j_worker = ''w1'', j_attempts = 1, j_payload = Inr p \<rparr> in
          c # queue_run pick w run k (p # ps) (snd (handle w c s)))"

lemma queue_run_handed_out:
  "(\<And>xs. set (pick xs) = set xs) \<Longrightarrow> handed_out w run ps (queue_run pick w run k ps s) s"
proof (induction k arbitrary: ps s)
  case (Suc k)
  have "count_list ps p < count_list (sent run (db_calls (w_db s))) p"
    if "List.find (\<lambda>p. nid p \<notin> nid ` set ps) (pick (sent run (db_calls (w_db s)))) = Some p" for p
  proof -
    have "p \<in> set (sent run (db_calls (w_db s)))" "p \<notin> set ps"
      using that Suc.prems by (auto simp: find_Some_iff) (metis nth_mem)+
    then show ?thesis by (metis count_list_0_iff neq0_conv)
  qed
  then show ?case using Suc by (auto simp: Let_def split: option.split)
qed simp

definition diamond_node :: "string \<Rightarrow> string \<Rightarrow> string list \<Rightarrow> (string \<times> value) list \<Rightarrow> node" where
  "diamond_node t n ds cfg = \<lparr> n_type = t, n_name = n, n_dedupe_key = '''', n_depends_on = ds, n_secrets = [], n_config = cfg \<rparr>"

definition diamond :: wafer where
  "diamond = \<lparr> w_name = ''orders'', w_on = [], w_nodes =
     [diamond_node ''switch'' ''fork'' [] [(''expression'', VStr ''event.kind''),
        (''cases'', VObj [(''a'', VStr ''left''), (''b'', VStr ''right'')])],
      diamond_node ''transform'' ''left'' [''fork''] [(''expression'', VStr ''1'')],
      diamond_node ''transform'' ''right'' [''fork''] [(''expression'', VStr ''2'')],
      diamond_node ''transform'' ''sum'' [''left'', ''right''] [(''expression'', VStr ''3'')]],
     w_on_failure = '''' \<rparr>"

text \<open>Every subprocess, the switch's too, answers \<^verbatim>\<open>left\<close>.\<close>

abbreviation "lefty \<equiv> test_worker (VStr ''left'')"

definition diamond_start :: jworld where
  "diamond_start = snd (StartRun mechanisms ''servitor'' ''nodes'' diamond None ''r1'' (calm_world empty_db))"

lemma test_worker_answers:
  assumes "Command (nj p) \<noteq> []" "Secrets (nj p) = []" "RunKindFor mechanisms (NodeType (nj p)) \<notin> {RunSinger, RunMCP}"
  shows "answers lefty p"
proof -
  have "nodeEnv lefty n [] = (Inr (fst (FilteredEnv (\<lambda>_. '''') [] [])), [])" for n
    by (simp add: nodeEnv_def test_worker_def Resolve_def)
  then have env: "declared_env lefty p = Inr (fst (FilteredEnv (\<lambda>_. '''') [] []))"
    using assms(2) by (simp add: declared_env_def)
  have "run_harness lefty p = run_plain lefty p"
    using assms(3) by (auto simp: run_harness_def test_worker_def split: run_kind.split)
  then show ?thesis
    using assms(1) env
    by (simp add: answers_def runSwitch_def run_plain_def run_process_def bind_def of_res_apply ret_apply
        Let_def str_or_empty_def encodable_def test_worker_def) auto
qed

abbreviation "diamond_dag \<equiv> fst (ResolveDAG diamond)"

lemma diamond_completes_alone: "completes_alone lefty mechanisms ''servitor'' diamond diamond_dag ''r1''"
proof -
  have all: "list_all (\<lambda>e. case job_of_node mechanisms ''servitor'' diamond e of Inl _ \<Rightarrow> False | Inr f \<Rightarrow>
      Command f \<noteq> [] \<and> Secrets f = [] \<and> RunKindFor mechanisms (NodeType f) \<notin> {RunSinger, RunMCP}
      \<and> NodeType f = n_type (w_nodes diamond ! dn_index e)) diamond_dag"
    by code_simp
  have "answers lefty p" if m: "member mechanisms ''servitor'' diamond diamond_dag ''r1'' p" for p
  proof -
    obtain e f where "e \<in> set diamond_dag" "job_of_node mechanisms ''servitor'' diamond e = Inr f"
        "NodeType (nj p) = n_type (w_nodes diamond ! dn_index e)" "Command (nj p) = Command f" "Secrets (nj p) = Secrets f"
      by (rule member_facts [OF m]) auto
    then show ?thesis using all by (intro test_worker_answers) (fastforce simp: list_all_iff)+
  qed
  moreover have "snd (ResolveDAG diamond) = []" "distinct (map dn_name diamond_dag)" by code_simp+
  moreover have "leaves_run lefty ''r1''" by (simp add: leaves_run_def test_worker_def)
  moreover have "\<forall>n\<in>set (w_nodes diamond). ordinary n" by (simp add: diamond_def diamond_node_def ordinary_def)
  ultimately show ?thesis by (simp add: completes_alone_def prod_eq_iff)
qed

lemma diamond_built:
  "\<exists>p j. FromWafer mechanisms ''servitor'' diamond None = Inr (Some p) \<and> payload_of p ''r1'' = Inr j"
proof -
  have "case FromWafer mechanisms ''servitor'' diamond None of Inr (Some p) \<Rightarrow> \<not> isl (payload_of p ''r1'') | _ \<Rightarrow> False"
    by code_simp
  then obtain p where p: "FromWafer mechanisms ''servitor'' diamond None = Inr (Some p)" "\<not> isl (payload_of p ''r1'')"
    by (auto split: sum.splits option.splits)
  then obtain j where "payload_of p ''r1'' = Inr j" by (cases "payload_of p ''r1''") auto
  then show ?thesis using p(1) by blast
qed

lemma diamond_entry: "one_way_in diamond_dag"
proof -
  have "list_all (\<lambda>e. dn_depends_on e = [] \<longrightarrow> e = diamond_dag ! head_index diamond_dag) diamond_dag" by code_simp
  then show ?thesis by (auto simp: one_way_in_def list_all_iff)
qed

text \<open>The whole run: from the start through the jobs the queue hands out.\<close>

definition diamond_run :: "(node_job list \<Rightarrow> node_job list) \<Rightarrow> unit res \<times> jworld" where
  "diamond_run pick = seq (StartRun mechanisms ''servitor'' ''nodes'' diamond None ''r1'')
     (Worker_Run lefty (map Claims (queue_run pick lefty ''r1'' 4 [] diamond_start))) (calm_world empty_db)"

lemmas diamond_facts = diamond_completes_alone diamond_entry

lemma diamond_hyps:
  "calm (calm_world empty_db :: jworld)" "\<forall>i k calls. w_claim_valid (calm_world empty_db :: jworld) i k calls"
  "sent ''r1'' (db_calls (w_db (calm_world empty_db :: jworld))) = []" "''r1'' \<noteq> ''''"
  by (simp_all add: calm_world_def empty_db_def calm_def)

lemma diamond_handed_out:
  "(\<And>xs. set (pick xs) = set xs) \<Longrightarrow> handed_out lefty ''r1'' [] (queue_run pick lefty ''r1'' 4 [] diamond_start)
     (snd (StartRun mechanisms ''servitor'' (wk_queue lefty) diamond None ''r1'' (calm_world empty_db)))"
  using queue_run_handed_out [of pick] by (simp add: diamond_start_def test_worker_def)



text \<open>The world the loop ends in, job by job.\<close>

fun queue_end :: "(node_job list \<Rightarrow> node_job list) \<Rightarrow> worker \<Rightarrow> string \<Rightarrow> nat \<Rightarrow> node_job list \<Rightarrow> jworld \<Rightarrow> jworld" where
  "queue_end pick w run 0 ps s = s"
| "queue_end pick w run (Suc k) ps s =
     (case List.find (\<lambda>p. nid p \<notin> nid ` set ps) (pick (sent run (db_calls (w_db s)))) of None \<Rightarrow> s
      | Some p \<Rightarrow> let c = \<lparr> j_id = int k, j_worker = ''w1'', j_attempts = 1, j_payload = Inr p \<rparr> in
          queue_end pick w run k (p # ps) (snd (handle w c s)))"

lemma Worker_Run_queue: "Worker_Run w (map Claims (queue_run pick w run k ps s)) s = (Inr (), queue_end pick w run k ps s)"
  by (induction k arbitrary: ps s)
     (auto simp: ret_apply bind_def ignore_def Let_def split: option.split)

text \<open>An error of a claim ends the loop, and nothing that could be claimed later is worked on.\<close>

lemma failed_claim_ends_the_loop:
  "Worker_Run w (map Claims js @ ClaimFails e False # cs) s = (Inl e, snd (Worker_Run w (map Claims js) s))"
  by (induction js arbitrary: s) (auto simp: bind_def ignore_def throw_def ret_def)

definition branch_results :: "unit res \<times> jworld \<Rightarrow> string \<times> value option list" where
  "branch_results r = (case r of (_, s) \<Rightarrow>
     (status_of (w_db s) ''r1'', map (\<lambda>n. select (''r1'', n) (db_results (w_db s))) [''left'', ''right'', ''sum'']))"

text \<open>Whether a node behind a switch runs depends on which branch is worked off last. In a workflow whose
  switch chooses one of two branches that meet again, the queue may hand out the jobs in
  two orders; both complete the run, but if the branch that was not chosen is the last, the node where they
  meet is skipped as well, though the chosen branch ran.\<close>

theorem rejoin_depends_on_who_is_last:
  "handed_out lefty ''r1'' [] (queue_run id lefty ''r1'' 4 [] diamond_start) diamond_start
   \<and> handed_out lefty ''r1'' [] (queue_run rev lefty ''r1'' 4 [] diamond_start) diamond_start
   \<and> branch_results (Worker_Run lefty (map Claims (queue_run id lefty ''r1'' 4 [] diamond_start)) diamond_start)
       = (RunCompleted, [Some (VStr ''left''), Some skipped, Some skipped])
   \<and> branch_results (Worker_Run lefty (map Claims (queue_run rev lefty ''r1'' 4 [] diamond_start)) diamond_start)
       = (RunCompleted, [Some (VStr ''left''), Some skipped, Some (VStr ''left'')])"
proof (intro conjI)
  have "branch_results (Inr (), queue_end id lefty ''r1'' 4 [] diamond_start) = (RunCompleted, [Some (VStr ''left''), Some skipped, Some skipped])"
    by code_simp
  then show "branch_results (Worker_Run lefty (map Claims (queue_run id lefty ''r1'' 4 [] diamond_start)) diamond_start)
       = (RunCompleted, [Some (VStr ''left''), Some skipped, Some skipped])" unfolding Worker_Run_queue .
  have "branch_results (Inr (), queue_end rev lefty ''r1'' 4 [] diamond_start) = (RunCompleted, [Some (VStr ''left''), Some skipped, Some (VStr ''left'')])"
    by code_simp
  then show "branch_results (Worker_Run lefty (map Claims (queue_run rev lefty ''r1'' 4 [] diamond_start)) diamond_start)
       = (RunCompleted, [Some (VStr ''left''), Some skipped, Some (VStr ''left'')])" unfolding Worker_Run_queue .
qed (rule queue_run_handed_out, simp)+

end
