(* ===== verification/Boot.thy ===== *)
theory Boot
  imports Daemon Io
begin

text \<open>
  The life of the daemon: its configuration, opening and closing the store with its schema
  (internal/honker/honker.go, tx.go) and Run of internal/daemon/daemon.go, from the loopback check to
  the last deferred close. The state is the log of what happened so far; what the machine answers (a
  bind, an open, a statement, why the wait ended) is a function of that log.
\<close>

section \<open>The machine\<close>

text \<open>What a daemon holds while it runs, and what happens.\<close>

datatype holding =
    Control string          \<comment> \<open>the listener of the control plane, by its address\<close>
  | Hooks string            \<comment> \<open>the listener of the webhooks\<close>
  | Database string         \<comment> \<open>the open SQLite file\<close>
  | RunnerContext           \<comment> \<open>the context the workers and the scheduler stop with\<close>
  | SignalChannel

datatype life =
    Acquires holding
  | Releases holding
  | Executes string         \<comment> \<open>a statement on the open file, also one that fails\<close>
  | LimitsConns int
  | Announces string        \<comment> \<open>the callback Started, with the address that was bound\<close>
  | Works string            \<comment> \<open>a worker loop starts\<close>
  | Schedules string        \<comment> \<open>the scheduler starts\<close>
  | Serves holding
  | ShutsDown "int option"  \<comment> \<open>http.Server.Shutdown, with its timeout\<close>
  | AwaitsRequests          \<comment> \<open>Run waits for the requests in flight\<close>

text \<open>Why the select of Run goes on; a stop is a request on the control plane.\<close>

datatype wake = StopRequested | ServeFailed err | ContextDone | Signalled

record host =
  ho_listen :: "life list \<Rightarrow> string \<Rightarrow> string res"     \<comment> \<open>the address bound\<close>
  ho_open :: "life list \<Rightarrow> string \<Rightarrow> string \<Rightarrow> unit res"
  ho_exec :: "life list \<Rightarrow> string \<Rightarrow> unit res"
  ho_wake :: "life list \<Rightarrow> wake"
  ho_shutdown :: "life list \<Rightarrow> unit res"
  ho_parse_ip :: "string \<Rightarrow> int list option"

type_synonym 'a living = "(life list, 'a) io"

definition happens :: "life \<Rightarrow> unit living" where
  "happens e log = (Inr (), log @ [e])"

definition acquire :: "(life list \<Rightarrow> 'a res) \<Rightarrow> holding \<Rightarrow> 'a living" where
  "acquire ask x log = (case ask log of Inl e \<Rightarrow> (Inl e, log) | Inr a \<Rightarrow> (Inr a, log @ [Acquires x]))"

definition release :: "holding \<Rightarrow> unit living" where
  "release x = happens (Releases x)"

text \<open>\<^verbatim>\<open>defer\<close>, and \<^verbatim>\<open>if err != nil { _ = d(); return err }\<close>.\<close>

definition deferring :: "unit living \<Rightarrow> 'a living \<Rightarrow> 'a living" where
  "deferring d m log = (case m log of (r, l) \<Rightarrow> (r, snd (d l)))"

definition on_error :: "unit living \<Rightarrow> 'a living \<Rightarrow> 'a living" where
  "on_error d m log = (case m log of (Inl e, l) \<Rightarrow> (Inl e, snd (d l)) | (Inr a, l) \<Rightarrow> (Inr a, l))"

section \<open>The store\<close>

text \<open>A table of the schema: its columns with their types, and the key when it has several columns.\<close>

record schema_table =
  st_name :: string
  st_columns :: "(string \<times> string) list"
  st_key :: "string list"

text \<open>The statement with single spaces; the alignment of the source does not matter to SQLite.\<close>

definition create_table :: "schema_table \<Rightarrow> string" where
  "create_table t = ''CREATE TABLE IF NOT EXISTS '' @ st_name t @ '' ('' @
     join_with '', '' (map (\<lambda>(c, k). c @ '' '' @ k) (st_columns t) @
       (if st_key t = [] then [] else [''PRIMARY KEY ('' @ join_with '', '' (st_key t) @ '')''])) @ '')''"

definition sql_now :: string where
  "sql_now = ''TEXT NOT NULL DEFAULT (datetime('' @ [CHR 0x27] @ ''now'' @ [CHR 0x27] @ ''))''"

definition schemaStmts :: "schema_table list" where
  "schemaStmts = [
     \<lparr> st_name = ''node_results'',
       st_columns = [(''run_id'', ''TEXT NOT NULL''), (''node_id'', ''TEXT NOT NULL''), (''result'', ''TEXT NOT NULL'')],
       st_key = [''run_id'', ''node_id''] \<rparr>,
     \<lparr> st_name = ''node_dedupe'',
       st_columns = [(''workflow_id'', ''TEXT NOT NULL''), (''node_name'', ''TEXT NOT NULL''), (''dedupe_key'', ''TEXT NOT NULL''),
         (''succeeded'', ''INTEGER NOT NULL''), (''result'', ''TEXT''), (''created_at'', sql_now)],
       st_key = [''workflow_id'', ''node_name'', ''dedupe_key''] \<rparr>,
     \<lparr> st_name = ''workflows'',
       st_columns = [(''name'', ''TEXT PRIMARY KEY''), (''wafer'', ''TEXT NOT NULL''), (''enabled'', ''INTEGER NOT NULL DEFAULT 1''),
         (''created_at'', sql_now)],
       st_key = [] \<rparr>,
     \<lparr> st_name = ''events'',
       st_columns = [(''id'', ''INTEGER PRIMARY KEY AUTOINCREMENT''), (''source'', ''TEXT NOT NULL''), (''payload'', ''TEXT NOT NULL''),
         (''received_at'', sql_now)],
       st_key = [] \<rparr>,
     \<lparr> st_name = ''runs'',
       st_columns = [(''run_id'', ''TEXT PRIMARY KEY''), (''workflow_name'', ''TEXT NOT NULL''), (''status'', ''TEXT NOT NULL''),
         (''pending'', ''INTEGER NOT NULL DEFAULT 0''), (''created_at'', sql_now)],
       st_key = [] \<rparr>,
     \<lparr> st_name = ''singer_state'',
       st_columns = [(''workflow_id'', ''TEXT NOT NULL''), (''node_name'', ''TEXT NOT NULL''), (''state'', ''TEXT NOT NULL''),
         (''updated_at'', sql_now)],
       st_key = [''workflow_id'', ''node_name''] \<rparr>,
     \<lparr> st_name = ''run_deps'',
       st_columns = [(''run_id'', ''TEXT NOT NULL''), (''node_id'', ''TEXT NOT NULL''), (''remaining'', ''INTEGER NOT NULL'')],
       st_key = [''run_id'', ''node_id''] \<rparr>,
     \<lparr> st_name = ''suspended_continuations'',
       st_columns = [(''run_id'', ''TEXT NOT NULL''), (''node_id'', ''TEXT NOT NULL''), (''workflow_id'', ''TEXT NOT NULL''),
         (''signal_name'', ''TEXT''), (''run_at'', ''INTEGER''), (''payload'', ''TEXT NOT NULL''), (''created_at'', sql_now)],
       st_key = [''run_id'', ''node_id''] \<rparr>,
     \<lparr> st_name = ''buffered_signals'',
       st_columns = [(''id'', ''INTEGER PRIMARY KEY AUTOINCREMENT''), (''signal_name'', ''TEXT NOT NULL''), (''payload'', ''TEXT NOT NULL''),
         (''created_at'', sql_now)],
       st_key = [] \<rparr>,
     \<lparr> st_name = ''failed_continuations'',
       st_columns = [(''run_id'', ''TEXT PRIMARY KEY''), (''workflow_id'', ''TEXT NOT NULL''), (''event'', ''TEXT''),
         (''payload'', ''TEXT NOT NULL''), (''created_at'', sql_now)],
       st_key = [] \<rparr>]"

definition exec_stmt :: "host \<Rightarrow> string \<Rightarrow> unit living" where
  "exec_stmt h q log = (ho_exec h log q, log @ [Executes q])"

definition ensureSchema :: "host \<Rightarrow> unit living" where
  "ensureSchema h = io_each (\<lambda>t. io_wrap ''honker: ensure schema: '' (exec_stmt h (create_table t))) schemaStmts"

definition Store_Close :: "string \<Rightarrow> unit living" where
  "Store_Close path = release (Database path)"

definition Open :: "host \<Rightarrow> string \<Rightarrow> string \<Rightarrow> unit living" where
  "Open h path ext =
     (if ext = '''' then io_throw (errorf ''honker: extension path is empty; set HONKER_EXTENSION_PATH'')
      else io_seq (io_wrap (''honker: open '' @ path @ '': '') (acquire (\<lambda>log. ho_open h log path ext) (Database path)))
          (io_seq (happens (LimitsConns 1))
          (io_seq (on_error (Store_Close path)
                    (io_wrap (''honker: enable WAL on '' @ path @ '': '') (exec_stmt h ''PRAGMA journal_mode=WAL'')))
                  (on_error (Store_Close path) (ensureSchema h)))))"

section \<open>The configuration\<close>

record daemon_config =
  dc_Addr :: string
  dc_DBPath :: string
  dc_ExtPath :: string
  dc_DrainTimeout :: int                \<comment> \<open>nanoseconds\<close>
  dc_QueueName :: string
  dc_VisibilityTimeoutS :: int
  dc_MaxAttempts :: int
  dc_SecretRetryCount :: int
  dc_Resolver :: "resolver option"
  dc_WebhookReceivers :: "(string, webhook_receiver) table"
  dc_MCPConnectors :: "(string, http_connector) table"
  dc_Workers :: int
  dc_DisableRunner :: bool
  dc_WebhookAddr :: string
  dc_Started :: bool                    \<comment> \<open>a callback is set\<close>

definition with_defaults :: "daemon_config \<Rightarrow> daemon_config" where
  "with_defaults cfg = cfg\<lparr>
     dc_Addr := (if dc_Addr cfg = '''' then ''127.0.0.1:7365'' else dc_Addr cfg),
     dc_DrainTimeout := (if dc_DrainTimeout cfg \<le> 0 then 30000000000 else dc_DrainTimeout cfg),
     dc_QueueName := (if dc_QueueName cfg = '''' then ''nodes'' else dc_QueueName cfg),
     dc_VisibilityTimeoutS := (if dc_VisibilityTimeoutS cfg \<le> 0 then 30 else dc_VisibilityTimeoutS cfg),
     dc_MaxAttempts := (if dc_MaxAttempts cfg \<le> 0 then 3 else dc_MaxAttempts cfg),
     dc_Workers := (if dc_Workers cfg \<le> 0 then 1 else dc_Workers cfg) \<rparr>"

text \<open>The server Run builds: the parts that need a store are there when the configuration names one.\<close>

definition server_of :: "daemon_config \<Rightarrow> trigger_receiver \<Rightarrow> daemon \<Rightarrow> daemon" where
  "server_of cfg rc d = d\<lparr>
     dm_store := dc_DBPath cfg \<noteq> '''',
     dm_queue := (if dc_DBPath cfg = '''' then None else Some (dc_QueueName cfg)),
     dm_receiver := (if dc_DBPath cfg = '''' then None else Some (rc\<lparr> tc_queue := dc_QueueName cfg,
        tc_resolver := dc_Resolver cfg, tc_receivers := dc_WebhookReceivers cfg \<rparr>)),
     dm_resolver := dc_Resolver cfg,
     dm_receivers := dc_WebhookReceivers cfg \<rparr>"

text \<open>A worker of the daemon; without a resolver it keeps the default one it is given.\<close>

definition worker_of :: "daemon_config \<Rightarrow> daemon \<Rightarrow> worker \<Rightarrow> worker" where
  "worker_of cfg d w = daemon_worker d (dc_QueueName cfg) (w\<lparr>
     wk_resolver := (case dc_Resolver cfg of None \<Rightarrow> wk_resolver w | Some r \<Rightarrow> r),
     wk_secretRetries := dc_SecretRetryCount cfg,
     wk_connectors := dc_MCPConnectors cfg,
     wk_maxAttempts := dc_MaxAttempts cfg \<rparr>)"

section \<open>Serving and stopping\<close>

text \<open>Serve closes its listener when it returns; ErrServerClosed (\<^verbatim>\<open>None\<close>) is no error.\<close>

definition Serve :: "daemon_config \<Rightarrow> err option \<Rightarrow> unit living" where
  "Serve cfg why = io_seq (release (Control (dc_Addr cfg)))
     (case why of None \<Rightarrow> io_ret () | Some e \<Rightarrow> io_throw e)"

text \<open>Shutdown closes the listener first, then waits.\<close>

definition Server_Stop :: "host \<Rightarrow> daemon_config \<Rightarrow> unit living" where
  "Server_Stop h cfg = io_seq (happens (ShutsDown None))
     (io_seq (release (Control (dc_Addr cfg)))
     (io_seq (happens AwaitsRequests) (\<lambda>log. (ho_shutdown h log, log))))"

text \<open>The shutdown a stop request starts in the background; Serve returns as soon as the listener is closed.\<close>

definition handleStop :: "daemon_config \<Rightarrow> unit living" where
  "handleStop cfg = happens (ShutsDown (Some (dc_DrainTimeout cfg)))"

definition await_end :: "host \<Rightarrow> daemon_config \<Rightarrow> unit living" where
  "await_end h cfg log = (case ho_wake h log of
      StopRequested \<Rightarrow> io_seq (handleStop cfg) (Serve cfg None) log
    | ServeFailed e \<Rightarrow> Serve cfg (Some e) log
    | ContextDone \<Rightarrow> Server_Stop h cfg log
    | Signalled \<Rightarrow> Server_Stop h cfg log)"

section \<open>Run\<close>

definition serve_control :: "host \<Rightarrow> daemon_config \<Rightarrow> unit living" where
  "serve_control h cfg = io_seq (happens (Acquires SignalChannel))
     (deferring (release SignalChannel)
       (io_seq (happens (Serves (Control (dc_Addr cfg)))) (await_end h cfg)))"

definition with_hooks :: "host \<Rightarrow> daemon_config \<Rightarrow> unit living \<Rightarrow> unit living" where
  "with_hooks h cfg m =
     (if dc_WebhookAddr cfg \<noteq> '''' \<and> dc_DBPath cfg \<noteq> '''' then
        io_seq (on_error (release (Control (dc_Addr cfg)))
          (io_wrap (''daemon: listen for webhooks on '' @ dc_WebhookAddr cfg @ '': '')
            (acquire (\<lambda>log. ho_listen h log (dc_WebhookAddr cfg)) (Hooks (dc_WebhookAddr cfg)))))
        (io_seq (happens (Serves (Hooks (dc_WebhookAddr cfg))))
          (deferring (release (Hooks (dc_WebhookAddr cfg))) m))
      else m)"

definition with_runner :: "daemon_config \<Rightarrow> unit living \<Rightarrow> unit living" where
  "with_runner cfg m =
     (if dc_DBPath cfg \<noteq> '''' \<and> \<not> dc_DisableRunner cfg then
        io_seq (happens (Acquires RunnerContext))
        (io_seq (io_each (\<lambda>i. happens (Works (''worker-'' @ show_nat i))) [0..<nat (dc_Workers cfg)])
        (io_seq (happens (Schedules ''scheduler''))
          (deferring (release RunnerContext) m)))
      else m)"

definition announce_and_serve :: "host \<Rightarrow> daemon_config \<Rightarrow> string \<Rightarrow> unit living" where
  "announce_and_serve h cfg bound =
     io_seq (if dc_Started cfg then happens (Announces bound) else io_ret ())
       (with_runner cfg (with_hooks h cfg (serve_control h cfg)))"

definition daemon_Run :: "host \<Rightarrow> daemon_config \<Rightarrow> unit living" where
  "daemon_Run h cfg0 = (let cfg = with_defaults cfg0 in
     io_seq (io_of (checkLoopback (ho_parse_ip h) (dc_Addr cfg)))
     (io_bind (io_wrap (''daemon: listen on '' @ dc_Addr cfg @ '': '')
        (acquire (\<lambda>log. ho_listen h log (dc_Addr cfg)) (Control (dc_Addr cfg)))) (\<lambda>bound.
      if dc_DBPath cfg = '''' then announce_and_serve h cfg bound
      else io_seq (on_error (release (Control (dc_Addr cfg))) (Open h (dc_DBPath cfg) (dc_ExtPath cfg)))
        (deferring (Store_Close (dc_DBPath cfg)) (announce_and_serve h cfg bound)))))"

end
