(* ===== verification/BootLaws.thy ===== *)
theory BootLaws
  imports DaemonLaws Cli Boot
begin

text \<open>
  What Run of the daemon guarantees: whatever fails and however it ends, it has closed what it opened, and
  it uses nothing that is not open; and the order in which a daemon that comes up does its work.
\<close>

section \<open>Nothing stays open\<close>

fun is_database :: "holding \<Rightarrow> bool" where
  "is_database (Database _) = True"
| "is_database _ = False"

fun is_control :: "holding \<Rightarrow> bool" where
  "is_control (Control _) = True"
| "is_control _ = False"

text \<open>
  What is held after a log, or none when the log takes what is held already, gives back what is not, or
  uses what is not there: a statement needs the open file, a worker the file and its context, a
  server its listener, and readiness is announced on a bound control plane.
\<close>

fun allowed :: "holding list \<Rightarrow> life \<Rightarrow> bool" where
  "allowed held (Acquires x) \<longleftrightarrow> x \<notin> set held"
| "allowed held (Releases x) \<longleftrightarrow> x \<in> set held"
| "allowed held (Executes _) \<longleftrightarrow> list_ex is_database held"
| "allowed held (LimitsConns _) \<longleftrightarrow> list_ex is_database held"
| "allowed held (Works _) \<longleftrightarrow> RunnerContext \<in> set held \<and> list_ex is_database held"
| "allowed held (Schedules _) \<longleftrightarrow> RunnerContext \<in> set held \<and> list_ex is_database held"
| "allowed held (Serves x) \<longleftrightarrow> x \<in> set held"
| "allowed held (Announces _) \<longleftrightarrow> list_ex is_control held"
| "allowed held (ShutsDown _) \<longleftrightarrow> list_ex is_control held"
| "allowed held AwaitsRequests \<longleftrightarrow> True"

fun held_after :: "holding list \<Rightarrow> life \<Rightarrow> holding list" where
  "held_after held (Acquires x) = x # held"
| "held_after held (Releases x) = remove1 x held"
| "held_after held _ = held"

fun track :: "holding list \<Rightarrow> life list \<Rightarrow> holding list option" where
  "track held [] = Some held"
| "track held (e # es) = (if allowed held e then track (held_after held e) es else None)"

lemma track_append: "track H (t @ u) = Option.bind (track H t) (\<lambda>H'. track H' u)"
  by (induction t arbitrary: H) auto

lemma held_control: "Control a \<in> set H \<Longrightarrow> list_ex is_control H"
  and held_database: "Database p \<in> set H \<Longrightarrow> list_ex is_database H"
  unfolding list_ex_iff by (metis is_control.simps(1), metis is_database.simps(1))

text \<open>A step from what is held to what is held after a failure and after a success.\<close>

definition balanced :: "holding list \<Rightarrow> 'a living \<Rightarrow> holding list \<Rightarrow> holding list \<Rightarrow> bool" where
  "balanced H m E S \<longleftrightarrow> leaves (\<lambda>l. l) m (\<lambda>r t. track H t = Some (case r of Inl _ \<Rightarrow> E | Inr _ \<Rightarrow> S))"

named_theorems balance

lemma balanced_bind [balance]:
  "balanced H m E S' \<Longrightarrow> (\<And>a. balanced S' (k a) E S) \<Longrightarrow> balanced H (io_bind m k) E S"
  unfolding balanced_def by (erule leaves_bind) (auto simp: track_append split: sum.splits)

lemma balanced_steps [balance]:
  "balanced H (io_ret a) E H" "balanced H (io_throw e) H S" "balanced H (io_of r) H H"
  by (auto simp: balanced_def leaves_def split: sum.split)

lemma balanced_happens: "allowed H e \<Longrightarrow> S = held_after H e \<Longrightarrow> balanced H (happens e) E S"
  by (auto simp: balanced_def leaves_def happens_def)

lemma balanced_release: "x \<in> set H \<Longrightarrow> S = remove1 x H \<Longrightarrow> balanced H (release x) E S"
  by (simp add: release_def balanced_happens)

lemma balanced_acquire: "x \<notin> set H \<Longrightarrow> balanced H (acquire ask x) H (x # H)"
  by (auto simp: balanced_def leaves_def acquire_def split: sum.split)

lemma balanced_exec: "list_ex is_database H \<Longrightarrow> balanced H (exec_stmt h q) H H"
  by (auto simp: balanced_def leaves_def exec_stmt_def split: sum.split)

lemma balanced_wrap [balance]: "balanced H m E S \<Longrightarrow> balanced H (io_wrap pre m) E S"
  unfolding balanced_def by (erule leaves_wrap) simp

lemma balanced_each [balance]: "(\<And>x. balanced H (f x) E H) \<Longrightarrow> balanced H (io_each f xs) E H"
  by (induction xs) (auto intro!: balance)

lemma balanced_deferring:
  assumes "balanced H m E S" "balanced E d A E'" "balanced S d B S'" "A = E'" "B = S'"
  shows "balanced H (deferring d m) E' S'"
proof -
  have "\<exists>t. snd (deferring d m s) = s @ t \<and> track H t = Some (case fst (deferring d m s) of Inl _ \<Rightarrow> E' | Inr _ \<Rightarrow> S')" for s
  proof -
    obtain r l where m: "m s = (r, l)" by (cases "m s")
    obtain t where t: "l = s @ t" "track H t = Some (case r of Inl _ \<Rightarrow> E | Inr _ \<Rightarrow> S)"
      using assms(1) leavesD [of "\<lambda>l. l" m _ s] by (auto simp: balanced_def m)
    have "\<exists>u. snd (d l) = l @ u \<and> track (case r of Inl _ \<Rightarrow> E | Inr _ \<Rightarrow> S) u = Some (case r of Inl _ \<Rightarrow> E' | Inr _ \<Rightarrow> S')"
      using assms(2-5) leavesD [of "\<lambda>l. l" d _ l] by (cases r) (auto simp: balanced_def split: sum.splits)
    then show ?thesis using t by (auto simp: deferring_def m track_append)
  qed
  then show ?thesis unfolding balanced_def by (intro leavesI) simp
qed

lemma balanced_on_error:
  assumes "balanced H m E S" "balanced E d E' E'"
  shows "balanced H (on_error d m) E' S"
proof -
  have "\<exists>t. snd (on_error d m s) = s @ t \<and> track H t = Some (case fst (on_error d m s) of Inl _ \<Rightarrow> E' | Inr _ \<Rightarrow> S)" for s
  proof -
    obtain r l where m: "m s = (r, l)" by (cases "m s")
    obtain t where t: "l = s @ t" "track H t = Some (case r of Inl _ \<Rightarrow> E | Inr _ \<Rightarrow> S)"
      using assms(1) leavesD [of "\<lambda>l. l" m _ s] by (auto simp: balanced_def m)
    obtain u where u: "snd (d l) = l @ u" "track E u = Some E'"
      using assms(2) leavesD [of "\<lambda>l. l" d _ l] by (auto simp: balanced_def split: sum.splits)
    show ?thesis using t u by (cases r) (auto simp: on_error_def m track_append)
  qed
  then show ?thesis unfolding balanced_def by (intro leavesI) simp
qed

lemma balanced_Open:
  assumes "Database path \<notin> set H"
  shows "balanced H (Open h path ext) H (Database path # H)"
proof -
  let ?D = "Database path # H"
  have exec: "balanced ?D (io_wrap pre (exec_stmt h q)) ?D ?D" for pre q
    by (intro balanced_wrap balanced_exec) simp
  have close: "balanced ?D (release (Database path)) H H"
    by (rule balanced_release) simp_all
  have "balanced ?D (on_error (release (Database path)) (io_each (\<lambda>t. io_wrap ''honker: ensure schema: ''
      (exec_stmt h (create_table t))) schemaStmts)) H ?D"
    by (intro balanced_on_error [OF _ close] balanced_each exec)
  then show ?thesis
    unfolding Open_def Store_Close_def ensureSchema_def using assms exec close
    by (auto intro: balanced_steps(2)) (assumption | rule balanced_bind balanced_wrap balanced_acquire balanced_happens balanced_on_error | simp)+
qed

lemma balanced_await:
  assumes "Control (dc_Addr cfg) \<in> set H"
  shows "balanced H (await_end h cfg) (remove1 (Control (dc_Addr cfg)) H) (remove1 (Control (dc_Addr cfg)) H)"
proof -
  let ?S = "remove1 (Control (dc_Addr cfg)) H"
  note c = held_control [OF assms]
  have serve: "balanced H (Serve cfg why) ?S ?S" for why
    unfolding Serve_def by (cases why) (auto intro!: balance balanced_release simp: assms)
  have stop: "balanced H (io_seq (handleStop cfg) (Serve cfg None)) ?S ?S"
    unfolding handleStop_def by (rule balanced_bind [OF balanced_happens serve]) (simp_all add: c)
  have shutdown: "balanced ?S (\<lambda>log. (ho_shutdown h log, log)) ?S ?S"
    by (auto simp: balanced_def leaves_def split: sum.split)
  have "balanced H (Server_Stop h cfg) ?S ?S"
    unfolding Server_Stop_def
    by (rule balanced_bind balanced_happens balanced_release shutdown | simp add: c assms)+
  then show ?thesis
    using serve stop unfolding balanced_def leaves_def await_end_def by (simp split: wake.split)
qed

lemma balanced_control:
  assumes "Control (dc_Addr cfg) \<in> set H" "SignalChannel \<notin> set H"
  shows "balanced H (serve_control h cfg) (remove1 (Control (dc_Addr cfg)) H) (remove1 (Control (dc_Addr cfg)) H)"
proof -
  let ?c = "Control (dc_Addr cfg)"
  have c: "?c \<in> set (SignalChannel # H)" using assms(1) by simp
  have close: "balanced (SignalChannel # remove1 ?c H) (release SignalChannel) A (remove1 ?c H)" for A
    by (rule balanced_release) simp_all
  have "balanced (SignalChannel # H) (io_seq (happens (Serves ?c)) (await_end h cfg)) (SignalChannel # remove1 ?c H) (SignalChannel # remove1 ?c H)"
    using balanced_await [OF c, of h] by - (rule balanced_bind balanced_happens | simp add: c assms(1))+
  then show ?thesis
    unfolding serve_control_def using assms(2)
    by - (assumption | rule balanced_bind balanced_happens balanced_deferring [OF _ close close] | simp)+
qed

lemma balanced_hooks:
  assumes "Hooks (dc_WebhookAddr cfg) \<notin> set H" "Control (dc_Addr cfg) \<in> set H"
    and "\<And>H. Control (dc_Addr cfg) \<in> set H \<Longrightarrow> SignalChannel \<notin> set H
      \<Longrightarrow> balanced H m (remove1 (Control (dc_Addr cfg)) H) (remove1 (Control (dc_Addr cfg)) H)"
    and "SignalChannel \<notin> set H"
  shows "balanced H (with_hooks h cfg m) (remove1 (Control (dc_Addr cfg)) H) (remove1 (Control (dc_Addr cfg)) H)"
proof (cases "dc_WebhookAddr cfg \<noteq> '''' \<and> dc_DBPath cfg \<noteq> ''''")
  case True
  let ?x = "Hooks (dc_WebhookAddr cfg)"
  have "balanced (?x # H) m (?x # remove1 (Control (dc_Addr cfg)) H) (?x # remove1 (Control (dc_Addr cfg)) H)"
    using assms(3) [of "?x # H"] assms(2,4) by simp
  then show ?thesis
    unfolding with_hooks_def if_P [OF True]
    by - (assumption | rule balanced_bind balanced_on_error balanced_wrap balanced_acquire balanced_happens balanced_release
        balanced_deferring | simp add: assms)+
qed (use assms in \<open>auto simp: with_hooks_def\<close>)

lemma balanced_runner:
  assumes "RunnerContext \<notin> set H" "Database (dc_DBPath cfg) \<in> set H \<or> dc_DBPath cfg = ''''"
    and m: "\<And>H. Control (dc_Addr cfg) \<in> set H \<Longrightarrow> SignalChannel \<notin> set H \<Longrightarrow> Hooks (dc_WebhookAddr cfg) \<notin> set H
      \<Longrightarrow> balanced H m (remove1 (Control (dc_Addr cfg)) H) (remove1 (Control (dc_Addr cfg)) H)"
    and "Control (dc_Addr cfg) \<in> set H" "SignalChannel \<notin> set H" "Hooks (dc_WebhookAddr cfg) \<notin> set H"
  shows "balanced H (with_runner cfg m) (remove1 (Control (dc_Addr cfg)) H) (remove1 (Control (dc_Addr cfg)) H)"
proof (cases "dc_DBPath cfg \<noteq> '''' \<and> \<not> dc_DisableRunner cfg")
  case True
  let ?S = "RunnerContext # remove1 (Control (dc_Addr cfg)) H"
  have "balanced (RunnerContext # H) m ?S ?S"
    using m [of "RunnerContext # H"] assms(4-6) by simp
  moreover have "list_ex is_database H" using assms(2) True held_database by blast
  ultimately show ?thesis
    unfolding with_runner_def if_P [OF True] using assms(1)
    by - (assumption | rule balanced_bind balanced_each balanced_happens balanced_deferring balanced_release | simp)+
qed (use assms in \<open>auto simp: with_runner_def\<close>)

lemma balanced_serving:
  assumes "Control (dc_Addr cfg) \<in> set H" "set H \<subseteq> {Control (dc_Addr cfg), Database (dc_DBPath cfg)}"
    and "Database (dc_DBPath cfg) \<in> set H \<or> dc_DBPath cfg = ''''"
  shows "balanced H (announce_and_serve h cfg bound) (remove1 (Control (dc_Addr cfg)) H) (remove1 (Control (dc_Addr cfg)) H)"
proof -
  have "list_ex is_control H" using assms(1) by (rule held_control)
  then have "balanced H (if dc_Started cfg then happens (Announces bound) else io_ret ()) E H" for E
    by (auto intro!: balance balanced_happens)
  then show ?thesis
    unfolding announce_and_serve_def
    by (rule balanced_bind) (rule balanced_runner, use assms in \<open>auto intro!: balanced_hooks balanced_control\<close>)
qed

lemma balanced_Run: "balanced [] (daemon_Run h cfg) [] []"
proof -
  let ?c = "with_defaults cfg"
  let ?H = "[Control (dc_Addr ?c)]" and ?D = "Database (dc_DBPath ?c)"
  have plain: "balanced ?H (announce_and_serve h ?c bound) [] []" if "dc_DBPath ?c = ''''" for bound
    using balanced_serving [of ?c ?H] that by simp
  have stored: "balanced (?D # ?H) (announce_and_serve h ?c bound) [?D] [?D]" for bound
    using balanced_serving [of ?c "?D # ?H"] by simp
  have rest: "balanced ?H (if dc_DBPath ?c = [] then announce_and_serve h ?c bound
      else io_seq (on_error (release (Control (dc_Addr ?c))) (Open h (dc_DBPath ?c) (dc_ExtPath ?c)))
        (deferring (release ?D) (announce_and_serve h ?c bound))) [] []" for bound
    using plain stored by (cases "dc_DBPath ?c = []")
      (simp, simp, (assumption | rule balanced_bind balanced_on_error balanced_Open balanced_release balanced_deferring [OF stored] | simp)+)
  show ?thesis
    unfolding daemon_Run_def Let_def Store_Close_def
    by (rule balanced_bind balanced_steps balanced_wrap balanced_acquire rest | simp)+
qed

text \<open>C26: Whatever fails and however it ends, the daemon leaves nothing open: for every machine and every
  configuration, a Run has closed every listener, the database file, the workers' context and the signal
  channel by the time it returns, each exactly once; on the way it never takes what it holds already,
  runs a statement or starts a worker without the open file, serves without a listener or
  announces itself before the control plane is bound. And unless its address passes the
  loopback check it does nothing at all.\<close>

theorem daemon_leaves_nothing_open:
  "track [] (snd (daemon_Run h cfg [])) = Some []
   \<and> (checkLoopback (ho_parse_ip h) (dc_Addr (with_defaults cfg)) = Inr () \<or> snd (daemon_Run h cfg []) = [])"
proof
  show "track [] (snd (daemon_Run h cfg [])) = Some []"
    using balanced_Run [of h cfg] leavesD [of "\<lambda>l. l" "daemon_Run h cfg" _ "[]"]
    by (auto simp: balanced_def split: sum.splits)
  show "checkLoopback (ho_parse_ip h) (dc_Addr (with_defaults cfg)) = Inr () \<or> snd (daemon_Run h cfg []) = []"
    by (cases "checkLoopback (ho_parse_ip h) (dc_Addr (with_defaults cfg))") (auto simp: daemon_Run_def Let_def io_bind_def)
qed

section \<open>Coming up and going down\<close>

text \<open>What a machine on which nothing fails makes of a configuration, in order.\<close>

definition runner_up :: "daemon_config \<Rightarrow> life list" where
  "runner_up cfg = (if dc_DBPath cfg = '''' \<or> dc_DisableRunner cfg then []
     else [Acquires RunnerContext] @ map (\<lambda>i. Works (''worker-'' @ show_nat i)) [0..<nat (dc_Workers cfg)] @ [Schedules ''scheduler''])"

definition hooks_up :: "daemon_config \<Rightarrow> life list" where
  "hooks_up cfg = (if dc_DBPath cfg = '''' \<or> dc_WebhookAddr cfg = '''' then []
     else [Acquires (Hooks (dc_WebhookAddr cfg)), Serves (Hooks (dc_WebhookAddr cfg))])"

definition control_up :: "daemon_config \<Rightarrow> life list" where
  "control_up cfg = [Acquires SignalChannel, Serves (Control (dc_Addr cfg))]"

definition comes_up :: "daemon_config \<Rightarrow> string \<Rightarrow> life list" where
  "comes_up cfg bound = [Acquires (Control (dc_Addr cfg))]
     @ (if dc_DBPath cfg = '''' then []
        else [Acquires (Database (dc_DBPath cfg)), LimitsConns 1, Executes ''PRAGMA journal_mode=WAL'']
          @ map (\<lambda>t. Executes (create_table t)) schemaStmts)
     @ (if dc_Started cfg then [Announces bound] else [])
     @ runner_up cfg @ hooks_up cfg @ control_up cfg"

definition stops_serving :: "daemon_config \<Rightarrow> wake \<Rightarrow> life list" where
  "stops_serving cfg why = (case why of
      StopRequested \<Rightarrow> [ShutsDown (Some (dc_DrainTimeout cfg)), Releases (Control (dc_Addr cfg))]
    | ServeFailed _ \<Rightarrow> [Releases (Control (dc_Addr cfg))]
    | _ \<Rightarrow> [ShutsDown None, Releases (Control (dc_Addr cfg)), AwaitsRequests])"

definition goes_down :: "daemon_config \<Rightarrow> life list" where
  "goes_down cfg = [Releases SignalChannel]
     @ (if dc_DBPath cfg = '''' \<or> dc_WebhookAddr cfg = '''' then [] else [Releases (Hooks (dc_WebhookAddr cfg))])
     @ (if dc_DBPath cfg = '''' \<or> dc_DisableRunner cfg then [] else [Releases RunnerContext])
     @ (if dc_DBPath cfg = '''' then [] else [Releases (Database (dc_DBPath cfg))])"

definition outcome :: "host \<Rightarrow> wake \<Rightarrow> life list \<Rightarrow> unit res" where
  "outcome h why log = (case why of StopRequested \<Rightarrow> Inr () | ServeFailed e \<Rightarrow> Inl e | _ \<Rightarrow> ho_shutdown h log)"

definition sound :: "host \<Rightarrow> (string \<Rightarrow> string) \<Rightarrow> bool" where
  "sound h bound \<longleftrightarrow> (\<forall>log a. ho_listen h log a = Inr (bound a)) \<and> (\<forall>log p x. ho_open h log p x = Inr ())
     \<and> (\<forall>log q. ho_exec h log q = Inr ())"

lemma living_simps [simp]:
  "happens e log = (Inr (), log @ [e])" "release x log = (Inr (), log @ [Releases x])"
  by (simp_all add: happens_def release_def)

lemma each_happens: "io_each (\<lambda>x. happens (f x)) xs log = (Inr (), log @ map f xs)"
  by (induction xs arbitrary: log) simp_all

lemma exec_sound: "sound h bound \<Longrightarrow> exec_stmt h q log = (Inr (), log @ [Executes q])"
  by (simp add: sound_def exec_stmt_def)

lemma each_exec:
  "sound h bound \<Longrightarrow> io_each (\<lambda>x. io_wrap pre (exec_stmt h (g x))) xs log = (Inr (), log @ map (\<lambda>x. Executes (g x)) xs)"
  by (induction xs arbitrary: log) (simp_all add: exec_sound io_wrap_def)

lemma acquire_sound:
  "sound h bound \<Longrightarrow> acquire (\<lambda>log. ho_listen h log a) x log = (Inr (bound a), log @ [Acquires x])"
  "sound h bound \<Longrightarrow> acquire (\<lambda>log. ho_open h log p e) x log = (Inr (), log @ [Acquires x])"
  by (simp_all add: sound_def acquire_def)

lemma Open_sound:
  assumes "sound h bound" "ext \<noteq> ''''"
  shows "Open h path ext log = (Inr (), log @ [Acquires (Database path), LimitsConns 1,
     Executes ''PRAGMA journal_mode=WAL''] @ map (\<lambda>t. Executes (create_table t)) schemaStmts)"
  by (simp add: Open_def io_wrap_def on_error_def ensureSchema_def assms(2) acquire_sound(2) [OF assms(1)] each_exec [OF assms(1)]
      exec_sound [OF assms(1)] del: io_each.simps)

lemma await_end_apply: "await_end h cfg log = (outcome h (ho_wake h log) (log @ stops_serving cfg (ho_wake h log)),
    log @ stops_serving cfg (ho_wake h log))"
  by (simp add: await_end_def outcome_def stops_serving_def Serve_def handleStop_def Server_Stop_def split: wake.split)

lemma serve_control_apply:
  "l = log @ control_up cfg \<Longrightarrow> why = ho_wake h l \<Longrightarrow> serve_control h cfg log =
     (outcome h why (l @ stops_serving cfg why), l @ stops_serving cfg why @ [Releases SignalChannel])"
  by (simp add: serve_control_def deferring_def await_end_apply control_up_def)

lemma with_hooks_apply:
  assumes "sound h bound" "m (log @ hooks_up cfg) = (r, l)"
  shows "with_hooks h cfg m log = (r, l @ (if dc_DBPath cfg = '''' \<or> dc_WebhookAddr cfg = '''' then []
    else [Releases (Hooks (dc_WebhookAddr cfg))]))"
  using acquire_sound(1) [OF assms(1)] assms(2)
  by (cases "dc_DBPath cfg = [] \<or> dc_WebhookAddr cfg = []")
    (auto simp: with_hooks_def hooks_up_def on_error_def io_wrap_def deferring_def)

lemma with_runner_apply:
  assumes "m (log @ runner_up cfg) = (r, l)"
  shows "with_runner cfg m log = (r, l @ (if dc_DBPath cfg = '''' \<or> dc_DisableRunner cfg then [] else [Releases RunnerContext]))"
  using assms by (cases "dc_DBPath cfg = [] \<or> dc_DisableRunner cfg")
    (auto simp: with_runner_def runner_up_def each_happens deferring_def simp del: io_each.simps)

lemma announce_and_serve_apply:
  assumes "sound h bound" "l = log @ (if dc_Started cfg then [Announces b] else []) @ runner_up cfg @ hooks_up cfg @ control_up cfg"
    and "why = ho_wake h l"
  shows "announce_and_serve h cfg b log = (outcome h why (l @ stops_serving cfg why), l @ stops_serving cfg why @ [Releases SignalChannel]
     @ (if dc_DBPath cfg = '''' \<or> dc_WebhookAddr cfg = '''' then [] else [Releases (Hooks (dc_WebhookAddr cfg))])
     @ (if dc_DBPath cfg = '''' \<or> dc_DisableRunner cfg then [] else [Releases RunnerContext]))"
proof -
  let ?log = "log @ (if dc_Started cfg then [Announces b] else [])"
  have "serve_control h cfg ((?log @ runner_up cfg) @ hooks_up cfg)
      = (outcome h why (l @ stops_serving cfg why), l @ stops_serving cfg why @ [Releases SignalChannel])"
    by (rule serve_control_apply) (simp_all add: assms)
  note hooks = with_hooks_apply [where m = "serve_control h cfg", OF assms(1) this]
  show ?thesis
    using with_runner_apply [where m = "with_hooks h cfg (serve_control h cfg)", OF hooks]
    by (cases "dc_Started cfg") (simp_all add: announce_and_serve_def)
qed


definition quiet_host :: "wake \<Rightarrow> host" where
  "quiet_host why = \<lparr> ho_listen = (\<lambda>_ a. Inr a), ho_open = (\<lambda>_ _ _. Inr ()), ho_exec = (\<lambda>_ _. Inr ()), ho_wake = (\<lambda>_. why),
     ho_shutdown = (\<lambda>_. Inr ()),
     ho_parse_ip = (\<lambda>a. if a = ''127.0.0.1'' then Some (replicate 10 0 @ [255, 255, 127, 0, 0, 1]) else None) \<rparr>"

definition stored_config :: daemon_config where
  "stored_config = \<lparr> dc_Addr = '''', dc_DBPath = ''runs.db'', dc_ExtPath = ''honker.so'', dc_DrainTimeout = 0, dc_QueueName = '''',
     dc_VisibilityTimeoutS = 0, dc_MaxAttempts = 0, dc_SecretRetryCount = 0, dc_Resolver = None, dc_WebhookReceivers = [],
     dc_MCPConnectors = [], dc_Workers = 2, dc_DisableRunner = False, dc_WebhookAddr = '':8080'', dc_Started = True \<rparr>"


end
