(* ===== verification/DaemonRuns.thy ===== *)
theory DaemonRuns
  imports Completion BootLaws
begin

text \<open>
  The workers of the daemon (Boot) meet what a run relies on to complete (Completion): the triggers
  that fire when a run ends start other runs and leave this one alone.
\<close>

section \<open>Starting another run\<close>

abbreviation view :: "string \<Rightarrow> jworld \<Rightarrow> run_row option \<times> (string \<Rightarrow> int option) \<times> (string \<Rightarrow> value option) \<times> node_job list" where
  "view run \<equiv> \<lambda>s. run_view run (w_db s)"

lemma view_CreateRun: "rid \<noteq> run \<Longrightarrow> keeps (view run) (CreateRun rid name)"
  unfolding CreateRun_def
  by (intro keeps_if keeps_bind keeps_wrapping keeps_throw keeps_get_now keeps_exec_sql) (simp add: run_view_def tbl.get_put)

lemma view_initDeps: "rid \<noteq> run \<Longrightarrow> keeps (view run) (initDeps w rid)"
proof -
  assume ne: "rid \<noteq> run"
  have "run_view run d' = run_view run d"
    if "runs (each (\<lambda>node. wrapping (pre node) (exec_sql (\<lambda>d. d\<lparr> db_deps := upsert (rid, node) (k node) (db_deps d) \<rparr>))) ns) d u d'"
    for pre k ns d u and d' :: jdb
  proof (rule runs_each_rel [where R = "\<lambda>d d'. run_view run d' = run_view run d", OF _ _ _ that])
    show "run_view run b = run_view run a"
      if "runs (wrapping (pre x) (exec_sql (\<lambda>d. d\<lparr> db_deps := upsert (rid, x) (k x) (db_deps d) \<rparr>))) a () b" for x a b
      using that ne by (auto simp: run_view_def tbl.get_put dest!: runs_exec_sql)
  qed simp_all
  then have "keeps (view run) (InitRunDeps rd)" if "rd_run rd = rid" for rd
    unfolding InitRunDeps_def that by (rule keeps_WithTx)
  then show ?thesis
    unfolding initDeps_def NewRunDeps_def by (auto intro!: keeps_intro split: prod.split)
qed

lemma view_StartRun:
  assumes "rid \<noteq> run"
  shows "keeps (view run) (StartRun types self queue w event rid)"
  unfolding StartRun_def
proof (rule keeps_bind_result)
  fix head s s'
  assume "of_res (FromWafer types self w event) s = (Inr head, s')"
  then have f: "FromWafer types self w event = Inr head" by (cases "FromWafer types self w event") (auto simp: of_res_def)
  have enqueue: "keeps (view run) (bind (of_res (payload_of p rid)) (\<lambda>j. queue_Enqueue queue j))" if p: "head = Some p" for p
  proof (rule keeps_bind_result)
    fix j t t'
    assume "of_res (payload_of p rid) t = (Inr j, t')"
    then have j: "payload_of p rid = Inr j" by (cases "payload_of p rid") (auto simp: of_res_def)
    have "RunID (nj j) = rid"
      using f p by (cases "ResolveDAG w") (auto simp: FromWafer_def split: if_splits intro!: payload_RunID [OF j FromWafer_head])
    then show "keeps (view run) (queue_Enqueue queue j)"
      using assms unfolding queue_Enqueue_def by (intro keeps_qcall) (simp add: run_view_def sent_def List.map_filter_def)
  qed (rule keeps_of_res)
  show "keeps (view run) (case head of None \<Rightarrow> ret '''' | Some p \<Rightarrow> seq (CreateRun rid (w_name w)) (seq (initDeps w rid)
      (seq (wrapping ''run: enqueue head node: '' (bind (of_res (payload_of p rid)) (\<lambda>j. queue_Enqueue queue j))) (ret rid))))"
    by (assumption | rule enqueue keeps_option keeps_ret keeps_wrapping view_CreateRun view_initDeps assms keeps_bind)+
qed (rule keeps_of_res)

section \<open>The triggers of an ended run\<close>

lemma view_fresh:
  assumes "\<not> sublist mark run" "\<And>rid. rid \<noteq> run \<Longrightarrow> keeps (view run) (k rid)"
  shows "keeps (view run) (bind (fresh_id rc (name @ mark)) k)"
proof -
  have "name @ mark @ t \<noteq> run" for t using assms(1) by (auto simp: sublist_def)
  then have "keeps (view run) (k (name @ mark @ itoa i))" for i by (rule assms(2))
  then show ?thesis by (simp add: keeps_def bind_def fresh_id_def)
qed

lemma view_fire_all:
  assumes "\<not> sublist (''-'' @ kind @ ''-'') run"
  shows "keeps (view run) (fire_all rc kind upstream ended)"
proof -
  have "keeps (view run) (fire_trigger rc kind upstream ended w tr)" for w tr
    unfolding fire_trigger_def start_def using assms
    by (intro keeps_if keeps_ret view_fresh keeps_wrapping keeps_bind view_StartRun) simp_all
  then show ?thesis
    unfolding fire_all_def ListWorkflows_def
    by (intro keeps_bind keeps_wrapping keeps_query keeps_each)
      (auto intro!: keeps_intro split: prod.split sum.split)
qed

lemma view_callbacks:
  "\<not> sublist ''-completed-'' run \<Longrightarrow> keeps (view run) (on_receiver d (\<lambda>rc. Completed rc workflow ended))"
  "\<not> sublist ''-failed-'' run \<Longrightarrow> keeps (view run) (on_receiver d (\<lambda>rc. Failed rc workflow ended))"
  using view_fire_all [of "''completed''" run] view_fire_all [of "''failed''" run]
  by (auto simp: on_receiver_def Completed_def Failed_def intro!: keeps_intro)

text \<open>C23: A run that has ended is left alone: whatever fails, what a worker of the daemon does when a run
  completes or fails, firing the workflows that wait for it, starts other runs but never changes the row, the
  dependency counts, the results or the queued jobs of that run; so the daemon's workers meet what a run
  relies on to complete. The ids of the runs it starts are the name of a workflow, the word completed or failed and the
  time, so a run is safe whose own id has neither word between dashes.\<close>

theorem ended_run_is_left_alone:
  assumes "\<not> sublist ''-completed-'' run" "\<not> sublist ''-failed-'' run"
  shows "leaves_run (worker_of cfg d w) run
    \<and> (\<forall>f workflow. wk_onFailed (worker_of cfg d w) = Some f \<longrightarrow> keeps (\<lambda>s. run_view run (w_db s)) (f workflow run))"
  using view_callbacks [of run] assms
  by (auto simp: leaves_run_def worker_of_def daemon_worker_def New_def)

text \<open>A workflow that waits for the end of another.\<close>

definition follow_up :: "(string \<times> value) list" where
  "follow_up = [(''name'', VStr ''report''),
     (''triggers'', VArr [VObj [(''type'', VStr ''completed''), (''workflow'', VStr ''orders'')]]),
     (''nodes'', VArr [VObj [(''type'', VStr ''transform''), (''name'', VStr ''sum''), (''expression'', VStr ''1'')]])]"

definition waiting_receiver :: trigger_receiver where
  "waiting_receiver = \<lparr> tc_queue = '''', tc_resolver = None, tc_receivers = [], tc_now = (\<lambda>_. 42), tc_types = mechanisms,
     tc_self = ''servitor'', tc_unmarshal = (\<lambda>_. Inr follow_up), tc_mac = (\<lambda>_ _. ''''), tc_email = (\<lambda>_. Inl (errorf '''')) \<rparr>"

definition orders_done :: jworld where
  "orders_done = calm_world (empty_db\<lparr> db_workflows := [(''report'', \<lparr> wf_wafer = ''report'', wf_enabled = True \<rparr>)],
     db_runs := [(''orders-17'', \<lparr> rr_workflow = ''orders'', rr_status = RunCompleted, rr_pending = 0, rr_created = 0 \<rparr>)] \<rparr>)"

definition notified :: "jworld" where
  "notified = snd (on_receiver (server_of (with_defaults stored_config) waiting_receiver idle_daemon)
     (\<lambda>rc. Completed rc ''orders'' ''orders-17'') orders_done)"

theorem ended_run_is_left_alone_witness:
  "map fst (db_runs (w_db notified)) = [''orders-17'', ''report-completed-42'']
   \<and> run_view ''orders-17'' (w_db notified) = run_view ''orders-17'' (w_db orders_done)"
proof -
  have "\<not> sublist ''-completed-'' ''orders-17''" "\<not> sublist ''-failed-'' ''orders-17''" by code_simp+
  then have l: "leaves_run (worker_of (with_defaults stored_config)
      (server_of (with_defaults stored_config) waiting_receiver idle_daemon) (test_worker VNull)) ''orders-17''"
    using ended_run_is_left_alone by blast
  have "run_view ''orders-17'' (w_db notified) = run_view ''orders-17'' (w_db orders_done)"
    using l by (simp add: leaves_run_def worker_of_def daemon_worker_def New_def keeps_def notified_def)
  moreover have "map fst (db_runs (w_db notified)) = [''orders-17'', ''report-completed-42'']" by code_simp
  ultimately show ?thesis by simp
qed

end
