(* ===== verification/AdrLint.thy ===== *)
theory AdrLint
  imports Trigger
begin

text \<open>
  The linter of the decision log (scripts/checks/adrlint/main.go): which files it takes for decisions, what it
  reads of their front matter, the numbering, and what it prints before it exits.
\<close>

section \<open>The linter\<close>

text \<open>The directory (names in order, a flag for directories) and the files; a root is a clean path.\<close>

record lint_os =
  lo_read_dir :: "string \<Rightarrow> (string \<times> bool) list res"
  lo_open :: "string \<Rightarrow> string res"

record adr =
  ad_path :: string
  ad_num :: nat
  ad_status :: string
  ad_impact :: string

definition lower_or_digit :: "char \<Rightarrow> bool" where
  "lower_or_digit c \<longleftrightarrow> is_digit c \<or> (97 \<le> (of_char c :: nat) \<and> (of_char c :: nat) \<le> 122)"

text \<open>adrFileRe: the number of a file name of the form NNNN-short-kebab-title.md.\<close>

definition adrFileRe :: "string \<Rightarrow> nat option" where
  "adrFileRe name =
     (let d = take 4 name; title = drop 5 name; stem = take (length title - 3) title in
      if length d = 4 \<and> list_all is_digit d \<and> take 1 (drop 4 name) = ''-''
         \<and> drop (length title - 3) title = ''.md''
         \<and> list_all (\<lambda>p. p \<noteq> '''' \<and> list_all lower_or_digit p) (split_at (CHR ''-'') stem)
      then Some (nat (digits_value d)) else None)"

text \<open>supersededRe: one reference after the other.\<close>

function adr_refs :: "string \<Rightarrow> bool" where
  "adr_refs s = (if length (take 4 s) = 4 \<and> list_all is_digit (take 4 s)
     then (if drop 4 s = [] then True
       else if has_prefix (drop 4 s) '' and ADR-'' then adr_refs (drop 13 s) else False)
     else False)"
  by pat_completeness auto
termination by (relation "measure length") auto

declare adr_refs.simps [simp del]

definition supersededRe :: "string \<Rightarrow> bool" where
  "supersededRe v \<longleftrightarrow> has_prefix v ''superseded by ADR-'' \<and> adr_refs (drop 18 v)"

definition validStatus :: "string \<Rightarrow> bool" where
  "validStatus v \<longleftrightarrow> v = ''proposed'' \<or> v = ''accepted'' \<or> v = ''deprecated''"

definition validImpact :: "string \<Rightarrow> bool" where
  "validImpact v \<longleftrightarrow> v = ''none'' \<or> v = ''new'' \<or> v = ''breaking''"

text \<open>\<^verbatim>\<open>Inl\<close> what is printed before os.Exit(1).\<close>

definition exits :: "string \<Rightarrow> string + 'a" where
  "exits text = Inl (text @ [CHR 0x0A])"

definition fatal :: "string \<Rightarrow> string + 'a" where
  "fatal text = exits (''adrlint: '' @ text)"

definition set_field :: "adr \<Rightarrow> string \<Rightarrow> string \<Rightarrow> string + adr" where
  "set_field a k v =
     (if k = ''status'' then
        (if \<not> validStatus v \<and> \<not> supersededRe v then exits (ad_path a @ '': invalid status '' @ quote v @
           '' (want proposed|accepted|deprecated|superseded by ADR-NNNN[ and ADR-NNNN ...])'')
         else Inr (a\<lparr> ad_status := v \<rparr>))
      else if k = ''interface-impact'' then
        (if \<not> validImpact v then exits (ad_path a @ '': invalid interface-impact '' @ quote v @ '' (want none|new|breaking)'')
         else Inr (a\<lparr> ad_impact := v \<rparr>))
      else Inr a)"

fun scan_front :: "bool \<Rightarrow> adr \<Rightarrow> string list \<Rightarrow> string + adr" where
  "scan_front inFront a [] = fatal (ad_path a @ '': missing closing '' @ [CHR 0x27] @ ''---'' @ [CHR 0x27] @ '' or no front matter'')"
| "scan_front inFront a (raw # ls) =
     (let line = trim_space raw in
      if line = ''---'' \<and> \<not> inFront then scan_front True a ls
      else if line = ''---'' \<and> inFront then Inr a
      else if inFront then (case cut_at (CHR '':'') line of
          None \<Rightarrow> scan_front inFront a ls
        | Some (k, v) \<Rightarrow> (case set_field a (trim_space k) (trim_space v) of
            Inl t \<Rightarrow> Inl t | Inr a' \<Rightarrow> scan_front inFront a' ls))
      else scan_front inFront a ls)"

text \<open>bufio.Scanner with a buffer of a mebibyte: it stops at a line that does not fit.\<close>

definition file_lines :: "string \<Rightarrow> string list" where
  "file_lines content = takeWhile (\<lambda>l. int (length l) < 1048576) (lines_of [] content)"

definition parseADRs :: "lint_os \<Rightarrow> string \<Rightarrow> nat \<Rightarrow> string + adr" where
  "parseADRs os path num = (case lo_open os path of
      Inl e \<Rightarrow> fatal (''cannot open '' @ path @ '': '' @ err_msg e)
    | Inr content \<Rightarrow> scan_front False \<lparr> ad_path = path, ad_num = num, ad_status = '''', ad_impact = '''' \<rparr> (file_lines content))"

definition not_a_decision :: "string \<times> bool \<Rightarrow> bool" where
  "not_a_decision e \<longleftrightarrow> snd e \<or> fst e = ''README.md'' \<or> has_prefix (fst e) ''0000-''"

fun read_adrs :: "lint_os \<Rightarrow> string \<Rightarrow> (string \<times> bool) list \<Rightarrow> string + adr list" where
  "read_adrs os root [] = Inr []"
| "read_adrs os root (e # es) =
     (if not_a_decision e then read_adrs os root es
      else case adrFileRe (fst e) of
        None \<Rightarrow> exits (''invalid ADR filename: '' @ fst e @ '' (want NNNN-short-kebab-title.md)'')
      | Some num \<Rightarrow> (case parseADRs os (root @ ''/'' @ fst e) num of
          Inl t \<Rightarrow> Inl t
        | Inr a \<Rightarrow> (case read_adrs os root es of Inl t \<Rightarrow> Inl t | Inr as \<Rightarrow> Inr (a # as))))"

definition pad4 :: "nat \<Rightarrow> string" where
  "pad4 n = replicate (4 - length (show_nat n)) (CHR ''0'') @ show_nat n"

text \<open>The slice is sorted in place, so main goes on with the sorted one.\<close>

fun checkSequential :: "nat \<Rightarrow> adr list \<Rightarrow> string + unit" where
  "checkSequential want [] = Inr ()"
| "checkSequential want (a # as) =
     (if ad_num a \<noteq> want then fatal (''ADR numbering is not sequential: '' @ ad_path a @ '' has number '' @ pad4 (ad_num a) @
        '', expected '' @ pad4 want)
      else checkSequential (want + 1) as)"

fun check_fields :: "adr list \<Rightarrow> string + unit" where
  "check_fields [] = Inr ()"
| "check_fields (a # as) =
     (if ad_status a = '''' then fatal (ad_path a @ '': missing or invalid status'')
      else if ad_impact a = '''' then fatal (ad_path a @ '': missing or invalid interface-impact'')
      else check_fields as)"

definition lint_root :: "string list \<Rightarrow> string" where
  "lint_root args = (case args of [] \<Rightarrow> ''docs/adr'' | r # _ \<Rightarrow> r)"

definition adrlint_main :: "lint_os \<Rightarrow> string list \<Rightarrow> int \<times> string" where
  "adrlint_main os args =
     (case (case lo_read_dir os (lint_root args) of
        Inl e \<Rightarrow> fatal (''cannot read '' @ lint_root args @ '': '' @ err_msg e)
      | Inr entries \<Rightarrow> (case read_adrs os (lint_root args) entries of
          Inl t \<Rightarrow> Inl t
        | Inr adrs \<Rightarrow> (let sorted = sort_key ad_num adrs in
            case checkSequential 1 sorted of Inl t \<Rightarrow> Inl t
            | Inr _ \<Rightarrow> (case check_fields sorted of Inl t \<Rightarrow> Inl t
              | Inr _ \<Rightarrow> Inr (''adrlint: '' @ show_nat (length sorted) @ '' ADRs OK'' @ [CHR 0x0A]))))) of
        Inl t \<Rightarrow> (1, t) | Inr t \<Rightarrow> (0, t))"

section \<open>What it accepts\<close>

text \<open>The front matter: the lines between the first two fences.\<close>

definition front_matter :: "string list \<Rightarrow> string list option" where
  "front_matter ls = (case dropWhile (\<lambda>l. l \<noteq> ''---'') ls of
      [] \<Rightarrow> None
    | _ # r \<Rightarrow> if ''---'' \<in> set r then Some (takeWhile (\<lambda>l. l \<noteq> ''---'') r) else None)"

definition front_fields :: "string list \<Rightarrow> (string \<times> string) list" where
  "front_fields fm = map (\<lambda>(k, v). (trim_space k, trim_space v)) (List.map_filter (cut_at (CHR '':'')) fm)"

text \<open>Every value of a field is one of the allowed, and there is one.\<close>

definition field_declared :: "string \<Rightarrow> (string \<Rightarrow> bool) \<Rightarrow> (string \<times> string) list \<Rightarrow> bool" where
  "field_declared k ok fs \<longleftrightarrow> (let vs = map snd (filter (\<lambda>p. fst p = k) fs) in vs \<noteq> [] \<and> list_all ok vs)"

definition declares :: "string \<Rightarrow> bool" where
  "declares content \<longleftrightarrow> (case front_matter (map trim_space (file_lines content)) of
      None \<Rightarrow> False
    | Some fm \<Rightarrow> field_declared ''status'' (\<lambda>v. validStatus v \<or> supersededRe v) (front_fields fm)
        \<and> field_declared ''interface-impact'' validImpact (front_fields fm))"

definition sound_log :: "lint_os \<Rightarrow> string \<Rightarrow> bool" where
  "sound_log os root \<longleftrightarrow> (case lo_read_dir os root of
      Inl _ \<Rightarrow> False
    | Inr entries \<Rightarrow> (let names = map fst (filter (\<lambda>e. \<not> not_a_decision e) entries) in
        list_all (\<lambda>n. adrFileRe n \<noteq> None) names
        \<and> list_all (\<lambda>n. case lo_open os (root @ ''/'' @ n) of Inl _ \<Rightarrow> False | Inr c \<Rightarrow> declares c) names
        \<and> sort (map (the \<circ> adrFileRe) names) = [1..<length names + 1]))"

lemma fatal_not_Inr [simp]: "exits t \<noteq> Inr a" "fatal t \<noteq> Inr a"
  by (simp_all add: exits_def fatal_def)

lemma valid_nonempty: "validStatus v \<or> supersededRe v \<Longrightarrow> v \<noteq> ''''" "validImpact v \<Longrightarrow> v \<noteq> ''''"
  by (auto simp: validStatus_def supersededRe_def validImpact_def)

text \<open>What a record has to start with for the fields to complete it.\<close>

definition completes :: "adr \<Rightarrow> (string \<times> string) list \<Rightarrow> bool" where
  "completes a fs \<longleftrightarrow> list_all (\<lambda>(k, v). (k \<noteq> ''status'' \<or> validStatus v \<or> supersededRe v) \<and> (k \<noteq> ''interface-impact'' \<or> validImpact v)) fs
     \<and> (ad_status a \<noteq> '''' \<or> ''status'' \<in> set (map fst fs)) \<and> (ad_impact a \<noteq> '''' \<or> ''interface-impact'' \<in> set (map fst fs))"

lemma set_field_cases:
  "case set_field a k v of
     Inl _ \<Rightarrow> (k = ''status'' \<and> \<not> validStatus v \<and> \<not> supersededRe v) \<or> (k = ''interface-impact'' \<and> \<not> validImpact v)
   | Inr a' \<Rightarrow> ad_num a' = ad_num a \<and> (\<forall>fs. completes a ((k, v) # fs) \<longleftrightarrow> completes a' fs)"
  using valid_nonempty [of v]
  by (simp add: set_field_def completes_def exits_def split: if_splits)

lemma completes_invalid:
  "(k = ''status'' \<and> \<not> validStatus v \<and> \<not> supersededRe v) \<or> (k = ''interface-impact'' \<and> \<not> validImpact v)
    \<Longrightarrow> \<not> completes a ((k, v) # fs)"
  by (auto simp: completes_def)

definition finished :: "adr \<Rightarrow> string + adr \<Rightarrow> bool" where
  "finished a r \<longleftrightarrow> (case r of Inl _ \<Rightarrow> False | Inr a' \<Rightarrow> ad_status a' \<noteq> '''' \<and> ad_impact a' \<noteq> '''' \<and> ad_num a' = ad_num a)"

lemma scan_inside:
  "finished a (scan_front True a ls) \<longleftrightarrow> ''---'' \<in> set (map trim_space ls)
     \<and> completes a (front_fields (takeWhile (\<lambda>l. l \<noteq> ''---'') (map trim_space ls)))"
proof (induction ls arbitrary: a)
  case Nil
  then show ?case by (simp add: finished_def fatal_def exits_def)
next
  case (Cons raw ls)
  let ?line = "trim_space raw" and ?fm = "takeWhile (\<lambda>l. l \<noteq> ''---'') (map trim_space ls)"
  show ?case
  proof (cases "?line = ''---''")
    case True
    then show ?thesis by (simp add: finished_def completes_def front_fields_def List.map_filter_simps)
  next
    case False
    note step = False
    show ?thesis
    proof (cases "cut_at (CHR '':'') ?line")
      case None
      then show ?thesis using step Cons.IH [of a] by (simp add: front_fields_def List.map_filter_simps)
    next
      case (Some p)
      obtain k v where p: "p = (k, v)" by fastforce
      have f: "front_fields (?line # ?fm) = (trim_space k, trim_space v) # front_fields ?fm"
        by (simp add: front_fields_def List.map_filter_simps Some p)
      show ?thesis
      proof (cases "set_field a (trim_space k) (trim_space v)")
        case (Inl t)
        then show ?thesis
          using set_field_cases [where a = a and k = "trim_space k" and v = "trim_space v"] completes_invalid [of "trim_space k" "trim_space v" a "front_fields ?fm"]
            step by (simp add: Some p f finished_def)
      next
        case (Inr a')
        have a': "ad_num a' = ad_num a" "completes a ((trim_space k, trim_space v) # fs) \<longleftrightarrow> completes a' fs" for fs
          using set_field_cases [where a = a and k = "trim_space k" and v = "trim_space v"] by (auto simp: Inr)
        have "finished a r = finished a' r" for r by (simp add: finished_def a'(1) split: sum.split)
        then show ?thesis
          using Cons.IH [of a'] step by (simp add: Some p f Inr a'(2))
      qed
    qed
  qed
qed

lemma scan_outside:
  "finished a (scan_front False a ls) \<longleftrightarrow> (case front_matter (map trim_space ls) of
     None \<Rightarrow> False | Some fm \<Rightarrow> completes a (front_fields fm))"
proof (induction ls)
  case Nil
  then show ?case by (simp add: finished_def fatal_def exits_def front_matter_def)
next
  case (Cons raw ls)
  then show ?case
    using scan_inside [where a = a and ls = ls] by (cases "trim_space raw = ''---''") (simp_all add: front_matter_def)
qed

lemma completes_empty:
  "completes \<lparr> ad_path = p, ad_num = n, ad_status = '''', ad_impact = '''' \<rparr> fs
   \<longleftrightarrow> field_declared ''status'' (\<lambda>v. validStatus v \<or> supersededRe v) fs \<and> field_declared ''interface-impact'' validImpact fs"
proof -
  have "field_declared k ok fs \<longleftrightarrow> k \<in> set (map fst fs) \<and> list_all (\<lambda>p. fst p \<noteq> k \<or> ok (snd p)) fs" for k ok
    by (auto simp: field_declared_def Let_def list_all_iff filter_empty_conv)
  then show ?thesis by (auto simp: completes_def list_all_iff)
qed

definition complete_adr :: "adr \<Rightarrow> bool" where
  "complete_adr a \<longleftrightarrow> ad_status a \<noteq> '''' \<and> ad_impact a \<noteq> ''''"

lemma scan_num: "scan_front b a ls = Inr a' \<Longrightarrow> ad_num a' = ad_num a"
proof (induction b a ls rule: scan_front.induct)
  case (2 b a raw ls)
  have "ad_num x = ad_num a" if "set_field a k v = Inr x" for k v x
    using that by (auto simp: set_field_def split: if_splits)
  then show ?case using 2 by (auto simp: Let_def split: if_splits option.splits sum.splits)
qed simp

lemma parse_ok:
  "(case parseADRs os path num of Inl _ \<Rightarrow> False | Inr a \<Rightarrow> complete_adr a)
   \<longleftrightarrow> (case lo_open os path of Inl _ \<Rightarrow> False | Inr c \<Rightarrow> declares c)"
proof (cases "lo_open os path")
  case (Inr c)
  let ?a = "\<lparr> ad_path = path, ad_num = num, ad_status = '''', ad_impact = '''' \<rparr>"
  have "finished ?a (scan_front False ?a (file_lines c)) \<longleftrightarrow> declares c"
    unfolding scan_outside declares_def completes_empty ..
  then show ?thesis
    using scan_num [of False ?a "file_lines c"] by (auto simp: parseADRs_def Inr finished_def complete_adr_def split: sum.splits)
qed (simp add: parseADRs_def fatal_def exits_def)

lemma parse_num: "parseADRs os path num = Inr a \<Longrightarrow> ad_num a = num"
  by (auto simp: parseADRs_def split: sum.splits dest: scan_num)

abbreviation names_of :: "(string \<times> bool) list \<Rightarrow> string list" where
  "names_of es \<equiv> map fst (filter (\<lambda>e. \<not> not_a_decision e) es)"

lemma read_num: "read_adrs os root es = Inr adrs \<Longrightarrow> map ad_num adrs = map (the \<circ> adrFileRe) (names_of es)"
  by (induction es arbitrary: adrs) (auto split: if_splits option.splits sum.splits dest: parse_num)

lemma read_ok:
  "(case read_adrs os root es of Inl _ \<Rightarrow> False | Inr adrs \<Rightarrow> list_all complete_adr adrs)
   \<longleftrightarrow> list_all (\<lambda>n. adrFileRe n \<noteq> None) (names_of es)
     \<and> list_all (\<lambda>n. case lo_open os (root @ ''/'' @ n) of Inl _ \<Rightarrow> False | Inr c \<Rightarrow> declares c) (names_of es)"
proof (induction es)
  case (Cons e es)
  show ?case
  proof (cases "not_a_decision e \<or> adrFileRe (fst e) = None")
    case True
    then show ?thesis using Cons by (auto simp: exits_def)
  next
    case False
    then obtain num where num: "adrFileRe (fst e) = Some num" by auto
    show ?thesis
      using False Cons parse_ok [of os "root @ ''/'' @ fst e" num]
      by (auto simp: num split: sum.splits)
  qed
qed simp

lemma sequential_iff: "checkSequential w as = Inr () \<longleftrightarrow> map ad_num as = [w..<w + length as]"
proof (induction as arbitrary: w)
  case (Cons a as)
  then show ?case by (auto simp: upt_rec [of w] fatal_def exits_def)
qed simp

lemma fields_iff: "check_fields as = Inr () \<longleftrightarrow> list_all complete_adr as"
  by (induction as) (auto simp: complete_adr_def)

lemma map_sort_key: "map f (sort_key f xs) = sort (map f xs)"
proof (induction xs)
  case (Cons x xs)
  have "map f (insort_key f x ys) = insort (f x) (map f ys)" for ys by (induction ys) auto
  then show ?case using Cons by simp
qed simp

text \<open>C40: The linter passes a decision log exactly when it is sound: the directory can be read; of its files other than the
  README and the template each has a name of the form NNNN-short-kebab-title.md and can be opened;
  between the first two fences of each at least one status and one interface-impact are given and every
  one given is allowed; and the numbers are 1, 2, 3, ... without a gap or a repetition. It then
  exits with 0, and with 1 otherwise.\<close>

theorem adrlint_passes_sound_logs:
  "fst (adrlint_main os args) = (if sound_log os (lint_root args) then 0 else 1)"
proof (cases "lo_read_dir os (lint_root args)")
  case (Inl e)
  then show ?thesis by (simp add: adrlint_main_def sound_log_def fatal_def exits_def)
next
  case (Inr es)
  show ?thesis
  proof (cases "read_adrs os (lint_root args) es")
    case (Inl t)
    have "\<not> sound_log os (lint_root args)"
      using read_ok [of os "lint_root args" es] unfolding sound_log_def Inr Inl Let_def sum.case by blast
    then show ?thesis by (simp add: adrlint_main_def Inr Inl)
  next
    case r: (Inr adrs)
    let ?s = "sort_key ad_num adrs"
    have n: "map ad_num ?s = sort (map (the \<circ> adrFileRe) (names_of es))" "length ?s = length (names_of es)"
      using read_num [OF r] map_sort_key [of ad_num adrs] by (simp, metis length_map length_sort)
    have "check_fields ?s = Inr () \<longleftrightarrow> list_all complete_adr adrs" using fields_iff [of ?s] by (simp add: list_all_iff)
    moreover have "checkSequential 1 ?s = Inr () \<longleftrightarrow> sort (map (the \<circ> adrFileRe) (names_of es)) = [1..<length (names_of es) + 1]"
      using sequential_iff [of 1 ?s] unfolding n by (simp add: add.commute)
    ultimately have "sound_log os (lint_root args) \<longleftrightarrow> checkSequential 1 ?s = Inr () \<and> check_fields ?s = Inr ()"
      using read_ok [of os "lint_root args" es] unfolding sound_log_def Inr r Let_def sum.case by blast
    moreover have "fst (adrlint_main os args) = (if checkSequential 1 ?s = Inr () \<and> check_fields ?s = Inr () then 0 else 1)"
      unfolding adrlint_main_def Inr r Let_def sum.case
      by (cases "checkSequential 1 ?s"; cases "check_fields ?s") simp_all
    ultimately show ?thesis by simp
  qed
qed

text \<open>A log of two decisions, the second superseding the first, and the same log without the first.\<close>

definition sample_log :: "(string \<times> bool) list \<Rightarrow> lint_os" where
  "sample_log entries = \<lparr> lo_read_dir = (\<lambda>_. Inr entries),
     lo_open = (\<lambda>p. if p = ''docs/adr/0001-use-go.md''
       then Inr (join_with [CHR 0x0A] [''---'', ''status: superseded by ADR-0002 and ADR-0003'', ''interface-impact: none'', ''---'', ''# Use Go''])
       else Inr (join_with [CHR 0x0A] [''---'', ''status: accepted'', ''date: 2026-08-24'', ''interface-impact: new'', ''---'', '''']))  \<rparr>"

lemma sample_log_passes:
  "adrlint_main (sample_log [(''0000-adr-template.md'', False), (''0001-use-go.md'', False), (''0002-use-go-2.md'', False),
      (''README.md'', False), (''drafts'', True)]) [] = (0, ''adrlint: 2 ADRs OK'' @ [CHR 0x0A])"
  "adrlint_main (sample_log [(''0002-use-go-2.md'', False)]) [] = (1, ''adrlint: ADR numbering is not sequential: docs/adr/0002-use-go-2.md has number 0002, expected 0001'' @ [CHR 0x0A])"
  "fst (adrlint_main (sample_log [(''0001-use--go.md'', False)]) []) = 1"
  by code_simp+

end
